(* ===== verification/Prelude.thy ===== *)
theory Prelude
  imports Main
begin

text \<open>
  Generic material shared by the components: the parts of Go's \<^verbatim>\<open>strings\<close>,
  \<^verbatim>\<open>strconv\<close> and \<^verbatim>\<open>encoding/hex\<close> packages the program calls, and Go maps as
  association lists. A Go string or byte slice is a \<^typ>\<open>string\<close> (a list of bytes).
\<close>

section \<open>Go maps as association lists\<close>

text \<open>
  A Go map with string keys is an association list; \<open>map_of\<close> is its lookup. \<open>put\<close>
  is the assignment \<^verbatim>\<open>m[k] = v\<close> and \<open>get0\<close> the read of a map of strings, which yields
  the zero value (the empty string) for a missing key.
\<close>

type_synonym 'v table = "(string \<times> 'v) list"
type_synonym labels = "string table"

fun put :: "string \<Rightarrow> 'v \<Rightarrow> 'v table \<Rightarrow> 'v table" where
  "put k v [] = [(k, v)]"
| "put k v ((k', v') # m) = (if k = k' then (k, v) # m else (k', v') # put k v m)"

definition get0 :: "labels \<Rightarrow> string \<Rightarrow> string" where
  "get0 m k = (case map_of m k of None \<Rightarrow> [] | Some v \<Rightarrow> v)"

definition same_table :: "'v table \<Rightarrow> 'v table \<Rightarrow> bool" where
  "same_table m n = list_all (\<lambda>k. map_of m k = map_of n k) (map fst m @ map fst n)"

lemma map_of_put [simp]: "map_of (put k v m) = (map_of m)(k \<mapsto> v)"
  by (induction m) auto

lemma get0_put [simp]: "get0 (put k v m) k' = (if k' = k then v else get0 m k')"
  by (simp add: get0_def)

lemma same_table_iff: "same_table m n \<longleftrightarrow> map_of m = map_of n"
proof
  assume h: "same_table m n"
  show "map_of m = map_of n"
  proof
    fix k
    show "map_of m k = map_of n k"
    proof (cases "k \<in> fst ` set m \<union> fst ` set n")
      case True
      with h show ?thesis by (auto simp: same_table_def list_all_iff)
    next
      case False
      then show ?thesis by (metis UnI1 UnI2 map_of_eq_None_iff)
    qed
  qed
qed (simp add: same_table_def list_all_iff)

lemma same_table_refl [simp]: "same_table m m"
  by (simp add: same_table_iff)

lemma same_table_get0: "same_table m n \<Longrightarrow> get0 m k = get0 n k"
  by (simp add: same_table_iff get0_def)

section \<open>Strings\<close>

definition has_prefix :: "string \<Rightarrow> string \<Rightarrow> bool" where
  "has_prefix s p = (take (length p) s = p)"

definition has_suffix :: "string \<Rightarrow> string \<Rightarrow> bool" where
  "has_suffix s p = has_prefix (rev s) (rev p)"

definition trim_suffix :: "string \<Rightarrow> string \<Rightarrow> string" where
  "trim_suffix s p = (if has_suffix s p then take (length s - length p) s else s)"

lemma has_prefix_iff: "has_prefix s p \<longleftrightarrow> (\<exists>t. s = p @ t)"
  by (metis append_eq_conv_conj append_take_drop_id has_prefix_def)

lemma has_suffix_iff: "has_suffix s p \<longleftrightarrow> (\<exists>t. s = t @ p)"
proof -
  have "has_suffix s p \<longleftrightarrow> (\<exists>t. rev s = rev p @ t)"
    by (simp add: has_suffix_def has_prefix_iff)
  also have "\<dots> \<longleftrightarrow> (\<exists>t. s = rev t @ p)"
    by (metis rev_append rev_rev_ident)
  also have "\<dots> \<longleftrightarrow> (\<exists>t. s = t @ p)"
    by (metis rev_rev_ident)
  finally show ?thesis .
qed

text \<open>\<^verbatim>\<open>strings.Trim(s, cutset)\<close> for an ASCII cutset.\<close>

definition trim_chars :: "string \<Rightarrow> string \<Rightarrow> string" where
  "trim_chars cs s =
     rev (dropWhile (\<lambda>c. c \<in> set cs) (rev (dropWhile (\<lambda>c. c \<in> set cs) s)))"

lemma hd_dropWhile_rev:
  assumes "dropWhile P (rev (dropWhile P s)) \<noteq> []"
  shows "\<not> P (hd (rev (dropWhile P (rev (dropWhile P s)))))"
proof -
  obtain zs where zs: "rev (dropWhile P s) = zs @ dropWhile P (rev (dropWhile P s))"
    by (metis takeWhile_dropWhile_id)
  then have "dropWhile P s = rev (dropWhile P (rev (dropWhile P s))) @ rev zs"
    by (metis rev_append rev_rev_ident)
  with assms show ?thesis
    by (metis Nil_is_rev_conv append_is_Nil_conv hd_append2 hd_dropWhile)
qed

lemma trim_chars_ends:
  assumes "trim_chars cs s \<noteq> []"
  shows "hd (trim_chars cs s) \<notin> set cs" and "last (trim_chars cs s) \<notin> set cs"
proof -
  show "hd (trim_chars cs s) \<notin> set cs"
    using assms hd_dropWhile_rev [of "\<lambda>c. c \<in> set cs" s] by (simp add: trim_chars_def)
  show "last (trim_chars cs s) \<notin> set cs"
    using assms unfolding trim_chars_def by (metis (lifting) Nil_is_rev_conv hd_dropWhile last_rev)
qed

lemma length_trim_chars: "length (trim_chars cs s) \<le> length s"
  unfolding trim_chars_def
  by (metis length_dropWhile_le length_rev order_trans)

lemma dropWhile_fix: "xs = [] \<or> \<not> P (hd xs) \<Longrightarrow> dropWhile P xs = xs"
  by (cases xs) auto

lemma trim_chars_fix:
  assumes "s = [] \<or> (hd s \<notin> set cs \<and> last s \<notin> set cs)"
  shows "trim_chars cs s = s"
proof -
  have "dropWhile (\<lambda>c. c \<in> set cs) s = s"
    using assms by (intro dropWhile_fix) auto
  moreover have "dropWhile (\<lambda>c. c \<in> set cs) (rev s) = rev s"
    using assms by (intro dropWhile_fix) (auto simp: hd_rev)
  ultimately show ?thesis by (simp add: trim_chars_def)
qed

text \<open>
  \<^verbatim>\<open>strings.EqualFold(s, t)\<close>. Every call of the program has one of the constants
  \<^verbatim>\<open>enabled\<close>, \<^verbatim>\<open>required\<close>, \<^verbatim>\<open>optional\<close>, \<^verbatim>\<open>Retain\<close>, \<^verbatim>\<open>Delete\<close> as its second argument; no
  letter of theirs has a non-ASCII simple fold (only \<^verbatim>\<open>k\<close> and \<^verbatim>\<open>s\<close> do), so folding the
  ASCII letters is exact.
\<close>

definition ascii_lower :: "char \<Rightarrow> char" where
  "ascii_lower c = (let n = of_char c :: nat in if 65 \<le> n \<and> n \<le> 90 then char_of (n + 32) else c)"

definition equal_fold :: "string \<Rightarrow> string \<Rightarrow> bool" where
  "equal_fold s t = (map ascii_lower s = map ascii_lower t)"

lemma equal_fold_refl [simp]: "equal_fold s s"
  by (simp add: equal_fold_def)

text \<open>
  \<^verbatim>\<open>strings.TrimSpace\<close> removes Unicode white space, each code point in its UTF-8 form,
  from both ends.
\<close>

definition utf8_spaces :: "string list" where
  "utf8_spaces =
     map (map char_of)
       ([[9], [10], [11], [12], [13], [32], [194, 133], [194, 160], [225, 154, 128]]
        @ map (\<lambda>n. [226, 128, n]) [128..<139]
        @ [[226, 128, 168], [226, 128, 169], [226, 128, 175], [226, 129, 159],
           [227, 128, 128 :: nat]])"

fun strip_any :: "nat \<Rightarrow> string list \<Rightarrow> string \<Rightarrow> string" where
  "strip_any 0 ws s = s"
| "strip_any (Suc n) ws s =
     (case find (\<lambda>w. has_prefix s w) ws of
        None \<Rightarrow> s
      | Some w \<Rightarrow> strip_any n ws (drop (length w) s))"

definition trim_space :: "string \<Rightarrow> string" where
  "trim_space s =
     (let l = strip_any (length s) utf8_spaces s
      in rev (strip_any (length l) (map rev utf8_spaces) (rev l)))"

text \<open>\<^verbatim>\<open>strings.Index(s, c)\<close>, \<^verbatim>\<open>strings.LastIndex(s, c)\<close> for one byte, -1 as \<open>None\<close>.\<close>

fun index_of :: "char \<Rightarrow> string \<Rightarrow> nat option" where
  "index_of c [] = None"
| "index_of c (d # s) = (if c = d then Some 0 else map_option Suc (index_of c s))"

definition last_index_of :: "char \<Rightarrow> string \<Rightarrow> nat option" where
  "last_index_of c s = map_option (\<lambda>i. length s - Suc i) (index_of c (rev s))"

lemma index_of_None [simp]: "index_of c s = None \<longleftrightarrow> c \<notin> set s"
  by (induction s) auto

lemma index_of_append: "c \<notin> set s \<Longrightarrow> index_of c (s @ c # t) = Some (length s)"
  by (induction s) auto

lemma last_index_of_append: "c \<notin> set t \<Longrightarrow> last_index_of c (s @ c # t) = Some (length s)"
  by (simp add: last_index_of_def index_of_append)

lemma last_index_of_None [simp]: "last_index_of c s = None \<longleftrightarrow> c \<notin> set s"
  by (simp add: last_index_of_def)

definition join_with :: "string \<Rightarrow> string list \<Rightarrow> string" where
  "join_with sep xs = (case xs of [] \<Rightarrow> [] | y # ys \<Rightarrow> y @ concat (map (\<lambda>z. sep @ z) ys))"

end
