(* ===== verification/Effects.thy ===== *)
theory Effects
  imports Prelude
begin

text \<open>
  How effectful Go code is modelled. A function that calls the cluster or the provider
  runtime is a \<^emph>\<open>program\<close>: it takes the world (an abstract type, everything outside the
  provider) and returns a result, the new world and the list of the calls it made, each with
  its answer. A Go \<^verbatim>\<open>error\<close> is a value of the type \<open>err\<close> of this theory; returning early with one keeps the effects
  made so far, as in Go. The rest of the theory is a small calculus for statements about the
  calls a program makes and their order.
\<close>

named_theorems emits_rules \<open>which calls a program can make\<close>
named_theorems total_rules \<open>programs that return and leave the world alone\<close>
named_theorems stops_rules \<open>programs that stop at a failed call\<close>
named_theorems decided_rules \<open>programs whose calls decide whether they return\<close>
named_theorems guarded_rules \<open>which calls come before others\<close>

section \<open>Errors\<close>

text \<open>
  Errors of the Kubernetes API, as the program distinguishes them: \<^verbatim>\<open>apierrors.IsNotFound\<close>,
  \<^verbatim>\<open>meta.IsNoMatchError\<close> (the kind is not installed), anything else.
\<close>

datatype api_error = NotFound | NoMatch | OtherApi string

text \<open>
  \<open>Errorf f as\<close> is \<^verbatim>\<open>fmt.Errorf\<close> with its format string and arguments, kept unrendered;
  \<open>Wait f as n\<close> is \<^verbatim>\<open>controller.WaitForDuration\<close>, the request to be requeued after \<open>n\<close>
  seconds; \<open>LibErr\<close> is an error of a library.
\<close>

datatype err =
    ApiErr api_error
  | LibErr string
  | Errorf string "arg list"
  | Wait string "arg list" nat
and arg = AStr string | AInt int | AErr err

fun is_wait :: "err \<Rightarrow> bool" where
  "is_wait (Wait f as n) = True"
| "is_wait _ = False"

section \<open>Programs\<close>

type_synonym ('e, 'w, 'a) prog = "'w \<Rightarrow> (err + 'a) \<times> 'w \<times> 'e list"

definition ret :: "'a \<Rightarrow> ('e, 'w, 'a) prog" where
  "ret a = (\<lambda>w. (Inr a, w, []))"

definition throw :: "err \<Rightarrow> ('e, 'w, 'a) prog" where
  "throw e = (\<lambda>w. (Inl e, w, []))"

definition bind :: "('e, 'w, 'a) prog \<Rightarrow> ('a \<Rightarrow> ('e, 'w, 'b) prog) \<Rightarrow> ('e, 'w, 'b) prog" where
  "bind m f = (\<lambda>w. case m w of
       (Inl e, w', es) \<Rightarrow> (Inl e, w', es)
     | (Inr a, w', es) \<Rightarrow> (case f a w' of (r, w'', es') \<Rightarrow> (r, w'', es @ es')))"

definition andthen :: "('e, 'w, unit) prog \<Rightarrow> ('e, 'w, 'b) prog \<Rightarrow> ('e, 'w, 'b) prog" where
  "andthen m n = bind m (\<lambda>_. n)"

text \<open>\<open>attempt\<close> turns an error into a value (\<^verbatim>\<open>err := f()\<close> without returning it);
  \<open>wrap_err\<close> is \<^verbatim>\<open>return fmt.Errorf("...: %w", err)\<close>.\<close>

definition attempt :: "('e, 'w, 'a) prog \<Rightarrow> ('e, 'w, err + 'a) prog" where
  "attempt m = (\<lambda>w. case m w of (r, w', es) \<Rightarrow> (Inr r, w', es))"

definition lift_result :: "err + 'a \<Rightarrow> ('e, 'w, 'a) prog" where
  "lift_result r = (case r of Inl e \<Rightarrow> throw e | Inr a \<Rightarrow> ret a)"

definition wrap_err :: "(err \<Rightarrow> err) \<Rightarrow> ('e, 'w, 'a) prog \<Rightarrow> ('e, 'w, 'a) prog" where
  "wrap_err g m = bind (attempt m) (\<lambda>r. case r of Inl e \<Rightarrow> throw (g e) | Inr a \<Rightarrow> ret a)"

text \<open>A call to the outside: the operation on the world and the event that records it.\<close>

definition call :: "('w \<Rightarrow> 'a \<times> 'w) \<Rightarrow> ('a \<Rightarrow> 'e) \<Rightarrow> ('e, 'w, 'a) prog" where
  "call f ev = (\<lambda>w. case f w of (a, w') \<Rightarrow> (Inr a, w', [ev a]))"

text \<open>A Go loop whose body may return an error.\<close>

primrec for_each :: "'a list \<Rightarrow> ('a \<Rightarrow> ('e, 'w, unit) prog) \<Rightarrow> ('e, 'w, unit) prog" where
  "for_each [] f = ret ()"
| "for_each (x # xs) f = andthen (f x) (for_each xs f)"

definition result :: "('e, 'w, 'a) prog \<Rightarrow> 'w \<Rightarrow> err + 'a" where
  "result m w = fst (m w)"

definition world :: "('e, 'w, 'a) prog \<Rightarrow> 'w \<Rightarrow> 'w" where
  "world m w = fst (snd (m w))"

definition events :: "('e, 'w, 'a) prog \<Rightarrow> 'w \<Rightarrow> 'e list" where
  "events m w = snd (snd (m w))"

lemmas prog_defs = ret_def throw_def bind_def andthen_def attempt_def wrap_err_def call_def lift_result_def

lemma run_parts: "m w = (result m w, world m w, events m w)"
  by (simp add: result_def world_def events_def)

lemma ret_simps [simp]: "result (ret a) w = Inr a" "world (ret a) w = w" "events (ret a) w = []"
  by (simp_all add: result_def world_def events_def ret_def)

lemma throw_simps [simp]: "result (throw e) w = Inl e" "world (throw e) w = w" "events (throw e) w = []"
  by (simp_all add: result_def world_def events_def throw_def)

lemma call_simps [simp]:
  "result (call f ev) w = Inr (fst (f w))" "world (call f ev) w = snd (f w)"
  "events (call f ev) w = [ev (fst (f w))]"
  by (simp_all add: result_def world_def events_def call_def split: prod.splits)

lemma bind_run:
  "bind m f w = (case result m w of
       Inl e \<Rightarrow> (Inl e, world m w, events m w)
     | Inr a \<Rightarrow> (result (f a) (world m w), world (f a) (world m w), events m w @ events (f a) (world m w)))"
  by (simp add: bind_def result_def world_def events_def split: prod.splits sum.splits)

lemma result_bind: "result (bind m f) w =
    (case result m w of Inl e \<Rightarrow> Inl e | Inr a \<Rightarrow> result (f a) (world m w))"
  by (simp add: result_def [of "bind m f"] bind_run split: sum.splits)

lemma world_bind: "world (bind m f) w =
    (case result m w of Inl e \<Rightarrow> world m w | Inr a \<Rightarrow> world (f a) (world m w))"
  by (simp add: world_def [of "bind m f"] bind_run split: sum.splits)

lemma events_bind: "events (bind m f) w =
    (case result m w of Inl e \<Rightarrow> events m w | Inr a \<Rightarrow> events m w @ events (f a) (world m w))"
  by (simp add: events_def [of "bind m f"] bind_run split: sum.splits)

lemma attempt_simps [simp]:
  "result (attempt m) w = Inr (result m w)" "world (attempt m) w = world m w"
  "events (attempt m) w = events m w"
  by (simp_all add: result_def world_def events_def attempt_def split: prod.splits)

lemma wrap_err_simps [simp]:
  "result (wrap_err g m) w = (case result m w of Inl e \<Rightarrow> Inl (g e) | Inr a \<Rightarrow> Inr a)"
  "world (wrap_err g m) w = world m w" "events (wrap_err g m) w = events m w"
  by (simp_all add: wrap_err_def result_bind world_bind events_bind split: sum.splits)

lemma lift_result_simps [simp]:
  "result (lift_result r) w = r" "world (lift_result r) w = w" "events (lift_result r) w = []"
  by (simp_all add: lift_result_def split: sum.splits)

lemma andthen_run:
  "result (andthen m n) w = (case result m w of Inl e \<Rightarrow> Inl e | Inr _ \<Rightarrow> result n (world m w))"
  "world (andthen m n) w = (case result m w of Inl e \<Rightarrow> world m w | Inr _ \<Rightarrow> world n (world m w))"
  "events (andthen m n) w =
     (case result m w of Inl e \<Rightarrow> events m w | Inr _ \<Rightarrow> events m w @ events n (world m w))"
  by (simp_all add: andthen_def result_bind world_bind events_bind)

lemmas run_simps = result_bind world_bind events_bind andthen_run

text \<open>Membership of a call in a composed program, with the results that led to it.\<close>

lemma in_events_bind: "e \<in> set (events (bind m f) w) \<longleftrightarrow>
    e \<in> set (events m w) \<or> (\<exists>a. result m w = Inr a \<and> e \<in> set (events (f a) (world m w)))"
  by (auto simp: events_bind split: sum.splits)

lemma in_events_andthen: "e \<in> set (events (andthen m n) w) \<longleftrightarrow>
    e \<in> set (events m w) \<or> (result m w = Inr () \<and> e \<in> set (events n (world m w)))"
  by (auto simp: andthen_def in_events_bind)

lemmas in_events = in_events_bind in_events_andthen

lemma bind_Inr: "result (bind m f) w = Inr b \<longleftrightarrow>
    (\<exists>a. result m w = Inr a \<and> result (f a) (world m w) = Inr b)"
  by (auto simp: result_bind split: sum.splits)

lemma andthen_Inr: "result (andthen m n) w = Inr b \<longleftrightarrow>
    result m w = Inr () \<and> result n (world m w) = Inr b"
  by (auto simp: andthen_def bind_Inr)

lemma lift_result_Inr: "result (lift_result r) w = Inr b \<longleftrightarrow> r = Inr b"
  by simp

lemma wrap_err_Inr: "result (wrap_err g m) w = Inr b \<longleftrightarrow> result m w = Inr b"
  by (simp split: sum.splits)

lemmas returns = bind_Inr andthen_Inr wrap_err_Inr

lemma bind_assoc: "bind (bind m f) g = bind m (\<lambda>a. bind (f a) g)"
proof
  show "bind (bind m f) g w = bind m (\<lambda>a. bind (f a) g) w" for w
    by (auto simp: bind_run run_simps split: sum.splits)
qed

lemma for_each_Inr:
  assumes "result (for_each xs f) w = Inr ()" and "x \<in> set xs"
  shows "\<exists>v. result (f x) v = Inr () \<and> set (events (f x) v) \<subseteq> set (events (for_each xs f) w)"
  using assms
proof (induction xs arbitrary: w)
  case (Cons y xs)
  then have y: "result (f y) w = Inr ()" and xs: "result (for_each xs f) (world (f y) w) = Inr ()"
    by (simp_all add: andthen_Inr)
  then have ev: "events (for_each (y # xs) f) w = events (f y) w @ events (for_each xs f) (world (f y) w)"
    by (simp add: andthen_run)
  show ?case
  proof (cases "x = y")
    case True
    with y ev show ?thesis by auto
  next
    case False
    with Cons.IH [OF xs] Cons.prems(2) ev show ?thesis by fastforce
  qed
qed simp

section \<open>Which calls a program makes\<close>

definition emits :: "('e \<Rightarrow> bool) \<Rightarrow> ('e, 'w, 'a) prog \<Rightarrow> bool" where
  "emits P m \<longleftrightarrow> (\<forall>w. \<forall>e \<in> set (events m w). P e)"

lemma emitsD: "emits P m \<Longrightarrow> e \<in> set (events m w) \<Longrightarrow> P e"
  by (simp add: emits_def)

lemma emits_mono: "emits P m \<Longrightarrow> (\<And>e. P e \<Longrightarrow> Q e) \<Longrightarrow> emits Q m"
  by (auto simp: emits_def)

lemma emits_ret [emits_rules]: "emits P (ret a)"
  by (simp add: emits_def)

lemma emits_throw [emits_rules]: "emits P (throw e)"
  by (simp add: emits_def)

lemma emits_lift_result [emits_rules]: "emits P (lift_result r)"
  by (simp add: emits_def)

lemma emits_call [emits_rules]: "(\<And>a. P (ev a)) \<Longrightarrow> emits P (call f ev)"
  by (simp add: emits_def)

lemma emits_bind [emits_rules]: "emits P m \<Longrightarrow> (\<And>a. emits P (f a)) \<Longrightarrow> emits P (bind m f)"
  by (auto simp: emits_def events_bind split: sum.splits)

lemma emits_andthen [emits_rules]: "emits P m \<Longrightarrow> emits P n \<Longrightarrow> emits P (andthen m n)"
  by (simp add: andthen_def emits_bind)

lemma emits_attempt [emits_rules]: "emits P m \<Longrightarrow> emits P (attempt m)"
  by (simp add: emits_def)

lemma emits_wrap_err [emits_rules]: "emits P m \<Longrightarrow> emits P (wrap_err g m)"
  by (simp add: emits_def)

lemma emits_for_each [emits_rules]: "(\<And>x. x \<in> set xs \<Longrightarrow> emits P (f x)) \<Longrightarrow> emits P (for_each xs f)"
  by (induction xs) (auto intro: emits_rules)

lemma emits_if [emits_rules]:
  "(b \<Longrightarrow> emits P m) \<Longrightarrow> (\<not> b \<Longrightarrow> emits P n) \<Longrightarrow> emits P (if b then m else n)"
  by simp

lemma emits_case_option [emits_rules]:
  "emits P m \<Longrightarrow> (\<And>x. emits P (f x)) \<Longrightarrow> emits P (case v of None \<Rightarrow> m | Some x \<Rightarrow> f x)"
  by (cases v) auto

lemma emits_case_sum [emits_rules]:
  "(\<And>x. emits P (f x)) \<Longrightarrow> (\<And>y. emits P (g y)) \<Longrightarrow> emits P (case v of Inl x \<Rightarrow> f x | Inr y \<Rightarrow> g y)"
  by (cases v) auto

lemma emits_case_prod [emits_rules]: "(\<And>x y. emits P (f x y)) \<Longrightarrow> emits P (case v of (x, y) \<Rightarrow> f x y)"
  by (cases v) auto

lemma emits_Let [emits_rules]: "emits P (f v) \<Longrightarrow> emits P (Let v f)"
  by simp

section \<open>Which calls come before others\<close>

text \<open>
  \<open>guarded A B es\<close>: no call of kind \<open>A\<close> is in \<open>es\<close> before the first of kind \<open>B\<close>;
  \<open>ensures B m\<close>: when \<open>m\<close> returns without an error it has made a call of kind \<open>B\<close>.
\<close>

fun guarded :: "('e \<Rightarrow> bool) \<Rightarrow> ('e \<Rightarrow> bool) \<Rightarrow> 'e list \<Rightarrow> bool" where
  "guarded A B [] = True"
| "guarded A B (e # es) = (B e \<or> (\<not> A e \<and> guarded A B es))"

lemma guarded_append:
  "guarded A B (xs @ ys) \<longleftrightarrow> guarded A B xs \<and> ((\<exists>b \<in> set xs. B b) \<or> guarded A B ys)"
  by (induction xs) auto

lemma guarded_before:
  assumes "guarded A B (xs @ e # ys)" and "A e" and "\<not> B e"
  shows "\<exists>b \<in> set xs. B b"
  using assms by (simp add: guarded_append)

lemma guarded_none: "\<forall>e \<in> set es. \<not> A e \<Longrightarrow> guarded A B es"
  by (induction es) auto

definition guards :: "('e \<Rightarrow> bool) \<Rightarrow> ('e \<Rightarrow> bool) \<Rightarrow> ('e, 'w, 'a) prog \<Rightarrow> bool" where
  "guards A B m \<longleftrightarrow> (\<forall>w. guarded A B (events m w))"

definition ensures :: "('e \<Rightarrow> bool) \<Rightarrow> ('e, 'w, 'a) prog \<Rightarrow> bool" where
  "ensures B m \<longleftrightarrow> (\<forall>w a. result m w = Inr a \<longrightarrow> (\<exists>b \<in> set (events m w). B b))"

lemma guards_emits: "emits (\<lambda>e. \<not> A e) m \<Longrightarrow> guards A B m"
  by (auto simp: guards_def emits_def intro: guarded_none)

lemma guards_bind [guarded_rules]:
  "guards A B m \<Longrightarrow> (\<And>a. guards A B (f a)) \<Longrightarrow> guards A B (bind m f)"
  by (auto simp: guards_def events_bind guarded_append split: sum.splits)

lemma guards_andthen [guarded_rules]: "guards A B m \<Longrightarrow> guards A B n \<Longrightarrow> guards A B (andthen m n)"
  by (simp add: andthen_def guards_bind)

lemma guards_bind_ensured: "guards A B m \<Longrightarrow> ensures B m \<Longrightarrow> guards A B (bind m f)"
  by (auto simp: guards_def ensures_def events_bind guarded_append split: sum.splits)

lemma guards_andthen_ensured: "guards A B m \<Longrightarrow> ensures B m \<Longrightarrow> guards A B (andthen m n)"
  by (simp add: andthen_def guards_bind_ensured)

lemma ensures_bind1: "ensures B m \<Longrightarrow> ensures B (bind m f)"
  by (auto simp: ensures_def result_bind events_bind split: sum.splits)

lemma ensures_bind2: "(\<And>a. ensures B (f a)) \<Longrightarrow> ensures B (bind m f)"
  by (fastforce simp: ensures_def result_bind events_bind split: sum.splits)

lemma ensures_wrap_err: "ensures B m \<Longrightarrow> ensures B (wrap_err g m)"
  by (auto simp: ensures_def split: sum.splits)

lemma ensures_throw: "ensures B (throw e)"
  by (simp add: ensures_def)

section \<open>Programs that always return, and programs that only read\<close>

definition succeeds :: "('e, 'w, 'a) prog \<Rightarrow> bool" where
  "succeeds m \<longleftrightarrow> (\<forall>w. \<exists>a. result m w = Inr a)"

definition keeps :: "('e, 'w, 'a) prog \<Rightarrow> bool" where
  "keeps m \<longleftrightarrow> (\<forall>w. world m w = w)"

lemma succeedsD: "succeeds m \<Longrightarrow> \<exists>a. result m w = Inr a"
  by (simp add: succeeds_def)

lemma keepsD: "keeps m \<Longrightarrow> world m w = w"
  by (simp add: keeps_def)

lemma succeeds_basic [total_rules]: "succeeds (ret a)" "succeeds (call f ev)" "succeeds (attempt m)"
  by (simp_all add: succeeds_def)

lemma succeeds_bind [total_rules]: "succeeds m \<Longrightarrow> (\<And>a. succeeds (f a)) \<Longrightarrow> succeeds (bind m f)"
  unfolding succeeds_def by (metis bind_Inr)

lemma succeeds_andthen [total_rules]: "succeeds m \<Longrightarrow> succeeds n \<Longrightarrow> succeeds (andthen m n)"
  by (simp add: andthen_def succeeds_bind)

lemma succeeds_wrap_err [total_rules]: "succeeds m \<Longrightarrow> succeeds (wrap_err g m)"
  unfolding succeeds_def by (metis wrap_err_Inr)

lemma succeeds_lift_result [total_rules]: "\<exists>a. r = Inr a \<Longrightarrow> succeeds (lift_result r)"
  by (auto simp: succeeds_def)

lemma succeeds_cases [total_rules]:
  "succeeds p \<Longrightarrow> succeeds q \<Longrightarrow> succeeds (if b then p else q)"
  "succeeds p \<Longrightarrow> (\<And>x. succeeds (f x)) \<Longrightarrow> succeeds (case v of None \<Rightarrow> p | Some x \<Rightarrow> f x)"
  "(\<And>x y. succeeds (g x y)) \<Longrightarrow> succeeds (case z of (x, y) \<Rightarrow> g x y)"
  by (auto split: option.splits prod.splits)

lemma keeps_basic [total_rules]: "keeps (ret a)" "keeps (throw e)" "keeps (lift_result r)"
  "(\<And>w. snd (f w) = w) \<Longrightarrow> keeps (call f ev)"
  by (simp_all add: keeps_def)

lemma keeps_bind [total_rules]: "keeps m \<Longrightarrow> (\<And>a. keeps (f a)) \<Longrightarrow> keeps (bind m f)"
  by (auto simp: keeps_def world_bind split: sum.splits)

lemma keeps_andthen [total_rules]: "keeps m \<Longrightarrow> keeps n \<Longrightarrow> keeps (andthen m n)"
  by (simp add: andthen_def keeps_bind)

lemma keeps_wrap [total_rules]: "keeps m \<Longrightarrow> keeps (wrap_err g m)" "keeps m \<Longrightarrow> keeps (attempt m)"
  by (simp_all add: keeps_def)

lemma keeps_cases [total_rules]:
  "keeps p \<Longrightarrow> keeps q \<Longrightarrow> keeps (if b then p else q)"
  "keeps p \<Longrightarrow> (\<And>x. keeps (f x)) \<Longrightarrow> keeps (case v of None \<Rightarrow> p | Some x \<Rightarrow> f x)"
  "(\<And>x y. keeps (g x y)) \<Longrightarrow> keeps (case z of (x, y) \<Rightarrow> g x y)"
  "(\<And>x. keeps (h x)) \<Longrightarrow> (\<And>y. keeps (i y)) \<Longrightarrow> keeps (case u of Inl x \<Rightarrow> h x | Inr y \<Rightarrow> i y)"
  by (auto split: option.splits prod.splits sum.splits)

section \<open>What a program does after a failed call\<close>

text \<open>
  \<open>stops F W m\<close>: once a call of kind \<open>F\<close> (a failed one) is made, \<open>m\<close> makes no call of kind \<open>W\<close> any more and
  returns an error that is not a request to wait.
\<close>

fun quiet_after :: "('e \<Rightarrow> bool) \<Rightarrow> ('e \<Rightarrow> bool) \<Rightarrow> 'e list \<Rightarrow> bool" where
  "quiet_after F W [] = True"
| "quiet_after F W (e # es) = ((\<not> F e \<or> (\<forall>x \<in> set es. \<not> W x)) \<and> quiet_after F W es)"

lemma quiet_after_append:
  "quiet_after F W (xs @ ys) \<longleftrightarrow>
     quiet_after F W xs \<and> quiet_after F W ys \<and> ((\<exists>x \<in> set xs. F x) \<longrightarrow> (\<forall>y \<in> set ys. \<not> W y))"
  by (induction xs) auto

lemma quiet_after_none: "\<forall>e \<in> set es. \<not> F e \<Longrightarrow> quiet_after F W es"
  by (induction es) auto

lemma quiet_afterD: "quiet_after F W (xs @ e # ys) \<Longrightarrow> F e \<Longrightarrow> y \<in> set ys \<Longrightarrow> \<not> W y"
  by (auto simp: quiet_after_append)

definition stops :: "('e \<Rightarrow> bool) \<Rightarrow> ('e \<Rightarrow> bool) \<Rightarrow> ('e, 'w, 'a) prog \<Rightarrow> bool" where
  "stops F W m \<longleftrightarrow> (\<forall>w. quiet_after F W (events m w) \<and>
     ((\<exists>e \<in> set (events m w). F e) \<longrightarrow> (\<exists>err. result m w = Inl err \<and> \<not> is_wait err)))"

lemma stopsI:
  assumes "\<And>w. quiet_after F W (events m w)"
    and "\<And>w e. e \<in> set (events m w) \<Longrightarrow> F e \<Longrightarrow> \<exists>err. result m w = Inl err \<and> \<not> is_wait err"
  shows "stops F W m"
  using assms by (auto simp: stops_def)

lemma stopsD:
  assumes "stops F W m"
  shows "quiet_after F W (events m w)"
    and "e \<in> set (events m w) \<Longrightarrow> F e \<Longrightarrow> \<exists>err. result m w = Inl err \<and> \<not> is_wait err"
  using assms by (auto simp: stops_def)

lemma stops_returned: "stops F W m \<Longrightarrow> result m w = Inr a \<Longrightarrow> e \<in> set (events m w) \<Longrightarrow> \<not> F e"
  by (force simp: stops_def)

lemma stops_quiet: "emits (\<lambda>e. \<not> F e) m \<Longrightarrow> stops F W m"
  by (auto simp: stops_def emits_def intro: quiet_after_none)

lemma stops_bind [stops_rules]:
  assumes m: "stops F W m" and f: "\<And>a. stops F W (f a)"
  shows "stops F W (bind m f)"
proof (rule stopsI)
  fix w
  show "quiet_after F W (events (bind m f) w)"
    using stopsD(1) [OF m] stopsD(1) [OF f] stops_returned [OF m]
    by (auto simp: events_bind quiet_after_append split: sum.splits)
  fix e assume "e \<in> set (events (bind m f) w)" and "F e"
  then show "\<exists>err. result (bind m f) w = Inl err \<and> \<not> is_wait err"
    using stopsD(2) [OF m] stopsD(2) [OF f] stops_returned [OF m]
    by (cases "result m w") (force simp: run_simps)+
qed

lemma stops_andthen [stops_rules]: "stops F W m \<Longrightarrow> stops F W n \<Longrightarrow> stops F W (andthen m n)"
  by (simp add: andthen_def stops_bind)

lemma stops_basic [stops_rules]: "stops F W (ret a)" "stops F W (throw e)" "stops F W (lift_result r)"
  by (simp_all add: stops_def)

lemma stops_call [stops_rules]:
  "(\<And>a. \<not> F (ev a)) \<Longrightarrow> stops F W (call f ev)"
  by (simp add: stops_def)

text \<open>A call whose failures the continuation turns into an error.\<close>

lemma stops_bind_call:
  assumes "\<And>a. F (ev a) \<Longrightarrow> \<exists>e. k a = throw e \<and> \<not> is_wait e" and "\<And>a. \<not> F (ev a) \<Longrightarrow> stops F W (k a)"
  shows "stops F W (bind (call f ev) k)"
  unfolding stops_def
proof
  fix w
  show "quiet_after F W (events (bind (call f ev) k) w) \<and>
    ((\<exists>e \<in> set (events (bind (call f ev) k) w). F e) \<longrightarrow>
       (\<exists>err. result (bind (call f ev) k) w = Inl err \<and> \<not> is_wait err))"
  proof (cases "F (ev (fst (f w)))")
    case True
    with assms(1) obtain e where "k (fst (f w)) = throw e" "\<not> is_wait e" by blast
    then show ?thesis by (simp add: run_simps)
  next
    case False
    with assms(2) show ?thesis by (simp add: stops_def run_simps)
  qed
qed

lemma stops_wrap_err [stops_rules]:
  "stops F W m \<Longrightarrow> (\<And>e. \<not> is_wait (g e)) \<Longrightarrow> stops F W (wrap_err g m)"
  by (fastforce simp: stops_def)

lemma stops_for_each [stops_rules]: "(\<And>x. x \<in> set xs \<Longrightarrow> stops F W (f x)) \<Longrightarrow> stops F W (for_each xs f)"
  by (induction xs) (auto intro: stops_rules)

lemma stops_cases [stops_rules]:
  "(b \<Longrightarrow> stops F W m) \<Longrightarrow> (\<not> b \<Longrightarrow> stops F W n) \<Longrightarrow> stops F W (if b then m else n)"
  "stops F W m \<Longrightarrow> (\<And>x. stops F W (p x)) \<Longrightarrow> stops F W (case v of None \<Rightarrow> m | Some x \<Rightarrow> p x)"
  "(\<And>x. stops F W (q x)) \<Longrightarrow> (\<And>y. stops F W (r y)) \<Longrightarrow> stops F W (case u of Inl x \<Rightarrow> q x | Inr y \<Rightarrow> r y)"
  "(\<And>x y. stops F W (s x y)) \<Longrightarrow> stops F W (case z of (x, y) \<Rightarrow> s x y)"
  by (auto split: option.splits sum.splits prod.splits)

lemma stops_Let [stops_rules]: "stops F W (f v) \<Longrightarrow> stops F W (Let v f)"
  by simp

text \<open>A program whose error is returned only after another program has run.\<close>

lemma stops_attempt_finally:
  assumes m: "stops F W m" and n: "stops F W n" and quiet: "emits (\<lambda>e. \<not> W e) n"
    and nowait: "\<And>w e. result n w = Inl e \<Longrightarrow> \<not> is_wait e"
  shows "stops F W (bind (attempt m) (\<lambda>r. andthen n (lift_result r)))"
proof (rule stopsI)
  fix w
  let ?p = "bind (attempt m) (\<lambda>r. andthen n (lift_result r))" and ?v = "world m w"
  have ev: "events ?p w = events m w @ events n ?v"
    and res: "result ?p w = (case result n ?v of Inl e \<Rightarrow> Inl e | Inr _ \<Rightarrow> result m w)"
    by (simp_all add: run_simps split: sum.splits)
  show "quiet_after F W (events ?p w)"
    unfolding ev using stopsD(1) [OF m] stopsD(1) [OF n] quiet
    by (auto simp: emits_def quiet_after_append)
  fix e assume "e \<in> set (events ?p w)" and "F e"
  then show "\<exists>err. result ?p w = Inl err \<and> \<not> is_wait err"
    unfolding ev res using stopsD(2) [OF m] stops_returned [OF n] nowait
    by (cases "result n ?v") auto
qed

section \<open>Programs whose calls decide whether they return\<close>

text \<open>\<open>decided F m\<close>: \<open>m\<close> returns without an error exactly when it makes no call of kind \<open>F\<close>.\<close>

definition decided :: "('e \<Rightarrow> bool) \<Rightarrow> ('e, 'w, 'a) prog \<Rightarrow> bool" where
  "decided F m \<longleftrightarrow> (\<forall>w. (\<exists>a. result m w = Inr a) \<longleftrightarrow> (\<forall>e \<in> set (events m w). \<not> F e))"

lemma decided_ret [decided_rules]: "decided F (ret a)"
  by (simp add: decided_def)

lemma decided_bind [decided_rules]:
  assumes m: "decided F m" and f: "\<And>a. decided F (f a)"
  shows "decided F (bind m f)"
  unfolding decided_def
proof
  fix w
  show "(\<exists>b. result (bind m f) w = Inr b) \<longleftrightarrow> (\<forall>e \<in> set (events (bind m f) w). \<not> F e)"
  proof (cases "result m w")
    case (Inl e)
    with m have "\<exists>e \<in> set (events m w). F e" by (force simp: decided_def)
    with Inl show ?thesis by (auto simp: run_simps)
  next
    case (Inr a)
    with m have "\<forall>e \<in> set (events m w). \<not> F e" by (force simp: decided_def)
    with Inr f [of a] show ?thesis by (auto simp: run_simps decided_def)
  qed
qed

lemma decided_andthen [decided_rules]: "decided F m \<Longrightarrow> decided F n \<Longrightarrow> decided F (andthen m n)"
  by (simp add: andthen_def decided_bind)

lemma decided_for_each [decided_rules]: "(\<And>x. x \<in> set xs \<Longrightarrow> decided F (f x)) \<Longrightarrow> decided F (for_each xs f)"
  by (induction xs) (auto intro: decided_rules)

lemma decided_cases [decided_rules]:
  "(b \<Longrightarrow> decided F m) \<Longrightarrow> (\<not> b \<Longrightarrow> decided F n) \<Longrightarrow> decided F (if b then m else n)"
  "decided F m \<Longrightarrow> (\<And>x. decided F (p x)) \<Longrightarrow> decided F (case v of None \<Rightarrow> m | Some x \<Rightarrow> p x)"
  by (auto split: option.splits)

lemma decided_bind_call:
  assumes "\<And>a. F (ev a) \<Longrightarrow> \<exists>e. k a = throw e" and "\<And>a. \<not> F (ev a) \<Longrightarrow> decided F (k a)"
  shows "decided F (bind (call f ev) k)"
  unfolding decided_def
proof
  fix w
  show "(\<exists>b. result (bind (call f ev) k) w = Inr b) \<longleftrightarrow> (\<forall>e \<in> set (events (bind (call f ev) k) w). \<not> F e)"
  proof (cases "F (ev (fst (f w)))")
    case True
    with assms(1) obtain e where "k (fst (f w)) = throw e" by blast
    with True show ?thesis by (simp add: run_simps)
  next
    case False
    with assms(2) show ?thesis by (simp add: decided_def run_simps)
  qed
qed

end
