(* ===== verification/Constants.thy ===== *)
theory Constants
  imports Main
begin

text \<open>
  The shared constants of \<^verbatim>\<open>internal/common/spec.go\<close>, under their source names. The named
  collection \<open>constants\<close> unfolds them.
\<close>

named_theorems constants \<open>values of the provider's constants\<close>

definition ProviderName :: string where [constants]: "ProviderName = ''altinity-clickhouse''"

definition ComponentEngine :: string where [constants]: "ComponentEngine = ''engine''"

definition ComponentTypeClickHouse :: string where [constants]: "ComponentTypeClickHouse = ''clickhouse''"

definition ComponentKeeper :: string where [constants]: "ComponentKeeper = ''keeper''"

definition KeeperDefaultCPU :: string where [constants]: "KeeperDefaultCPU = ''500m''"

definition KeeperDefaultMemory :: string where [constants]: "KeeperDefaultMemory = ''1Gi''"

definition KeeperDefaultStorage :: string where [constants]: "KeeperDefaultStorage = ''10Gi''"

definition TopologyStandalone :: string where [constants]: "TopologyStandalone = ''standalone''"

definition TopologyReplicated :: string where [constants]: "TopologyReplicated = ''replicated''"

definition CHIClusterName :: string where [constants]: "CHIClusterName = ''clickhouse''"

definition CHKClusterName :: string where [constants]: "CHKClusterName = ''keeper''"

definition KeeperReplicas :: int where [constants]: "KeeperReplicas = 3"

definition DefaultReplicasCount :: int where [constants]: "DefaultReplicasCount = 2"

definition PodTemplateName :: string where [constants]: "PodTemplateName = ''default''"

definition KeeperPodTemplateName :: string where [constants]: "KeeperPodTemplateName = ''keeper-default''"

definition DataVolumeClaimTemplateName :: string where [constants]: "DataVolumeClaimTemplateName = ''data''"

definition ServiceTemplateName :: string where [constants]: "ServiceTemplateName = ''svc-template''"

definition KeeperDataVolumeClaimTemplateName :: string where [constants]: "KeeperDataVolumeClaimTemplateName = ''keeper-data''"

definition MetricsPortName :: string where [constants]: "MetricsPortName = ''metrics''"

definition MetricsPort :: int where [constants]: "MetricsPort = 9363"

definition MetricsPath :: string where [constants]: "MetricsPath = ''/metrics''"

definition LabelCHIName :: string where [constants]: "LabelCHIName = ''clickhouse.altinity.com/chi''"

definition LabelCHKName :: string where [constants]: "LabelCHKName = ''clickhouse-keeper.altinity.com/chk''"

definition LabelCHIReclaimPolicy :: string where [constants]: "LabelCHIReclaimPolicy = ''clickhouse.altinity.com/reclaimPolicy''"

definition LabelCHKReclaimPolicy :: string where [constants]: "LabelCHKReclaimPolicy = ''clickhouse-keeper.altinity.com/reclaimPolicy''"

definition StorageReclaimPolicyRetain :: string where [constants]: "StorageReclaimPolicyRetain = ''Retain''"

definition StorageReclaimPolicyDelete :: string where [constants]: "StorageReclaimPolicyDelete = ''Delete''"

definition AntiAffinityHostnameWeight :: int where [constants]: "AntiAffinityHostnameWeight = 100"

definition AntiAffinityZoneWeight :: int where [constants]: "AntiAffinityZoneWeight = 50"

definition PodMonitorEnabled :: string where [constants]: "PodMonitorEnabled = ''enabled''"

definition PodMonitorDisabled :: string where [constants]: "PodMonitorDisabled = ''disabled''"

definition TLSEnabled :: string where [constants]: "TLSEnabled = ''enabled''"

definition TLSDisabled :: string where [constants]: "TLSDisabled = ''disabled''"

definition TLSModeRequired :: string where [constants]: "TLSModeRequired = ''required''"

definition TLSModeOptional :: string where [constants]: "TLSModeOptional = ''optional''"

definition AppUserName :: string where [constants]: "AppUserName = ''admin''"

definition RolloutStateSuffix :: string where [constants]: "RolloutStateSuffix = ''-provider-state''"

definition CredentialsSecretSuffix :: string where [constants]: "CredentialsSecretSuffix = ''-credentials''"

definition CredentialsKeyUsername :: string where [constants]: "CredentialsKeyUsername = ''username''"

definition CredentialsKeyPassword :: string where [constants]: "CredentialsKeyPassword = ''password''"

definition CredentialsKeyPasswordSHA256 :: string where [constants]: "CredentialsKeyPasswordSHA256 = ''password_sha256_hex''"

definition AppUserPasswordBytes :: int where [constants]: "AppUserPasswordBytes = 24"

definition CredentialsKeyDefaultPassword :: string where [constants]: "CredentialsKeyDefaultPassword = ''default_password''"

definition CredentialsKeyDefaultPasswordSHA256 :: string where [constants]: "CredentialsKeyDefaultPasswordSHA256 = ''default_password_sha256_hex''"

definition CredentialsKeyInterserverPassword :: string where [constants]: "CredentialsKeyInterserverPassword = ''interserver_password''"

definition CredentialsKeyClusterSecret :: string where [constants]: "CredentialsKeyClusterSecret = ''cluster_secret''"

definition CredentialsKeyRevision :: string where [constants]: "CredentialsKeyRevision = ''revision''"

definition CredentialsKeyUserRevision :: string where [constants]: "CredentialsKeyUserRevision = ''user_revision''"

definition CredentialsKeyAppliedUsername :: string where [constants]: "CredentialsKeyAppliedUsername = ''applied_username''"

definition InterserverUser :: string where [constants]: "InterserverUser = ''interserver''"

definition MinPasswordLength :: int where [constants]: "MinPasswordLength = 12"

definition AnnotationCredentialsRevision :: string where [constants]: "AnnotationCredentialsRevision = ''openeverest.io/credentials-revision''"

definition HTTPPort :: int where [constants]: "HTTPPort = 8123"

definition HTTPSPort :: int where [constants]: "HTTPSPort = 8443"

definition TCPSecurePort :: int where [constants]: "TCPSecurePort = 9440"

definition TCPPort :: int where [constants]: "TCPPort = 9000"

definition InterserverHTTPPort :: int where [constants]: "InterserverHTTPPort = 9009"

definition InterserverHTTPSPort :: int where [constants]: "InterserverHTTPSPort = 9010"

definition KeeperPort :: int where [constants]: "KeeperPort = 2181"

definition KeeperSecurePort :: int where [constants]: "KeeperSecurePort = 2281"

definition KeeperRaftPort :: int where [constants]: "KeeperRaftPort = 9444"

definition PlaintextPolicySuffix :: string where [constants]: "PlaintextPolicySuffix = ''-plaintext''"

definition KeeperPolicySuffix :: string where [constants]: "KeeperPolicySuffix = ''-keeper-access''"

definition ConnectionKeyCACert :: string where [constants]: "ConnectionKeyCACert = ''ca.crt''"

definition ConnectionKeyInternalHost :: string where [constants]: "ConnectionKeyInternalHost = ''internal_host''"

definition ConnectionKeyHTTPPort :: string where [constants]: "ConnectionKeyHTTPPort = ''http_port''"

definition ConnectionKeyHTTPSPort :: string where [constants]: "ConnectionKeyHTTPSPort = ''https_port''"

definition ConnectionKeyNativePort :: string where [constants]: "ConnectionKeyNativePort = ''native_port''"

definition ConnectionKeyNativeSecurePort :: string where [constants]: "ConnectionKeyNativeSecurePort = ''native_secure_port''"

definition ConnectionKeyNodePortSuffix :: string where [constants]: "ConnectionKeyNodePortSuffix = ''_node_port''"

definition EnvOperatorNamespace :: string where [constants]: "EnvOperatorNamespace = ''CLICKHOUSE_OPERATOR_NAMESPACE''"

definition EnvOperatorPodLabels :: string where [constants]: "EnvOperatorPodLabels = ''CLICKHOUSE_OPERATOR_POD_LABELS''"

definition DefaultOperatorPodLabels :: string where [constants]: "DefaultOperatorPodLabels = ''app.kubernetes.io/name=operator''"

definition SelfSignedIssuerSuffix :: string where [constants]: "SelfSignedIssuerSuffix = ''-selfsign''"

definition CAIssuerSuffix :: string where [constants]: "CAIssuerSuffix = ''-ca''"

definition CACertSecretSuffix :: string where [constants]: "CACertSecretSuffix = ''-ca-tls''"

definition ServerCertSuffix :: string where [constants]: "ServerCertSuffix = ''-server''"

definition ServerCertSecretSuffix :: string where [constants]: "ServerCertSecretSuffix = ''-server-tls''"

end
