(* ===== verification/Objects.thy ===== *)
theory Objects
  imports Prelude
begin

text \<open>
  The data the provider reads and writes: the Instance with its components and parameters
  (\<^verbatim>\<open>definition/components/types.go\<close>), the operator's ClickHouseInstallation (CHI) and
  ClickHouseKeeperInstallation (CHK), and the Kubernetes, cert-manager and Prometheus objects
  it manages. The types of other modules are reduced to the fields the program touches. A Go
  pointer that may be nil is an \<open>option\<close>; a map of strings is an association list. Values that
  are only passed through are kept as their JSON text (\<open>json\<close>). A name given to an object by
  \<^verbatim>\<open>c.ObjectMeta(name)\<close> stands for its metadata. The type variable \<open>'s\<close> is the operator
  library's \<^verbatim>\<open>Settings\<close> type.
\<close>

type_synonym json = string

text \<open>
  \<^verbatim>\<open>resource.Quantity\<close>: its documentation fixes the precision at three decimal places, so a
  quantity is a whole number of thousandths. \<^verbatim>\<open>Cmp\<close> is the order of \<^typ>\<open>int\<close> and \<^verbatim>\<open>IsZero\<close> is
  equality with 0.
\<close>

type_synonym quantity = int

section \<open>The Instance\<close>

record resources =
  limits :: "quantity table"
  requests :: "quantity table"

record storage_spec =
  storage_size :: quantity
  storage_class :: "string option"

record service_spec =
  service_type :: string
  service_annotations :: labels
  source_ranges :: "string list option"

record weighted_term =
  term_weight :: int
  term_labels :: labels
  term_topology_key :: string
  term_rest :: json

record pod_anti_affinity =
  anti_preferred :: "weighted_term list"
  anti_required :: json

record affinity =
  node_affinity :: "json option"
  pod_affinity :: "json option"
  pod_anti :: "pod_anti_affinity option"

record scheduling_policy =
  pol_scheduler_name :: string
  pol_node_selector :: labels
  pol_tolerations :: "json list"
  pol_affinity :: "affinity option"
  pol_spread :: json

record component_spec =
  comp_image :: string
  comp_version :: string
  comp_replicas :: "int option"
  comp_resources :: "resources option"
  comp_storage :: "storage_spec option"
  comp_service :: "service_spec option"
  comp_scheduling :: "scheduling_policy option"
  comp_parameters :: json

definition zero_component :: component_spec where
  "zero_component = \<lparr>comp_image = [], comp_version = [], comp_replicas = None, comp_resources = None,
     comp_storage = None, comp_service = None, comp_scheduling = None, comp_parameters = []\<rparr>"

text \<open>The engine component's parameters.\<close>

record issuer_ref =
  ref_name :: string
  ref_kind :: string
  ref_group :: string

record tls_parameters =
  tls_enabled_value :: string
  tls_mode_value :: string
  tls_issuer_ref :: "issuer_ref option"

record clickhouse_parameters =
  par_configuration :: string
  par_pod_monitor :: string
  par_tls :: "tls_parameters option"
  par_reclaim_policy :: string

text \<open>
  The Instance: what the provider is handed to reconcile and, with the version bundle not
  filled in, what is stored in the cluster.
\<close>

datatype phase = Provisioning | Updating | Failed | Ready | OtherPhase string

record condition =
  cond_type :: string
  cond_status :: bool
  cond_reason :: string
  cond_message :: string
  cond_generation :: int

text \<open>The kinds of maintenance, by the name of the runtime's constants.\<close>

datatype maintenance_kind = MaintenanceRollingRestart | OtherMaintenance string

record pending_action =
  pending_token :: string
  pending_description :: string
  pending_severity :: maintenance_kind

record instance_rec =
  inst_topology_type :: string
  inst_version :: string
  inst_topology :: json
  inst_parameters :: json
  inst_components :: "component_spec table"
  inst_user_secret_ref :: "string option"
  inst_generation :: int
  inst_phase :: phase
  inst_message :: string
  inst_pending :: "pending_action list"
  inst_conditions :: "condition list"

type_synonym inst = instance_rec

section \<open>ClickHouseInstallation and ClickHouseKeeperInstallation\<close>

text \<open>A value of the operator's settings: a scalar, a vector, or a reference to a Secret key.\<close>

datatype setting = Scalar string | Vector "string list" | FromSecret string string

record container_port =
  cport_name :: string
  cport_number :: int
  cport_protocol :: string

record container =
  ctr_name :: string
  ctr_image :: string
  ctr_ports :: "container_port list"
  ctr_resources :: resources

record pod_spec =
  pod_containers :: "container list"
  pod_spread :: json
  pod_affinity_rules :: "affinity option"
  pod_scheduler_name :: string
  pod_node_selector :: labels
  pod_tolerations :: "json list"

record pod_template =
  pt_name :: string
  pt_labels :: labels
  pt_annotations :: labels
  pt_spec :: pod_spec

record volume_claim_template =
  vct_name :: string
  vct_reclaim_policy :: string
  vct_access_modes :: "string list"
  vct_storage_request :: "quantity option"
  vct_storage_class :: "string option"

record service_port =
  sport_name :: string
  sport_protocol :: string
  sport_number :: int
  sport_target :: string

record service_template =
  st_name :: string
  st_annotations :: labels
  st_type :: string
  st_cluster_ip :: string
  st_ports :: "service_port list"
  st_source_ranges :: "string list"

record templates =
  pod_templates :: "pod_template list"
  volume_claim_templates :: "volume_claim_template list"
  service_templates :: "service_template list"

definition no_templates :: templates where
  "no_templates = \<lparr>pod_templates = [], volume_claim_templates = [], service_templates = []\<rparr>"

record templates_list =
  tl_pod_template :: string
  tl_data_volume_claim_template :: string
  tl_service_template :: string

definition no_templates_list :: templates_list where
  "no_templates_list = \<lparr>tl_pod_template = [], tl_data_volume_claim_template = [], tl_service_template = []\<rparr>"

text \<open>\<^verbatim>\<open>StringBool\<close> pointers are read through \<^verbatim>\<open>Value()\<close>.\<close>

record chi_cluster =
  cc_name :: string
  cc_shards :: int
  cc_replicas :: int
  cc_templates :: templates_list
  cc_secure :: "bool option"
  cc_secret :: "(string \<times> string) option"

record chk_cluster =
  kc_name :: string
  kc_replicas :: int
  kc_templates :: templates_list
  kc_secure :: "bool option"
  kc_insecure :: "bool option"

record zookeeper_node =
  node_host :: string
  node_port :: "int option"
  node_secure :: "bool option"

record zookeeper_config =
  zk_session_timeout :: int
  zk_operation_timeout :: int
  zk_keeper :: "string option"
  zk_nodes :: "zookeeper_node list"

record 's chi_configuration =
  chi_clusters :: "chi_cluster list"
  chi_users :: "'s option"
  chi_settings :: "'s option"
  chi_files :: "'s option"
  chi_zookeeper :: "zookeeper_config option"

record 's chk_configuration =
  chk_clusters :: "chk_cluster list"
  chk_files :: "'s option"

text \<open>
  A task ID is read through \<^verbatim>\<open>HasValue()\<close> and \<^verbatim>\<open>Value()\<close>: \<open>None\<close> is a pointer without a
  value. \<open>chi_defaults\<close> is \<^verbatim>\<open>spec.defaults\<close> with its optional template list.
\<close>

record 's chi_spec =
  chi_task_id :: "string option"
  chi_configuration :: "'s chi_configuration option"
  chi_templates :: "templates option"
  chi_defaults :: "templates_list option option"

record 's chk_spec =
  chk_task_id :: "string option"
  chk_configuration :: "'s chk_configuration option"
  chk_templates :: "templates option"

text \<open>The operator's states; the zero value of a status string is \<open>StOther ''''\<close>.\<close>

datatype op_state = StCompleted | StAborted | StInProgress | StOther string

record op_status =
  os_state :: op_state
  os_error :: string
  os_task_ids_completed :: "string list"
  os_hosts :: int
  os_hosts_completed :: int
  os_endpoint :: string

record 's chi =
  chi_name :: string
  chi_spec_of :: "'s chi_spec"
  chi_status :: "op_status option"

record 's chk =
  chk_name :: string
  chk_spec_of :: "'s chk_spec"
  chk_status :: "op_status option"

section \<open>Other objects\<close>

record secret =
  secret_name :: string
  secret_data :: labels

record certificate =
  cert_name :: string
  cert_is_ca :: bool
  cert_duration_hours :: "int option"
  cert_common_name :: string
  cert_secret_name :: string
  cert_dns_names :: "string list"
  cert_ip_addresses :: "string list"
  cert_issuer :: issuer_ref

datatype issuer_config = SelfSigned | CAIssuer string

record issuer =
  iss_name :: string
  iss_config :: issuer_config

record network_peer =
  peer_namespace_labels :: "labels option"
  peer_pod_labels :: "labels option"

record network_rule =
  rule_from :: "network_peer list"
  rule_ports :: "(string \<times> int) list"

record network_policy =
  np_name :: string
  np_pod_selector :: labels
  np_policy_types :: "string list"
  np_ingress :: "network_rule list"

record pod_monitor =
  pm_name :: string
  pm_selector :: labels
  pm_endpoints :: "(string \<times> string) list"

record lb_ingress =
  ing_hostname :: string
  ing_ip :: string
  ing_rest :: json

record service =
  svc_name :: string
  svc_namespace :: string
  svc_labels :: labels
  svc_type :: string
  svc_ports :: "(int \<times> int) list"
  svc_lb_ingress :: "lb_ingress list"

record pvc =
  pvc_name :: string
  pvc_labels :: labels
  pvc_storage_class :: "string option"

text \<open>A pod is its volumes; \<open>Some s\<close> is a volume of the Secret \<open>s\<close>.\<close>

record pod =
  pod_secret_volumes :: "string option list"

record storage_class_obj =
  allow_volume_expansion :: "bool option"

text \<open>The objects the provider applies, and the kinds it names in other calls.\<close>

datatype 's obj =
    OCHI "'s chi"
  | OCHK "'s chk"
  | OSecret secret
  | OCertificate certificate
  | OIssuer issuer
  | OPolicy network_policy
  | OPodMonitor pod_monitor

datatype kind = KCHI | KCHK | KSecret | KCertificate | KIssuer | KPolicy | KPodMonitor | KPVC | KPod

text \<open>One operation of a JSON patch.\<close>

datatype patch_op = PatchTest string string | PatchAdd string string

end
