(* ===== verification/Runtime.thy ===== *)
theory Runtime
  imports Effects Constants Objects
begin

text \<open>
  The reconcile context \<^verbatim>\<open>c *controller.Context\<close> as a record, and the calls through it.
  Everything the provider gets from other modules is a field: the Instance and the runtime's
  functions on it, the operator library's \<^verbatim>\<open>Settings\<close>, hashing, serialisation and
  version parsing, the environment, and one operation on the world per API call. Nothing is
  assumed of the fields here; a property that relies on documented behaviour of one names it
  as a hypothesis. World operations may do anything to the world, so other actors (the
  operator, users) can act between any two calls.
\<close>

section \<open>Library interfaces\<close>

text \<open>The operator library's \<^verbatim>\<open>Settings\<close>: constructor, updates, queries and the YAML decoder.\<close>

record 's settings_lib =
  new_settings :: 's
  set_setting :: "string \<Rightarrow> setting \<Rightarrow> 's \<Rightarrow> 's"
  set_if_not_exists :: "string \<Rightarrow> setting \<Rightarrow> 's \<Rightarrow> 's"
  get_setting :: "'s \<Rightarrow> string \<Rightarrow> setting option"
  setting_names :: "'s \<Rightarrow> string list"
  parse_settings :: "string \<Rightarrow> 's option"

definition has_setting :: "'s settings_lib \<Rightarrow> 's \<Rightarrow> string \<Rightarrow> bool" where
  "has_setting L s k = (get_setting L s k \<noteq> None)"

text \<open>The documented behaviour of \<^verbatim>\<open>Settings\<close> as a store of named values.\<close>

definition settings_laws :: "'s settings_lib \<Rightarrow> bool" where
  "settings_laws L \<longleftrightarrow>
     (\<forall>k. get_setting L (new_settings L) k = None) \<and>
     (\<forall>k v s k'. get_setting L (set_setting L k v s) k' = (if k' = k then Some v else get_setting L s k')) \<and>
     (\<forall>k v s k'. get_setting L (set_if_not_exists L k v s) k' =
        (if k' = k \<and> get_setting L s k = None then Some v else get_setting L s k'))"

text \<open>Reading back a list of distinct settings.\<close>

lemma get_fold_settings:
  assumes "settings_laws L" and "distinct (map fst kvs)"
  shows "get_setting L (fold (\<lambda>(k, v). set_setting L k v) kvs s) k =
           (case map_of kvs k of Some v \<Rightarrow> Some v | None \<Rightarrow> get_setting L s k)"
  using assms(2)
proof (induction kvs arbitrary: s)
  case (Cons kv kvs)
  obtain k' v' where kv: "kv = (k', v')" by (cases kv)
  with Cons.prems have "map_of kvs k' = None" by (simp add: map_of_eq_None_iff)
  with Cons kv assms(1) show ?case by (auto simp: settings_laws_def split: option.splits)
qed simp

text \<open>Names and numbers of the operator's default ClickHouse ports.\<close>

record operator_ports =
  http_name :: string
  http_number :: int
  tcp_name :: string
  tcp_number :: int
  https_name :: string
  https_number :: int
  tls_name :: string
  tls_number :: int

text \<open>A parsed version: its original text and its numeric segments.\<close>

record version =
  ver_original :: string
  ver_segments :: "int list"

text \<open>
  The Provider spec through the runtime's functions on it: the release version (empty when
  unset), the effective bundle name for the Instance, the component versions a bundle
  pins, and the images.
\<close>

record provider_spec =
  release_version :: string
  bundle_name :: string
  bundle_versions :: "string \<Rightarrow> labels option"
  image_for_version :: "string \<Rightarrow> string \<Rightarrow> string"
  default_image :: "string \<Rightarrow> string"

text \<open>The runtime's names for the maintenance condition and its reasons.\<close>

record maintenance_names =
  condition_maintenance_pending :: string
  reason_awaiting_approval :: string
  reason_no_actions_pending :: string

section \<open>The reconcile context\<close>

record ('s, 'w) ctx =
  ctx_name :: string
  ctx_namespace :: string
  ctx_instance :: inst
  decode_parameters :: "component_spec \<Rightarrow> bool \<times> clickhouse_parameters"
  pod_labels_of :: "string \<Rightarrow> labels"
  provider_spec_of :: "err + provider_spec"
  spread_constraints :: "scheduling_policy option \<Rightarrow> labels \<Rightarrow> json"
  settings_lib_of :: "'s settings_lib"
  operator_ports_of :: operator_ports
  must_parse :: "string \<Rightarrow> quantity"
  parse_version :: "string \<Rightarrow> version option"
  normalized_ranges :: "string list \<Rightarrow> string list"
  selector_labels :: "string \<Rightarrow> labels option"
  sha256 :: "string \<Rightarrow> string"
  chi_spec_json :: "'s chi_spec \<Rightarrow> err + string"
  chk_spec_json :: "'s chk_spec \<Rightarrow> err + string"
  inputs_json :: "string \<times> json \<times> json \<times> component_spec table \<times> string \<Rightarrow> err + string"
  set_condition :: "condition \<Rightarrow> condition list \<Rightarrow> bool \<times> condition list"
  same_pending :: "pending_action list \<Rightarrow> pending_action list \<Rightarrow> bool"
  maintenance_names_of :: maintenance_names
  to_instance_status :: "phase \<times> string \<Rightarrow> phase \<times> string"
  getenv :: "string \<Rightarrow> string"
  namespace_file :: "string option"
  api_get_chi :: "string \<Rightarrow> 'w \<Rightarrow> (api_error + 's chi) \<times> 'w"
  api_get_chk :: "string \<Rightarrow> 'w \<Rightarrow> (api_error + 's chk) \<times> 'w"
  api_get_secret :: "string \<Rightarrow> 'w \<Rightarrow> (api_error + secret) \<times> 'w"
  api_get_service :: "string \<Rightarrow> 'w \<Rightarrow> (api_error + service) \<times> 'w"
  api_get_policy :: "string \<Rightarrow> 'w \<Rightarrow> (api_error + network_policy) \<times> 'w"
  api_get_instance :: "string \<Rightarrow> 'w \<Rightarrow> (api_error + inst) \<times> 'w"
  api_get_storage_class :: "string \<Rightarrow> 'w \<Rightarrow> (api_error + storage_class_obj) \<times> 'w"
  api_exists :: "kind \<Rightarrow> string \<Rightarrow> 'w \<Rightarrow> (api_error + bool) \<times> 'w"
  api_list_pvcs :: "string \<times> string \<Rightarrow> 'w \<Rightarrow> (api_error + pvc list) \<times> 'w"
  api_list_pods :: "string \<times> string \<Rightarrow> 'w \<Rightarrow> (api_error + pod list) \<times> 'w"
  api_apply :: "'s obj \<Rightarrow> 'w \<Rightarrow> api_error option \<times> 'w"
  api_delete :: "kind \<Rightarrow> string \<Rightarrow> 'w \<Rightarrow> api_error option \<times> 'w"
  api_json_patch :: "kind \<Rightarrow> string \<Rightarrow> patch_op list \<Rightarrow> 'w \<Rightarrow> api_error option \<times> 'w"
  api_label_pvc :: "string \<Rightarrow> string \<Rightarrow> string \<Rightarrow> 'w \<Rightarrow> api_error option \<times> 'w"
  api_update_status :: "inst \<Rightarrow> 'w \<Rightarrow> api_error option \<times> 'w"
  api_random :: "nat \<Rightarrow> 'w \<Rightarrow> (err + string) \<times> 'w"
  api_request_maintenance :: "pending_action \<Rightarrow> 'w \<Rightarrow> bool \<times> 'w"
  api_maintenance_requested :: "'w \<Rightarrow> bool \<times> 'w"
  api_pending_maintenance :: "'w \<Rightarrow> pending_action list \<times> 'w"

text \<open>
  One event per call, with its answer. A \<^verbatim>\<open>Get\<close> of an object the program only tests for existence
  is an event of the same kind.
\<close>

datatype 's event =
    GotCHI string "api_error + 's chi"
  | GotCHK string "api_error + 's chk"
  | GotSecret string "api_error + secret"
  | GotService string "api_error + service"
  | GotPolicy string "api_error + network_policy"
  | GotInstance string "api_error + inst"
  | GotStorageClass string "api_error + storage_class_obj"
  | Checked kind string "api_error + bool"
  | ListedPVCs "string \<times> string" "api_error + pvc list"
  | ListedPods "string \<times> string" "api_error + pod list"
  | Applied "'s obj" "api_error option"
  | Deleted kind string "api_error option"
  | Patched kind string "patch_op list" "api_error option"
  | Labelled string string string "api_error option"
  | StatusUpdated inst "api_error option"
  | Randomised nat "err + string"
  | Requested pending_action bool
  | AskedRequested bool
  | AskedPending "pending_action list"

section \<open>Calls\<close>

type_synonym ('s, 'w, 'a) act = "('s event, 'w, 'a) prog"

definition get_chi :: "('s, 'w) ctx \<Rightarrow> string \<Rightarrow> ('s, 'w, api_error + 's chi) act" where
  "get_chi c n = call (api_get_chi c n) (GotCHI n)"

definition get_chk :: "('s, 'w) ctx \<Rightarrow> string \<Rightarrow> ('s, 'w, api_error + 's chk) act" where
  "get_chk c n = call (api_get_chk c n) (GotCHK n)"

definition get_secret :: "('s, 'w) ctx \<Rightarrow> string \<Rightarrow> ('s, 'w, api_error + secret) act" where
  "get_secret c n = call (api_get_secret c n) (GotSecret n)"

definition get_service :: "('s, 'w) ctx \<Rightarrow> string \<Rightarrow> ('s, 'w, api_error + service) act" where
  "get_service c n = call (api_get_service c n) (GotService n)"

definition get_policy :: "('s, 'w) ctx \<Rightarrow> string \<Rightarrow> ('s, 'w, api_error + network_policy) act" where
  "get_policy c n = call (api_get_policy c n) (GotPolicy n)"

definition get_instance :: "('s, 'w) ctx \<Rightarrow> string \<Rightarrow> ('s, 'w, api_error + inst) act" where
  "get_instance c n = call (api_get_instance c n) (GotInstance n)"

definition get_storage_class :: "('s, 'w) ctx \<Rightarrow> string \<Rightarrow> ('s, 'w, api_error + storage_class_obj) act" where
  "get_storage_class c n = call (api_get_storage_class c n) (GotStorageClass n)"

definition check_exists :: "('s, 'w) ctx \<Rightarrow> kind \<Rightarrow> string \<Rightarrow> ('s, 'w, api_error + bool) act" where
  "check_exists c k n = call (api_exists c k n) (Checked k n)"

definition list_pvcs :: "('s, 'w) ctx \<Rightarrow> string \<times> string \<Rightarrow> ('s, 'w, api_error + pvc list) act" where
  "list_pvcs c sel = call (api_list_pvcs c sel) (ListedPVCs sel)"

definition list_pods :: "('s, 'w) ctx \<Rightarrow> string \<times> string \<Rightarrow> ('s, 'w, api_error + pod list) act" where
  "list_pods c sel = call (api_list_pods c sel) (ListedPods sel)"

definition apply_obj :: "('s, 'w) ctx \<Rightarrow> 's obj \<Rightarrow> ('s, 'w, api_error option) act" where
  "apply_obj c x = call (api_apply c x) (Applied x)"

definition delete_obj :: "('s, 'w) ctx \<Rightarrow> kind \<Rightarrow> string \<Rightarrow> ('s, 'w, api_error option) act" where
  "delete_obj c k n = call (api_delete c k n) (Deleted k n)"

definition json_patch :: "('s, 'w) ctx \<Rightarrow> kind \<Rightarrow> string \<Rightarrow> patch_op list \<Rightarrow> ('s, 'w, api_error option) act" where
  "json_patch c k n ops = call (api_json_patch c k n ops) (Patched k n ops)"

definition label_pvc :: "('s, 'w) ctx \<Rightarrow> string \<Rightarrow> string \<Rightarrow> string \<Rightarrow> ('s, 'w, api_error option) act" where
  "label_pvc c n k v = call (api_label_pvc c n k v) (Labelled n k v)"

definition update_status :: "('s, 'w) ctx \<Rightarrow> inst \<Rightarrow> ('s, 'w, api_error option) act" where
  "update_status c i = call (api_update_status c i) (StatusUpdated i)"

definition random_bytes :: "('s, 'w) ctx \<Rightarrow> nat \<Rightarrow> ('s, 'w, err + string) act" where
  "random_bytes c n = call (api_random c n) (Randomised n)"

definition request_maintenance :: "('s, 'w) ctx \<Rightarrow> pending_action \<Rightarrow> ('s, 'w, bool) act" where
  "request_maintenance c a = call (api_request_maintenance c a) (Requested a)"

definition maintenance_requested :: "('s, 'w) ctx \<Rightarrow> ('s, 'w, bool) act" where
  "maintenance_requested c = call (api_maintenance_requested c) AskedRequested"

definition pending_maintenance :: "('s, 'w) ctx \<Rightarrow> ('s, 'w, pending_action list) act" where
  "pending_maintenance c = call (api_pending_maintenance c) AskedPending"

lemmas call_defs =
  get_chi_def get_chk_def get_secret_def get_service_def get_policy_def get_instance_def
  get_storage_class_def check_exists_def list_pvcs_def list_pods_def apply_obj_def delete_obj_def
  json_patch_def label_pvc_def update_status_def random_bytes_def request_maintenance_def
  maintenance_requested_def pending_maintenance_def

lemma emits_calls [emits_rules]:
  "(\<And>a. P (GotCHI n a)) \<Longrightarrow> emits P (get_chi c n)"
  "(\<And>a. P (GotCHK n a)) \<Longrightarrow> emits P (get_chk c n)"
  "(\<And>a. P (GotSecret n a)) \<Longrightarrow> emits P (get_secret c n)"
  "(\<And>a. P (GotService n a)) \<Longrightarrow> emits P (get_service c n)"
  "(\<And>a. P (GotPolicy n a)) \<Longrightarrow> emits P (get_policy c n)"
  "(\<And>a. P (GotInstance n a)) \<Longrightarrow> emits P (get_instance c n)"
  "(\<And>a. P (GotStorageClass n a)) \<Longrightarrow> emits P (get_storage_class c n)"
  "(\<And>a. P (Checked k n a)) \<Longrightarrow> emits P (check_exists c k n)"
  "(\<And>a. P (ListedPVCs sel a)) \<Longrightarrow> emits P (list_pvcs c sel)"
  "(\<And>a. P (ListedPods sel a)) \<Longrightarrow> emits P (list_pods c sel)"
  "(\<And>a. P (Applied x a)) \<Longrightarrow> emits P (apply_obj c x)"
  "(\<And>a. P (Deleted k n a)) \<Longrightarrow> emits P (delete_obj c k n)"
  "(\<And>a. P (Patched k n ops a)) \<Longrightarrow> emits P (json_patch c k n ops)"
  "(\<And>a. P (Labelled n l v a)) \<Longrightarrow> emits P (label_pvc c n l v)"
  "(\<And>a. P (StatusUpdated i a)) \<Longrightarrow> emits P (update_status c i)"
  "(\<And>a. P (Randomised m a)) \<Longrightarrow> emits P (random_bytes c m)"
  "(\<And>a. P (Requested b a)) \<Longrightarrow> emits P (request_maintenance c b)"
  "(\<And>a. P (AskedRequested a)) \<Longrightarrow> emits P (maintenance_requested c)"
  "(\<And>a. P (AskedPending a)) \<Longrightarrow> emits P (pending_maintenance c)"
  by (simp_all add: call_defs emits_call)

lemma emits_case_api_error [emits_rules]:
  "emits P m \<Longrightarrow> emits P n \<Longrightarrow> (\<And>s. emits P (f s)) \<Longrightarrow>
     emits P (case e of NotFound \<Rightarrow> m | NoMatch \<Rightarrow> n | OtherApi s \<Rightarrow> f s)"
  by (cases e) auto

section \<open>Shared helpers\<close>

text \<open>\<open>must f m\<close>: run the call and return \<open>f e\<close> when it fails with \<open>e\<close>.\<close>

definition must :: "(api_error \<Rightarrow> err) \<Rightarrow> ('s, 'w, api_error option) act \<Rightarrow> ('s, 'w, unit) act" where
  "must f m = bind m (\<lambda>r. case r of None \<Rightarrow> ret () | Some e \<Rightarrow> throw (f e))"

text \<open>\<^verbatim>\<open>getOptional\<close> of \<^verbatim>\<open>status.go\<close>: the object if it exists, with every other error wrapped.\<close>

definition getOptional :: "string \<Rightarrow> ('s, 'w, api_error + 'a) act \<Rightarrow> ('s, 'w, 'a option) act" where
  "getOptional name m = bind m (\<lambda>r. case r of
       Inl NotFound \<Rightarrow> ret None
     | Inl e \<Rightarrow> throw (Errorf ''read %s: %w'' [AStr name, AErr (ApiErr e)])
     | Inr x \<Rightarrow> ret (Some x))"

lemma must_simps [simp]:
  "result (must f m) w = (case result m w of Inl e \<Rightarrow> Inl e | Inr None \<Rightarrow> Inr () | Inr (Some e) \<Rightarrow> Inl (f e))"
  "world (must f m) w = world m w" "events (must f m) w = events m w"
  by (auto simp: must_def run_simps split: sum.splits option.splits)

lemma emits_must [emits_rules]: "emits P m \<Longrightarrow> emits P (must f m)"
  by (simp add: emits_def)

lemma ensures_must: "ensures B m \<Longrightarrow> ensures B (must f m)"
  by (auto simp: ensures_def split: sum.splits option.splits)

lemma getOptional_simps [simp]:
  "result (getOptional name m) w = (case result m w of
       Inl e \<Rightarrow> Inl e
     | Inr (Inl NotFound) \<Rightarrow> Inr None
     | Inr (Inl e) \<Rightarrow> Inl (Errorf ''read %s: %w'' [AStr name, AErr (ApiErr e)])
     | Inr (Inr x) \<Rightarrow> Inr (Some x))"
  "world (getOptional name m) w = world m w" "events (getOptional name m) w = events m w"
  by (auto simp: getOptional_def run_simps split: sum.splits api_error.splits)

lemma emits_getOptional [emits_rules]: "emits P m \<Longrightarrow> emits P (getOptional name m)"
  by (simp add: emits_def)

lemma stops_must [stops_rules]:
  assumes "\<And>e. \<not> is_wait (f e)" and "\<not> F (ev None)"
  shows "stops F W (must f (call op ev))"
  unfolding must_def
proof (rule stops_bind_call)
  fix a assume "F (ev a)"
  with assms(2) obtain e where "a = Some e" by (cases a) auto
  with assms(1) show "\<exists>e. (case a of None \<Rightarrow> ret () | Some e \<Rightarrow> throw (f e)) = throw e \<and> \<not> is_wait e" by auto
qed (auto intro: stops_rules)

lemma must_Inr: "result (must f m) w = Inr u \<longleftrightarrow> result m w = Inr None"
  by (auto split: sum.splits option.splits)

lemma getOptional_Inr:
  "result (getOptional name m) w = Inr (Some x) \<longleftrightarrow> result m w = Inr (Inr x)"
  "result (getOptional name m) w = Inr None \<longleftrightarrow> result m w = Inr (Inl NotFound)"
  by (auto split: sum.splits api_error.splits)

text \<open>\<^verbatim>\<open>c.Instance().Spec.Components[name]\<close>: a missing component reads as the zero value.\<close>

definition component :: "('s, 'w) ctx \<Rightarrow> string \<Rightarrow> component_spec" where
  "component c name =
     (case map_of (inst_components (ctx_instance c)) name of None \<Rightarrow> zero_component | Some x \<Rightarrow> x)"

definition replicated :: "('s, 'w) ctx \<Rightarrow> bool" where
  "replicated c = (inst_topology_type (ctx_instance c) = TopologyReplicated)"

text \<open>The engine's parameters after \<^verbatim>\<open>TryDecodeComponentParameters\<close>, its result ignored.\<close>

definition engine_parameters :: "('s, 'w) ctx \<Rightarrow> clickhouse_parameters" where
  "engine_parameters c = snd (decode_parameters c (component c ComponentEngine))"

text \<open>
  \<open>is_write\<close>: the calls that change objects of the cluster.
\<close>

fun is_write :: "'s event \<Rightarrow> bool" where
  "is_write (Applied x r) = True"
| "is_write (Deleted k n r) = True"
| "is_write (Patched k n ops r) = True"
| "is_write (Labelled n k v r) = True"
| "is_write (StatusUpdated i r) = True"
| "is_write _ = False"

end
