(* ===== verification/Parameters.thy ===== *)
theory Parameters
  imports Runtime
begin

text \<open>
  How the engine's parameters are read: TLS (\<^verbatim>\<open>tls.go\<close>), the storage reclaim policy
  (\<^verbatim>\<open>provider.go\<close>) and the PodMonitor switch (\<^verbatim>\<open>monitoring.go\<close>), and the replica count.
\<close>

section \<open>TLS\<close>

definition tlsParameters :: "('s, 'w) ctx \<Rightarrow> tls_parameters option" where
  "tlsParameters c =
     (case decode_parameters c (component c ComponentEngine) of
        (ok, params) \<Rightarrow> if \<not> ok then None else par_tls params)"

definition tlsEnabled :: "('s, 'w) ctx \<Rightarrow> bool" where
  "tlsEnabled c =
     (case tlsParameters c of None \<Rightarrow> False | Some p \<Rightarrow> equal_fold (tls_enabled_value p) TLSEnabled)"

definition tlsRequired :: "('s, 'w) ctx \<Rightarrow> bool" where
  "tlsRequired c =
     (tlsEnabled c \<and>
      (case tlsParameters c of None \<Rightarrow> False | Some p \<Rightarrow> \<not> equal_fold (tls_mode_value p) TLSModeOptional))"

definition tlsMode :: "('s, 'w) ctx \<Rightarrow> string" where
  "tlsMode c =
     (if \<not> tlsEnabled c then [] else if tlsRequired c then TLSModeRequired else TLSModeOptional)"

lemma tlsMode_empty [simp]: "tlsMode c = [] \<longleftrightarrow> \<not> tlsEnabled c"
  by (simp add: tlsMode_def constants)

lemma tlsMode_required [simp]: "tlsMode c = TLSModeRequired \<longleftrightarrow> tlsRequired c"
  by (auto simp: tlsMode_def tlsRequired_def constants)

lemma tlsMode_cases: "tlsMode c \<in> {[], TLSModeRequired, TLSModeOptional}"
  by (simp add: tlsMode_def)

section \<open>Storage reclaim policy, PodMonitor, replicas\<close>

definition storageReclaimPolicy :: "('s, 'w) ctx \<Rightarrow> string" where
  "storageReclaimPolicy c =
     (if equal_fold (par_reclaim_policy (engine_parameters c)) StorageReclaimPolicyDelete
      then StorageReclaimPolicyDelete else StorageReclaimPolicyRetain)"

definition podMonitorEnabled :: "('s, 'w) ctx \<Rightarrow> bool" where
  "podMonitorEnabled c = equal_fold (par_pod_monitor (engine_parameters c)) PodMonitorEnabled"

definition replicasCount :: "('s, 'w) ctx \<Rightarrow> int" where
  "replicasCount c =
     (case comp_replicas (component c ComponentEngine) of
        Some n \<Rightarrow> if n \<ge> 2 then n else DefaultReplicasCount
      | None \<Rightarrow> DefaultReplicasCount)"

lemma replicasCount_ge2: "2 \<le> replicasCount c"
  by (simp add: replicasCount_def DefaultReplicasCount_def split: option.splits)

lemma storageReclaimPolicy_cases:
  "storageReclaimPolicy c = StorageReclaimPolicyDelete \<or> storageReclaimPolicy c = StorageReclaimPolicyRetain"
  by (simp add: storageReclaimPolicy_def)

lemma reclaim_policies_differ [simp]:
  "StorageReclaimPolicyRetain \<noteq> StorageReclaimPolicyDelete"
  "StorageReclaimPolicyDelete \<noteq> StorageReclaimPolicyRetain"
  by (simp_all add: constants)

end
