(* ===== verification/Strconv.thy ===== *)
theory Strconv
  imports Prelude
begin

text \<open>
  What the program uses of \<^verbatim>\<open>strconv\<close> and \<^verbatim>\<open>encoding/hex\<close>: \<^verbatim>\<open>Itoa\<close> (also the
  \<^verbatim>\<open>%d\<close> verb), \<^verbatim>\<open>Atoi\<close> with its error ignored, Go's 64-bit \<^verbatim>\<open>int\<close> addition and
  \<^verbatim>\<open>hex.EncodeToString\<close>.
\<close>

section \<open>Decimal numerals\<close>

definition digit_char :: "int \<Rightarrow> char" where
  "digit_char d = char_of (48 + d)"

definition digit_val :: "char \<Rightarrow> int option" where
  "digit_val c = (let n = of_char c :: int in if 48 \<le> n \<and> n \<le> 57 then Some (n - 48) else None)"

function dec :: "int \<Rightarrow> string" where
  "dec n = (if n < 10 then [digit_char n] else dec (n div 10) @ [digit_char (n mod 10)])"
  by pat_completeness auto
termination
  by (relation "measure nat") auto

declare dec.simps [simp del]

definition itoa :: "int \<Rightarrow> string" where
  "itoa i = (if i < 0 then CHR ''-'' # dec (- i) else dec i)"

text \<open>
  \<^verbatim>\<open>Atoi\<close> yields 0 on a syntax error and the nearest 64-bit bound on a range error.
  \<open>scan_digits\<close> is \<^verbatim>\<open>ParseUint\<close>'s loop: it stops at the first byte that is not a digit
  (syntax) or the first prefix above \<open>2 ^ 64 - 1\<close> (range).
\<close>

datatype scan = Syntax | Range | Value int

fun scan_digits :: "int \<Rightarrow> string \<Rightarrow> scan" where
  "scan_digits n [] = Value n"
| "scan_digits n (c # cs) =
     (case digit_val c of
        None \<Rightarrow> Syntax
      | Some d \<Rightarrow> if 10 * n + d > 18446744073709551615 then Range else scan_digits (10 * n + d) cs)"

definition clamp64 :: "int \<Rightarrow> int" where
  "clamp64 i = max (- 9223372036854775808) (min 9223372036854775807 i)"

definition parse_uint :: "string \<Rightarrow> scan" where
  "parse_uint s = (if s = [] then Syntax else scan_digits 0 s)"

definition atoi :: "string \<Rightarrow> int" where
  "atoi s =
     (let neg = (case s of c # _ \<Rightarrow> c = CHR ''-'' | [] \<Rightarrow> False);
          signed = (case s of c # _ \<Rightarrow> c = CHR ''-'' \<or> c = CHR ''+'' | [] \<Rightarrow> False);
          digits = (if signed then tl s else s)
      in case parse_uint digits of
           Syntax \<Rightarrow> 0
         | Range \<Rightarrow> (if neg then - 9223372036854775808 else 9223372036854775807)
         | Value n \<Rightarrow> clamp64 (if neg then - n else n))"

text \<open>Go's \<^verbatim>\<open>int\<close> is 64 bits wide on the platforms the provider is built for; its addition wraps.\<close>

definition wrap64 :: "int \<Rightarrow> int" where
  "wrap64 i = (i + 9223372036854775808) mod 18446744073709551616 - 9223372036854775808"

lemma wrap64_id: "- 9223372036854775808 \<le> i \<Longrightarrow> i \<le> 9223372036854775807 \<Longrightarrow> wrap64 i = i"
  by (simp add: wrap64_def)

section \<open>Round trip of decimal numerals\<close>

lemma digit_val_digit_char [simp]: "0 \<le> d \<Longrightarrow> d < 10 \<Longrightarrow> digit_val (digit_char d) = Some d"
  by (simp add: digit_val_def digit_char_def)

lemma scan_digits_append:
  "scan_digits n xs = Value m \<Longrightarrow> scan_digits n (xs @ ys) = scan_digits m ys"
  by (induction n xs rule: scan_digits.induct) (auto split: option.splits if_splits)

lemma scan_dec: "0 \<le> n \<Longrightarrow> n \<le> 18446744073709551615 \<Longrightarrow> scan_digits 0 (dec n) = Value n"
proof (induction n rule: dec.induct)
  case (1 n)
  show ?case
  proof (cases "n < 10")
    case True
    with "1.prems" show ?thesis by (subst dec.simps) simp
  next
    case False
    with 1 have "scan_digits 0 (dec (n div 10)) = Value (n div 10)"
      by simp
    with False "1.prems" show ?thesis
      by (subst dec.simps) (simp add: scan_digits_append)
  qed
qed

lemma dec_nonempty [simp]: "dec n \<noteq> []"
  by (subst dec.simps) simp

lemma dec_digits: "0 \<le> n \<Longrightarrow> c \<in> set (dec n) \<Longrightarrow> \<exists>d. 0 \<le> d \<and> d < 10 \<and> c = digit_char d"
proof (induction n rule: dec.induct)
  case (1 n)
  show ?case
  proof (cases "n < 10")
    case True
    with "1.prems" show ?thesis by (subst (asm) dec.simps) auto
  next
    case False
    with "1.prems" have "c \<in> set (dec (n div 10)) \<or> c = digit_char (n mod 10)"
      by (subst (asm) dec.simps) auto
    moreover have "0 \<le> n mod 10 \<and> n mod 10 < 10" by simp
    ultimately show ?thesis using False "1.IH" "1.prems"(1)
      by (metis pos_imp_zdiv_nonneg_iff zero_less_numeral)
  qed
qed

lemma digit_char_not_sign [simp]:
  "0 \<le> d \<Longrightarrow> d < 10 \<Longrightarrow> digit_char d \<noteq> CHR ''-''"
  "0 \<le> d \<Longrightarrow> d < 10 \<Longrightarrow> digit_char d \<noteq> CHR ''+''"
  using digit_val_digit_char [of d] by (auto simp: digit_val_def)

lemma atoi_dec: "0 \<le> n \<Longrightarrow> n \<le> 9223372036854775807 \<Longrightarrow> atoi (dec n) = n"
proof -
  assume n: "0 \<le> n" "n \<le> 9223372036854775807"
  obtain c cs where c: "dec n = c # cs"
    by (cases "dec n") auto
  obtain d where d: "0 \<le> d" "d < 10" "c = digit_char d"
    using dec_digits [of n c] c n by auto
  have "scan_digits 0 (dec n) = Value n"
    using n by (intro scan_dec) simp_all
  with c d n show ?thesis
    by (simp add: atoi_def parse_uint_def clamp64_def)
qed

lemma atoi_itoa:
  assumes "- 9223372036854775808 \<le> i" and "i \<le> 9223372036854775807"
  shows "atoi (itoa i) = i"
proof (cases "0 \<le> i")
  case True
  with assms(2) show ?thesis by (simp add: itoa_def atoi_dec)
next
  case False
  with assms(1) have "scan_digits 0 (dec (- i)) = Value (- i)" by (intro scan_dec) simp_all
  with False assms(1) show ?thesis by (simp add: itoa_def atoi_def parse_uint_def clamp64_def)
qed

lemma wrap64_bounds: "- 9223372036854775808 \<le> wrap64 i" "wrap64 i \<le> 9223372036854775807"
proof -
  have "0 \<le> (i + 9223372036854775808) mod 18446744073709551616"
    "(i + 9223372036854775808) mod 18446744073709551616 < 18446744073709551616" by simp_all
  then show "- 9223372036854775808 \<le> wrap64 i" "wrap64 i \<le> 9223372036854775807"
    unfolding wrap64_def by linarith+
qed

text \<open>A 64-bit counter is one up, except that the greatest value wraps to the least.\<close>

lemma wrap64_succ:
  assumes "- 9223372036854775808 \<le> i" and "i \<le> 9223372036854775807"
  shows "wrap64 (i + 1) = (if i = 9223372036854775807 then - 9223372036854775808 else i + 1)"
  using assms by (auto simp: wrap64_def)

lemma digit_char_inj: "0 \<le> d \<Longrightarrow> d < 10 \<Longrightarrow> 0 \<le> e \<Longrightarrow> e < 10 \<Longrightarrow> digit_char d = digit_char e \<longleftrightarrow> d = e"
  by (metis digit_val_digit_char option.inject)

lemma dec_snoc: "0 \<le> n \<Longrightarrow> dec n = (if n < 10 then [] else dec (n div 10)) @ [digit_char (n mod 10)]"
  by (subst dec.simps) simp

lemma dec_inj: "0 \<le> m \<Longrightarrow> 0 \<le> n \<Longrightarrow> dec m = dec n \<Longrightarrow> m = n"
proof (induction m arbitrary: n rule: dec.induct)
  case (1 m)
  from "1.prems" have "(if m < 10 then [] else dec (m div 10)) = (if n < 10 then [] else dec (n div 10))"
    and "m mod 10 = n mod 10"
    by (simp_all add: dec_snoc [of m] dec_snoc [of n] digit_char_inj)
  moreover from this(1) have "m div 10 = n div 10"
    using "1.IH" [of "n div 10"] "1.prems"(1,2) by (auto split: if_splits simp: dec_nonempty [symmetric])
  ultimately show ?case by (metis mult_div_mod_eq)
qed

lemma itoa_inj_nonneg: "0 \<le> i \<Longrightarrow> 0 \<le> j \<Longrightarrow> itoa i = itoa j \<longleftrightarrow> i = j"
  using dec_inj [of i j] by (auto simp: itoa_def)

lemma atoi_bounds: "- 9223372036854775808 \<le> atoi s \<and> atoi s \<le> 9223372036854775807"
  by (auto simp: atoi_def Let_def clamp64_def split: scan.splits)

section \<open>Hexadecimal\<close>

definition hex_digit :: "nat \<Rightarrow> char" where
  "hex_digit d = (if d < 10 then char_of (48 + d) else char_of (87 + d))"

definition hex_encode :: "string \<Rightarrow> string" where
  "hex_encode bs = concat (map (\<lambda>c. let n = of_char c :: nat in [hex_digit (n div 16), hex_digit (n mod 16)]) bs)"

lemma length_hex_encode [simp]: "length (hex_encode bs) = 2 * length bs"
  by (induction bs) (simp_all add: hex_encode_def Let_def)

lemma hex_digit_inject: "n < 16 \<Longrightarrow> m < 16 \<Longrightarrow> hex_digit n = hex_digit m \<longleftrightarrow> n = m"
proof -
  have "inj_on hex_digit (set [0..<16])"
    by (simp add: upt_rec hex_digit_def)
  then show "n < 16 \<Longrightarrow> m < 16 \<Longrightarrow> hex_digit n = hex_digit m \<longleftrightarrow> n = m"
    by (auto dest: inj_onD)
qed

text \<open>Two byte strings with the same hexadecimal form are the same.\<close>

lemma hex_encode_inject [simp]: "hex_encode as = hex_encode bs \<longleftrightarrow> as = bs"
proof
  have byte: "a = b" if "hex_encode [a] = hex_encode [b]" for a b
  proof -
    let ?a = "of_char a :: nat" and ?b = "of_char b :: nat"
    have "?a < 256" "?b < 256" by simp_all
    then have "?a div 16 < 16" "?b div 16 < 16" by (simp_all add: less_mult_imp_div_less)
    with that have "?a div 16 = ?b div 16" "?a mod 16 = ?b mod 16"
      by (simp_all add: hex_encode_def Let_def hex_digit_inject)
    then have "?a = ?b" by (metis div_mult_mod_eq)
    then show "a = b" by simp
  qed
  assume h: "hex_encode as = hex_encode bs"
  then have "length as = length bs" by (metis length_hex_encode mult_cancel1 zero_neq_numeral)
  then show "as = bs" using h
    by (induction as bs rule: list_induct2) (auto simp: hex_encode_def Let_def intro: byte)
qed simp

lemma hex_encode_Nil [simp]: "hex_encode bs = [] \<longleftrightarrow> bs = []"
  by (metis length_0_conv length_hex_encode mult_eq_0_iff numeral_neq_zero)

end
