(* ===== verification/Names.thy ===== *)
theory Names
  imports Prelude Strconv Constants
begin

text \<open>
  The names the provider derives from an Instance's name: of the objects it manages
  (\<^verbatim>\<open>provider.go\<close>, \<^verbatim>\<open>users.go\<close>, \<^verbatim>\<open>rollout.go\<close>, \<^verbatim>\<open>tls.go\<close>, \<^verbatim>\<open>monitoring.go\<close>) and of the Services the
  operator creates, which the server certificate must cover (\<^verbatim>\<open>tls.go\<close>, \<^verbatim>\<open>keeper_tls.go\<close>).
\<close>

section \<open>Managed objects\<close>

definition keeperCRName :: "string \<Rightarrow> string" where
  "keeperCRName instanceName = instanceName @ ''-keeper''"

definition credentialsSecretName :: "string \<Rightarrow> string" where
  "credentialsSecretName instanceName = instanceName @ CredentialsSecretSuffix"

definition rolloutStateName :: "string \<Rightarrow> string" where
  "rolloutStateName instanceName = instanceName @ RolloutStateSuffix"

definition selfSignedIssuerName :: "string \<Rightarrow> string" where
  "selfSignedIssuerName instanceName = instanceName @ SelfSignedIssuerSuffix"

definition caCertName :: "string \<Rightarrow> string" where
  "caCertName instanceName = instanceName @ CAIssuerSuffix"

definition caIssuerName :: "string \<Rightarrow> string" where
  "caIssuerName instanceName = instanceName @ CAIssuerSuffix"

definition caSecretName :: "string \<Rightarrow> string" where
  "caSecretName instanceName = instanceName @ CACertSecretSuffix"

definition serverCertName :: "string \<Rightarrow> string" where
  "serverCertName instanceName = instanceName @ ServerCertSuffix"

definition serverSecretName :: "string \<Rightarrow> string" where
  "serverSecretName instanceName = instanceName @ ServerCertSecretSuffix"

definition podMonitorName :: "string \<Rightarrow> string" where
  "podMonitorName instanceName = instanceName @ ''-metrics''"

section \<open>Operator Services\<close>

definition clientServiceName :: "string \<Rightarrow> string" where
  "clientServiceName instanceName = ''clickhouse-'' @ instanceName"

text \<open>The operator's shortening of CHI and CHK names.\<close>

definition trimCRName :: "string \<Rightarrow> string" where
  "trimCRName name =
     (let cut = (if length name > 60 then take 60 name else name) in trim_chars ''-_.'' cut)"

definition replicaServiceNames :: "string \<Rightarrow> int \<Rightarrow> string list" where
  "replicaServiceNames instanceName replicas =
     (let chiName = trimCRName instanceName
      in map (\<lambda>i. ''chi-'' @ chiName @ ''-'' @ CHIClusterName @ ''-0-'' @ itoa i) [0..replicas - 1])"

definition keeperHostNames :: "string \<Rightarrow> string list" where
  "keeperHostNames instanceName =
     (let chk = trimCRName (keeperCRName instanceName)
      in map (\<lambda>i. ''chk-'' @ chk @ ''-'' @ CHKClusterName @ ''-0-'' @ itoa i) [0..KeeperReplicas - 1])"

definition keeperClientServiceNames :: "string \<Rightarrow> string list" where
  "keeperClientServiceNames instanceName = map (\<lambda>h. h @ ''-client'') (keeperHostNames instanceName)"

definition clusterLocal :: "string \<Rightarrow> string \<Rightarrow> string" where
  "clusterLocal svc namespace = svc @ ''.'' @ namespace @ ''.svc.cluster.local''"

definition serviceDNSNames :: "string list \<Rightarrow> string \<Rightarrow> string list" where
  "serviceDNSNames services namespace =
     concat (map (\<lambda>svc.
       [svc,
        svc @ ''.'' @ namespace,
        svc @ ''.'' @ namespace @ ''.svc'',
        clusterLocal svc namespace]) services)"

definition serverDNSNames :: "string \<Rightarrow> string \<Rightarrow> int \<Rightarrow> string list" where
  "serverDNSNames instanceName namespace replicas =
     (let replicaServices = replicaServiceNames instanceName replicas;
          names = serviceDNSNames ([clientServiceName instanceName] @ replicaServices) namespace
      in names @ map (\<lambda>svc. ''*.'' @ clusterLocal svc namespace) replicaServices)"

definition keeperDNSNames :: "string \<Rightarrow> string \<Rightarrow> string list" where
  "keeperDNSNames instanceName namespace =
     (let services = [''keeper-'' @ trimCRName (keeperCRName instanceName)] @ keeperHostNames instanceName
      in serviceDNSNames (services @ keeperClientServiceNames instanceName) namespace)"

section \<open>Names by suffix\<close>

text \<open>
  Every managed object is named by appending a fixed suffix to the Instance's name. What the
  program relies on: the name determines the Instance, and two suffixes neither of which is a
  suffix of the other never name the same object.
\<close>

locale suffixed =
  fixes nm :: "string \<Rightarrow> string" and suf :: string
  assumes nm_eq: "nm i = i @ suf"
begin

lemma inj: "nm i = nm j \<longleftrightarrow> i = j"
  by (simp add: nm_eq)

lemma not_instance: "suf \<noteq> [] \<Longrightarrow> nm i \<noteq> i"
  by (simp add: nm_eq)

lemma disjoint:
  assumes "\<not> has_suffix suf suf'" and "\<not> has_suffix suf' suf"
  shows "nm i \<noteq> j @ suf'"
proof
  assume "nm i = j @ suf'"
  then have "i @ suf = j @ suf'" by (simp add: nm_eq)
  then obtain us where "(i = j @ us \<and> us @ suf = suf') \<or> (i @ us = j \<and> suf = us @ suf')"
    by (auto simp: append_eq_append_conv2)
  with assms show False by (auto simp: has_suffix_iff)
qed

end

interpretation credentials: suffixed credentialsSecretName CredentialsSecretSuffix
  by unfold_locales (simp add: credentialsSecretName_def)

interpretation rollout_state: suffixed rolloutStateName RolloutStateSuffix
  by unfold_locales (simp add: rolloutStateName_def)

interpretation ca_secret: suffixed caSecretName CACertSecretSuffix
  by unfold_locales (simp add: caSecretName_def)

interpretation server_secret: suffixed serverSecretName ServerCertSecretSuffix
  by unfold_locales (simp add: serverSecretName_def)

interpretation ca_cert: suffixed caCertName CAIssuerSuffix
  by unfold_locales (simp add: caCertName_def)

interpretation ca_issuer: suffixed caIssuerName CAIssuerSuffix
  by unfold_locales (simp add: caIssuerName_def)

interpretation server_cert: suffixed serverCertName ServerCertSuffix
  by unfold_locales (simp add: serverCertName_def)

interpretation self_signed: suffixed selfSignedIssuerName SelfSignedIssuerSuffix
  by unfold_locales (simp add: selfSignedIssuerName_def)

lemma suffixes_apart:
  "\<not> has_suffix CredentialsSecretSuffix RolloutStateSuffix" "\<not> has_suffix RolloutStateSuffix CredentialsSecretSuffix"
  "\<not> has_suffix CredentialsSecretSuffix CACertSecretSuffix" "\<not> has_suffix CACertSecretSuffix CredentialsSecretSuffix"
  "\<not> has_suffix CredentialsSecretSuffix ServerCertSecretSuffix" "\<not> has_suffix ServerCertSecretSuffix CredentialsSecretSuffix"
  "\<not> has_suffix RolloutStateSuffix CACertSecretSuffix" "\<not> has_suffix CACertSecretSuffix RolloutStateSuffix"
  "\<not> has_suffix RolloutStateSuffix ServerCertSecretSuffix" "\<not> has_suffix ServerCertSecretSuffix RolloutStateSuffix"
  "\<not> has_suffix CACertSecretSuffix ServerCertSecretSuffix" "\<not> has_suffix ServerCertSecretSuffix CACertSecretSuffix"
  "\<not> has_suffix CAIssuerSuffix ServerCertSuffix" "\<not> has_suffix ServerCertSuffix CAIssuerSuffix"
  "\<not> has_suffix CAIssuerSuffix SelfSignedIssuerSuffix" "\<not> has_suffix SelfSignedIssuerSuffix CAIssuerSuffix"
  by (simp_all add: constants has_suffix_def has_prefix_def)

section \<open>Coverage of the DNS names\<close>

lemma serviceDNSNames_covers:
  "svc \<in> set services \<Longrightarrow> svc \<in> set (serviceDNSNames services ns)"
  "svc \<in> set services \<Longrightarrow> clusterLocal svc ns \<in> set (serviceDNSNames services ns)"
  by (auto simp: serviceDNSNames_def)

lemma length_serviceDNSNames: "length (serviceDNSNames services ns) = 4 * length services"
  by (induction services) (simp_all add: serviceDNSNames_def)

lemma keeperDNSNames_hosts:
  "svc \<in> set (keeperHostNames n) \<union> set (keeperClientServiceNames n) \<Longrightarrow>
     clusterLocal svc ns \<in> set (keeperDNSNames n ns)"
  by (auto simp: keeperDNSNames_def Let_def intro!: serviceDNSNames_covers(2))

lemma length_keeperHostNames: "length (keeperHostNames n) = 3"
  by (simp add: keeperHostNames_def Let_def KeeperReplicas_def)

lemma length_trimCRName: "length (trimCRName n) \<le> 60"
proof -
  have "length (if length n > 60 then take 60 n else n) \<le> 60" by simp
  then show ?thesis
    unfolding trimCRName_def Let_def by (meson length_trim_chars order_trans)
qed

lemma trimCRName_ends:
  "trimCRName n \<noteq> [] \<Longrightarrow> hd (trimCRName n) \<notin> set ''-_.'' \<and> last (trimCRName n) \<notin> set ''-_.''"
  unfolding trimCRName_def Let_def using trim_chars_ends by blast

lemma trimCRName_idem: "trimCRName (trimCRName n) = trimCRName n"
proof -
  have "trim_chars ''-_.'' (trimCRName n) = trimCRName n"
    using trimCRName_ends [of n] by (intro trim_chars_fix) blast
  moreover have "\<not> length (trimCRName n) > 60"
    using length_trimCRName [of n] by simp
  ultimately show ?thesis by (simp add: trimCRName_def [of "trimCRName n"])
qed

end
