(* ===== verification/Workload.thy ===== *)
theory Workload
  imports Parameters Names
begin

text \<open>
  What a component's pods run with (\<^verbatim>\<open>provider.go\<close>): image, CPU and memory, storage, and the
  server settings the provider layers on the user's configuration.
\<close>

section \<open>Images\<close>

definition bundled_version :: "provider_spec \<Rightarrow> string \<Rightarrow> string" where
  "bundled_version spec name =
     (if bundle_name spec = [] then []
      else case bundle_versions spec (bundle_name spec) of None \<Rightarrow> [] | Some vs \<Rightarrow> get0 vs name)"

definition resolveImage :: "('s, 'w) ctx \<Rightarrow> string \<Rightarrow> component_spec \<Rightarrow> err + string" where
  "resolveImage c name cs =
     (if comp_image cs \<noteq> [] then Inr (comp_image cs)
      else case provider_spec_of c of
             Inl e \<Rightarrow> Inl (Errorf ''get provider spec: %w'' [AErr e])
           | Inr spec \<Rightarrow>
               (let version = (if comp_version cs = [] then bundled_version spec name else comp_version cs);
                    img = (if version = [] then [] else image_for_version spec name version)
                in if img \<noteq> [] then Inr img
                   else if default_image spec name \<noteq> [] then Inr (default_image spec name)
                   else Inl (Errorf ''no image found for the %s component'' [AStr name])))"

section \<open>CPU and memory\<close>

text \<open>A declared value counts when it is present and not zero.\<close>

definition declared_value :: "quantity table \<Rightarrow> string \<Rightarrow> quantity option" where
  "declared_value m name = (case map_of m name of None \<Rightarrow> None | Some q \<Rightarrow> if q = 0 then None else Some q)"

definition effective_limit :: "quantity option \<Rightarrow> quantity option \<Rightarrow> quantity \<Rightarrow> quantity" where
  "effective_limit limit request fallback =
     (case limit of
        Some l \<Rightarrow> l
      | None \<Rightarrow> (case request of Some r \<Rightarrow> if r > fallback then r else fallback | None \<Rightarrow> fallback))"

definition resourceRequirements :: "resources option \<Rightarrow> quantity \<Rightarrow> quantity \<Rightarrow> resources" where
  "resourceRequirements declared cpu memory =
     (let limit = (\<lambda>name. Option.bind declared (\<lambda>d. declared_value (limits d) name));
          request = (\<lambda>name. Option.bind declared (\<lambda>d. declared_value (requests d) name));
          lim = (\<lambda>name fallback. effective_limit (limit name) (request name) fallback);
          req = (\<lambda>name fallback. case request name of Some r \<Rightarrow> r | None \<Rightarrow> lim name fallback)
      in \<lparr>limits = [(''cpu'', lim ''cpu'' cpu), (''memory'', lim ''memory'' memory)],
          requests = [(''cpu'', req ''cpu'' cpu), (''memory'', req ''memory'' memory)]\<rparr>)"

definition resolveResources :: "('s, 'w) ctx \<Rightarrow> component_spec \<Rightarrow> resources" where
  "resolveResources c engine =
     resourceRequirements (comp_resources engine) (must_parse c ''1'') (must_parse c ''4Gi'')"

definition resolveKeeperResources :: "('s, 'w) ctx \<Rightarrow> component_spec \<Rightarrow> resources" where
  "resolveKeeperResources c keeper =
     resourceRequirements (comp_resources keeper)
       (must_parse c KeeperDefaultCPU) (must_parse c KeeperDefaultMemory)"

definition qty0 :: "quantity table \<Rightarrow> string \<Rightarrow> quantity" where
  "qty0 m name = (case map_of m name of None \<Rightarrow> 0 | Some q \<Rightarrow> q)"

section \<open>Storage\<close>

definition resolveStorage :: "('s, 'w) ctx \<Rightarrow> component_spec \<Rightarrow> quantity \<times> string option" where
  "resolveStorage c engine =
     (case comp_storage engine of
        None \<Rightarrow> (must_parse c ''25Gi'', None)
      | Some st \<Rightarrow> (if storage_size st = 0 then must_parse c ''25Gi'' else storage_size st, storage_class st))"

text \<open>The first volume claim template of the given name.\<close>

definition find_volume_claim_template :: "string \<Rightarrow> templates option \<Rightarrow> volume_claim_template option" where
  "find_volume_claim_template name ts =
     (case ts of None \<Rightarrow> None | Some t \<Rightarrow> find (\<lambda>v. vct_name v = name) (volume_claim_templates t))"

definition keeperVolumeClaimTemplate :: "'s chk \<Rightarrow> volume_claim_template option" where
  "keeperVolumeClaimTemplate x =
     find_volume_claim_template KeeperDataVolumeClaimTemplateName (chk_templates (chk_spec_of x))"

definition dataVolumeClaimTemplate :: "'s chi \<Rightarrow> volume_claim_template option" where
  "dataVolumeClaimTemplate x =
     find_volume_claim_template DataVolumeClaimTemplateName (chi_templates (chi_spec_of x))"

definition resolveKeeperStorage ::
    "('s, 'w) ctx \<Rightarrow> component_spec \<Rightarrow> ('s, 'w, quantity \<times> string option) act" where
  "resolveKeeperStorage c keeper =
     (let size = (case comp_storage keeper of
                    Some st \<Rightarrow> if storage_size st \<noteq> 0 then storage_size st else must_parse c KeeperDefaultStorage
                  | None \<Rightarrow> must_parse c KeeperDefaultStorage);
          declared = Option.bind (comp_storage keeper) storage_class;
          engineClass = snd (resolveStorage c (component c ComponentEngine))
      in if declared \<noteq> None then ret (size, declared)
         else bind (get_chk c (keeperCRName (ctx_name c))) (\<lambda>r. case r of
                Inl NotFound \<Rightarrow> ret (size, engineClass)
              | Inl e \<Rightarrow> throw (Errorf ''read current ClickHouseKeeperInstallation: %w'' [AErr (ApiErr e)])
              | Inr current \<Rightarrow>
                  (case keeperVolumeClaimTemplate current of
                     Some vct \<Rightarrow> ret (size, vct_storage_class vct)
                   | None \<Rightarrow> ret (size, engineClass))))"

text \<open>The reclaim policy on a volume claim template (\<^verbatim>\<open>storageManagement\<close>).\<close>

definition storageManagement :: "('s, 'w) ctx \<Rightarrow> string" where
  "storageManagement c = storageReclaimPolicy c"

section \<open>Server settings\<close>

definition resolveEngineSettings :: "('s, 'w) ctx \<Rightarrow> err + 's" where
  "resolveEngineSettings c =
     (let L = settings_lib_of c;
          cfg = trim_space (par_configuration (engine_parameters c));
          base = (if cfg = [] then Inr (new_settings L)
                  else case parse_settings L cfg of
                         None \<Rightarrow> Inl (Errorf ''parse engine configuration: %w'' [AErr (LibErr ''yaml'')])
                       | Some s \<Rightarrow> Inr s)
      in case base of
           Inl e \<Rightarrow> Inl e
         | Inr s \<Rightarrow> Inr (fold (\<lambda>(k, v). set_if_not_exists L k (Scalar v))
             [(''prometheus/endpoint'', MetricsPath),
              (''prometheus/port'', itoa MetricsPort),
              (''prometheus/metrics'', ''true''),
              (''prometheus/events'', ''true''),
              (''prometheus/asynchronous_metrics'', ''true''),
              (''prometheus/status_info'', ''true'')] s))"

section \<open>Lemmas\<close>

lemma requests_within_limits_iff:
  "qty0 (requests (resourceRequirements d cpu mem)) name \<le> qty0 (limits (resourceRequirements d cpu mem)) name
     \<longleftrightarrow> name \<notin> {''cpu'', ''memory''} \<or>
       (case (Option.bind d (\<lambda>x. declared_value (limits x) name), Option.bind d (\<lambda>x. declared_value (requests x) name)) of
          (Some l, Some r) \<Rightarrow> r \<le> l | _ \<Rightarrow> True)"
  by (auto simp: resourceRequirements_def qty0_def effective_limit_def Let_def split: option.splits)

lemma emits_resolveKeeperStorage [emits_rules]:
  "(\<And>n a. P (GotCHK n a)) \<Longrightarrow> emits P (resolveKeeperStorage c k)"
  unfolding resolveKeeperStorage_def by (intro emits_rules)

end
