(* ===== verification/Scheduling.thy ===== *)
theory Scheduling
  imports Runtime
begin

text \<open>
  \<^verbatim>\<open>scheduling.go\<close>: where the pods of a component are placed. The zone and hostname topology
  keys are Kubernetes's well-known labels.
\<close>

definition LabelHostname :: string where "LabelHostname = ''kubernetes.io/hostname''"

definition LabelTopologyZone :: string where "LabelTopologyZone = ''topology.kubernetes.io/zone''"

definition antiAffinityTerm :: "labels \<Rightarrow> int \<Rightarrow> string \<Rightarrow> weighted_term" where
  "antiAffinityTerm podLabels weight topologyKey =
     \<lparr>term_weight = weight, term_labels = podLabels, term_topology_key = topologyKey, term_rest = []\<rparr>"

definition defaultAffinity :: "labels \<Rightarrow> affinity" where
  "defaultAffinity podLabels =
     \<lparr>node_affinity = None, pod_affinity = None,
      pod_anti = Some \<lparr>anti_preferred =
          [antiAffinityTerm podLabels AntiAffinityHostnameWeight LabelHostname,
           antiAffinityTerm podLabels AntiAffinityZoneWeight LabelTopologyZone],
        anti_required = []\<rparr>\<rparr>"

definition applySchedulingPolicy ::
    "('s, 'w) ctx \<Rightarrow> pod_spec \<Rightarrow> scheduling_policy option \<Rightarrow> labels \<Rightarrow> pod_spec" where
  "applySchedulingPolicy c spec policy podLabels =
     (let spec1 = spec\<lparr>pod_spread := spread_constraints c policy podLabels,
                       pod_affinity_rules := Some (defaultAffinity podLabels)\<rparr>
      in case policy of
           None \<Rightarrow> spec1
         | Some p \<Rightarrow>
             (let spec2 = spec1\<lparr>pod_scheduler_name := pol_scheduler_name p,
                                pod_node_selector := pol_node_selector p,
                                pod_tolerations := pol_tolerations p\<rparr>
              in if pol_affinity p \<noteq> None then spec2\<lparr>pod_affinity_rules := pol_affinity p\<rparr> else spec2))"

definition applyKeeperSchedulingPolicy ::
    "pod_spec \<Rightarrow> scheduling_policy option \<Rightarrow> labels \<Rightarrow> pod_spec" where
  "applyKeeperSchedulingPolicy spec enginePolicy podLabels =
     (let spec1 = spec\<lparr>pod_affinity_rules := Some (defaultAffinity podLabels)\<rparr>
      in case enginePolicy of
           None \<Rightarrow> spec1
         | Some p \<Rightarrow>
             (let spec2 = spec1\<lparr>pod_scheduler_name := pol_scheduler_name p,
                                pod_node_selector := pol_node_selector p,
                                pod_tolerations := pol_tolerations p\<rparr>
              in case pol_affinity p of
                   None \<Rightarrow> spec2
                 | Some a \<Rightarrow>
                     (if node_affinity a \<noteq> None
                      then spec2\<lparr>pod_affinity_rules :=
                             Some ((defaultAffinity podLabels)\<lparr>node_affinity := node_affinity a\<rparr>)\<rparr>
                      else spec2)))"

section \<open>Placement\<close>

text \<open>Both placements leave the containers alone.\<close>

lemma scheduling_containers [simp]:
  "pod_containers (applySchedulingPolicy c spec policy ls) = pod_containers spec"
  "pod_containers (applyKeeperSchedulingPolicy spec policy ls) = pod_containers spec"
  by (simp_all add: applySchedulingPolicy_def applyKeeperSchedulingPolicy_def Let_def split: option.splits)


end
