(* ===== verification/Keeper_Wiring.thy ===== *)
theory Keeper_Wiring
  imports Parameters Names
begin

text \<open>
  \<^verbatim>\<open>keeper_tls.go\<close>: how ClickHouse and Keeper are wired to each other, what is rolled out of
  it, and the next step towards the wiring TLS calls for.
\<close>

section \<open>Wiring and observed state\<close>

record keeperWiring =
  kw_secure :: bool
  kw_plaintext :: bool
  kw_port :: int

record keeperState =
  chkExists :: bool
  chkRolledOut :: bool
  chkSecure :: bool
  chkPlaintext :: bool
  chiExists :: bool
  chiRolledOut :: bool
  chiPort :: int

definition targetWiring :: "bool \<Rightarrow> keeperState \<Rightarrow> keeperWiring" where
  "targetWiring tls s =
     (if tls then \<lparr>kw_secure = True, kw_plaintext = False, kw_port = KeeperSecurePort\<rparr>
      else \<lparr>kw_secure = False, kw_plaintext = True,
            kw_port = (if chiPort s > 0 \<or> chkSecure s then KeeperPort else 0)\<rparr>)"

definition stepPort :: "bool \<Rightarrow> keeperState \<Rightarrow> int" where
  "stepPort tls s =
     (if chiPort s < 0 \<or> \<not> chiExists s then kw_port (targetWiring tls s)
      else if \<not> chkRolledOut s then chiPort s
      else if tls \<and> chkSecure s then kw_port (targetWiring tls s)
      else if \<not> tls \<and> chkPlaintext s then kw_port (targetWiring tls s)
      else chiPort s)"

definition nextKeeperWiring :: "bool \<Rightarrow> keeperState \<Rightarrow> keeperWiring \<times> keeperWiring" where
  "nextKeeperWiring tls s =
     (let target = targetWiring tls s;
          port = stepPort tls s;
          settled = (chiRolledOut s \<and> port = chiPort s);
          usesSecure = (chiPort s = KeeperSecurePort \<or> (\<not> settled \<and> chkSecure s \<and> chiExists s));
          usesPlaintext = (chiExists s \<and> chiPort s \<ge> 0 \<and> (chiPort s \<noteq> KeeperSecurePort \<or> \<not> settled))
      in (\<lparr>kw_secure = tls \<or> usesSecure, kw_plaintext = \<not> tls \<or> usesPlaintext, kw_port = port\<rparr>, target))"

section \<open>Reading and rendering the wiring\<close>

definition rolledOut :: "string option \<Rightarrow> string list \<Rightarrow> bool" where
  "rolledOut taskID completed = (case taskID of None \<Rightarrow> True | Some v \<Rightarrow> v \<in> set completed)"

definition chkPorts :: "'s chk \<Rightarrow> bool \<times> bool" where
  "chkPorts x =
     (case chk_configuration (chk_spec_of x) of
        None \<Rightarrow> (False, True)
      | Some conf \<Rightarrow>
          (case chk_clusters conf of
             [] \<Rightarrow> (False, True)
           | cluster # _ \<Rightarrow>
               (kc_secure cluster = Some True,
                (case kc_insecure cluster of None \<Rightarrow> True | Some v \<Rightarrow> v))))"

definition chiKeeperPort :: "'s chi \<Rightarrow> int" where
  "chiKeeperPort x =
     (case chi_configuration (chi_spec_of x) of
        None \<Rightarrow> - 1
      | Some conf \<Rightarrow>
          (case chi_zookeeper conf of
             None \<Rightarrow> - 1
           | Some zk \<Rightarrow>
               (case zk_nodes zk of
                  node # _ \<Rightarrow>
                    (case node_port node of
                       Some p \<Rightarrow> p
                     | None \<Rightarrow> if zk_keeper zk \<noteq> None then 0 else - 1)
                | [] \<Rightarrow> if zk_keeper zk \<noteq> None then 0 else - 1)))"

definition keeperZookeeper :: "('s, 'w) ctx \<Rightarrow> int \<Rightarrow> zookeeper_config" where
  "keeperZookeeper c port =
     (let zk = \<lparr>zk_session_timeout = 30000, zk_operation_timeout = 10000, zk_keeper = None, zk_nodes = []\<rparr>
      in if port = 0 then zk\<lparr>zk_keeper := Some (keeperCRName (ctx_name c))\<rparr>
         else zk\<lparr>zk_nodes := map (\<lambda>svc.
                \<lparr>node_host = clusterLocal svc (ctx_namespace c), node_port = Some port,
                 node_secure = Some (port = KeeperSecurePort)\<rparr>)
              (keeperClientServiceNames (ctx_name c))\<rparr>)"

text \<open>\<^verbatim>\<open>status == Completed\<close> and the last applied task done.\<close>

definition statusRolledOut :: "op_status option \<Rightarrow> string option \<Rightarrow> bool" where
  "statusRolledOut st taskID =
     (case st of None \<Rightarrow> False
      | Some s \<Rightarrow> os_state s = StCompleted \<and> rolledOut taskID (os_task_ids_completed s))"

definition stateOf :: "'s chk option \<Rightarrow> 's chi option \<Rightarrow> keeperState" where
  "stateOf k i =
     \<lparr>chkExists = (k \<noteq> None),
      chkRolledOut = (case k of None \<Rightarrow> False | Some x \<Rightarrow> statusRolledOut (chk_status x) (chk_task_id (chk_spec_of x))),
      chkSecure = (case k of None \<Rightarrow> False | Some x \<Rightarrow> fst (chkPorts x)),
      chkPlaintext = (case k of None \<Rightarrow> False | Some x \<Rightarrow> snd (chkPorts x)),
      chiExists = (i \<noteq> None),
      chiRolledOut = (case i of None \<Rightarrow> False | Some x \<Rightarrow> statusRolledOut (chi_status x) (chi_task_id (chi_spec_of x))),
      chiPort = (case i of None \<Rightarrow> - 1 | Some x \<Rightarrow> chiKeeperPort x)\<rparr>"

definition liveKeeperState :: "('s, 'w) ctx \<Rightarrow> ('s, 'w, keeperState) act" where
  "liveKeeperState c =
     bind (getOptional (keeperCRName (ctx_name c)) (get_chk c (keeperCRName (ctx_name c)))) (\<lambda>k.
     bind (getOptional (ctx_name c) (get_chi c (ctx_name c))) (\<lambda>i.
     ret (stateOf k i)))"

definition planKeeperWiring :: "('s, 'w) ctx \<Rightarrow> ('s, 'w, keeperWiring \<times> keeperWiring) act" where
  "planKeeperWiring c = bind (liveKeeperState c) (\<lambda>s. ret (nextKeeperWiring (tlsEnabled c) s))"

section \<open>The planner's contract\<close>

text \<open>
  Which of Keeper's client ports serves a given ClickHouse port: the secure one its own number,
  everything else (the operator's Keeper reference included) the plaintext one.
\<close>

definition served :: "int \<Rightarrow> bool \<times> bool \<Rightarrow> bool" where
  "served port ports = (if port = KeeperSecurePort then fst ports else snd ports)"

definition wiringPorts :: "keeperWiring \<Rightarrow> bool \<times> bool" where
  "wiringPorts k = (kw_secure k, kw_plaintext k)"

definition statePorts :: "keeperState \<Rightarrow> bool \<times> bool" where
  "statePorts s = (chkSecure s, chkPlaintext s)"

locale keeper_planner =
  fixes plan :: "bool \<Rightarrow> keeperState \<Rightarrow> keeperWiring \<times> keeperWiring"
  assumes step_port_nonneg: "0 \<le> kw_port (fst (plan tls s))"
    and step_serves_itself: "served (kw_port (fst (plan tls s))) (wiringPorts (fst (plan tls s)))"
    and keeps_current: "chiExists s \<Longrightarrow> 0 \<le> chiPort s \<Longrightarrow> served (chiPort s) (wiringPorts (fst (plan tls s)))"
    and keeps_secure: "chiExists s \<Longrightarrow> \<not> chiRolledOut s \<Longrightarrow> chkSecure s \<Longrightarrow> kw_secure (fst (plan tls s))"
    and keeps_plaintext:
      "chiExists s \<Longrightarrow> \<not> chiRolledOut s \<Longrightarrow> 0 \<le> chiPort s \<Longrightarrow> kw_plaintext (fst (plan tls s))"
    and moves_when_served:
      "chiExists s \<Longrightarrow> 0 \<le> chiPort s \<Longrightarrow> kw_port (fst (plan tls s)) \<noteq> chiPort s \<Longrightarrow>
         chkRolledOut s \<and> served (kw_port (fst (plan tls s))) (statePorts s)"
begin

text \<open>Whatever port is in use while ClickHouse rolls, the next step keeps serving it.\<close>

lemma keeps_used:
  assumes "chiExists s" and "0 \<le> chiPort s" and "0 \<le> p"
    and "p = chiPort s \<or> \<not> chiRolledOut s" and "served p (statePorts s)"
  shows "served p (wiringPorts (fst (plan tls s)))"
proof (cases "p = chiPort s")
  case True
  with assms keeps_current show ?thesis by simp
next
  case False
  with assms have "\<not> chiRolledOut s" by simp
  with assms show ?thesis
    using keeps_secure [of s tls] keeps_plaintext [of s tls]
    by (auto simp: served_def wiringPorts_def statePorts_def split: if_splits)
qed

text \<open>The planned port is served by what is applied, so a step may be taken without touching Keeper.\<close>

lemma port_served_before:
  assumes "chiExists s" and "0 \<le> chiPort s" and "served (chiPort s) (statePorts s)"
  shows "served (kw_port (fst (plan tls s))) (statePorts s)"
  using assms moves_when_served [of s tls] by (cases "kw_port (fst (plan tls s)) = chiPort s") auto

end

lemmas wiring_defs = nextKeeperWiring_def targetWiring_def stepPort_def Let_def
  served_def wiringPorts_def statePorts_def KeeperSecurePort_def KeeperPort_def

interpretation next_wiring: keeper_planner nextKeeperWiring
  by unfold_locales (auto simp: wiring_defs split: if_splits)

lemma chkPorts_default: "chk_configuration (chk_spec_of x) = None \<Longrightarrow> chkPorts x = (False, True)"
  by (simp add: chkPorts_def)

text \<open>Rendering then reading the port is the identity on the ports the planner uses.\<close>

lemma chiKeeperPort_keeperZookeeper:
  assumes "chi_configuration (chi_spec_of x) = Some conf" and "chi_zookeeper conf = Some (keeperZookeeper c port)"
  shows "chiKeeperPort x = port"
proof (cases "port = 0")
  case True
  with assms show ?thesis by (simp add: chiKeeperPort_def keeperZookeeper_def)
next
  case False
  obtain h hs where "keeperClientServiceNames (ctx_name c) = h # hs"
    using length_keeperHostNames [of "ctx_name c"]
    by (cases "keeperClientServiceNames (ctx_name c)") (auto simp: keeperClientServiceNames_def)
  with assms False show ?thesis by (simp add: chiKeeperPort_def keeperZookeeper_def)
qed

lemma zookeeper_hosts_covered:
  "node \<in> set (zk_nodes (keeperZookeeper c port)) \<Longrightarrow>
     node_host node \<in> set (keeperDNSNames (ctx_name c) (ctx_namespace c))"
  using keeperDNSNames_hosts
  by (fastforce simp: keeperZookeeper_def Let_def split: if_splits)

lemma emits_liveKeeperState [emits_rules]:
  "(\<And>n a. P (GotCHK n a)) \<Longrightarrow> (\<And>n a. P (GotCHI n a)) \<Longrightarrow> emits P (liveKeeperState c)"
  unfolding liveKeeperState_def by (intro emits_rules)

lemma emits_planKeeperWiring [emits_rules]:
  "(\<And>n a. P (GotCHK n a)) \<Longrightarrow> (\<And>n a. P (GotCHI n a)) \<Longrightarrow> emits P (planKeeperWiring c)"
  unfolding planKeeperWiring_def by (intro emits_rules)

end
