(* ===== verification/Store.thy ===== *)
theory Store
  imports Runtime Strconv
begin

text \<open>
  A concrete reconcile context: an in-memory cluster that stores what is applied and returns
  what is stored, a table for the operator's settings, and simple stand-ins for the library
  functions. The closed instances of the properties are evaluated on it; no property rests on
  it.
\<close>

definition table_settings :: "setting table settings_lib" where
  "table_settings =
     \<lparr>new_settings = [], set_setting = put,
      set_if_not_exists = (\<lambda>k v s. if map_of s k = None then put k v s else s),
      get_setting = map_of, setting_names = map fst,
      parse_settings = (\<lambda>t. if t = ''bad'' then None else Some [(t, Scalar ''1'')])\<rparr>"

lemma table_settings_laws: "settings_laws table_settings"
  by (auto simp: settings_laws_def table_settings_def)

record cluster =
  cl_chi :: "setting table chi table"
  cl_chk :: "setting table chk table"
  cl_secrets :: "secret table"
  cl_services :: "service table"
  cl_policies :: "network_policy table"
  cl_certificates :: "certificate table"
  cl_issuers :: "issuer table"
  cl_monitors :: "pod_monitor table"
  cl_instance :: "inst option"
  cl_classes :: "storage_class_obj table"
  cl_pvcs :: "pvc list"
  cl_pods :: "pod list"
  cl_approved :: "string list"
  cl_pending :: "pending_action list"
  cl_deleting :: "(kind \<times> string) list"

definition lookup_in :: "'a table \<Rightarrow> string \<Rightarrow> 'w \<Rightarrow> (api_error + 'a) \<times> 'w" where
  "lookup_in m n w = (case map_of m n of None \<Rightarrow> (Inl NotFound, w) | Some x \<Rightarrow> (Inr x, w))"

definition remove_from :: "string \<Rightarrow> 'a table \<Rightarrow> 'a table" where
  "remove_from n m = filter (\<lambda>(k, _). k \<noteq> n) m"

text \<open>Applying an object leaves the status the operator wrote alone.\<close>

fun store_obj :: "setting table obj \<Rightarrow> cluster \<Rightarrow> cluster" where
  "store_obj (OCHI x) w = w\<lparr>cl_chi := put (chi_name x)
     (x\<lparr>chi_status := Option.bind (map_of (cl_chi w) (chi_name x)) chi_status\<rparr>) (cl_chi w)\<rparr>"
| "store_obj (OCHK x) w = w\<lparr>cl_chk := put (chk_name x)
     (x\<lparr>chk_status := Option.bind (map_of (cl_chk w) (chk_name x)) chk_status\<rparr>) (cl_chk w)\<rparr>"
| "store_obj (OSecret x) w = w\<lparr>cl_secrets := put (secret_name x) x (cl_secrets w)\<rparr>"
| "store_obj (OCertificate x) w = w\<lparr>cl_certificates := put (cert_name x) x (cl_certificates w)\<rparr>"
| "store_obj (OIssuer x) w = w\<lparr>cl_issuers := put (iss_name x) x (cl_issuers w)\<rparr>"
| "store_obj (OPolicy x) w = w\<lparr>cl_policies := put (np_name x) x (cl_policies w)\<rparr>"
| "store_obj (OPodMonitor x) w = w\<lparr>cl_monitors := put (pm_name x) x (cl_monitors w)\<rparr>"

fun remove_obj :: "kind \<Rightarrow> string \<Rightarrow> cluster \<Rightarrow> cluster" where
  "remove_obj KCHI n w = w\<lparr>cl_chi := remove_from n (cl_chi w)\<rparr>"
| "remove_obj KCHK n w = w\<lparr>cl_chk := remove_from n (cl_chk w)\<rparr>"
| "remove_obj KSecret n w = w\<lparr>cl_secrets := remove_from n (cl_secrets w)\<rparr>"
| "remove_obj KCertificate n w = w\<lparr>cl_certificates := remove_from n (cl_certificates w)\<rparr>"
| "remove_obj KIssuer n w = w\<lparr>cl_issuers := remove_from n (cl_issuers w)\<rparr>"
| "remove_obj KPolicy n w = w\<lparr>cl_policies := remove_from n (cl_policies w)\<rparr>"
| "remove_obj KPodMonitor n w = w\<lparr>cl_monitors := remove_from n (cl_monitors w)\<rparr>"
| "remove_obj KPVC n w = w\<lparr>cl_pvcs := filter (\<lambda>p. pvc_name p \<noteq> n) (cl_pvcs w)\<rparr>"
| "remove_obj KPod n w = w"

definition has_obj :: "kind \<Rightarrow> string \<Rightarrow> cluster \<Rightarrow> bool" where
  "has_obj k n w =
     (if k = KCHI then map_of (cl_chi w) n \<noteq> None
      else if k = KCHK then map_of (cl_chk w) n \<noteq> None else False)"

definition empty_cluster :: cluster where
  "empty_cluster = \<lparr>cl_chi = [], cl_chk = [], cl_secrets = [], cl_services = [], cl_policies = [],
     cl_certificates = [], cl_issuers = [], cl_monitors = [], cl_instance = None, cl_classes = [],
     cl_pvcs = [], cl_pods = [], cl_approved = [], cl_pending = [], cl_deleting = []\<rparr>"

definition sample_instance :: inst where
  "sample_instance =
     \<lparr>inst_topology_type = ''replicated'', inst_version = [], inst_topology = [], inst_parameters = [],
      inst_components = [(''engine'', zero_component)], inst_user_secret_ref = None, inst_generation = 1,
      inst_phase = Provisioning, inst_message = [], inst_pending = [], inst_conditions = []\<rparr>"

definition sample_parameters :: clickhouse_parameters where
  "sample_parameters =
     \<lparr>par_configuration = [], par_pod_monitor = [], par_tls = None, par_reclaim_policy = []\<rparr>"

definition tls_on :: "string \<Rightarrow> clickhouse_parameters" where
  "tls_on mode = sample_parameters\<lparr>par_tls :=
     Some \<lparr>tls_enabled_value = ''enabled'', tls_mode_value = mode, tls_issuer_ref = None\<rparr>\<rparr>"

definition sample_provider :: provider_spec where
  "sample_provider =
     \<lparr>release_version = ''0.3.0'', bundle_name = [], bundle_versions = (\<lambda>_. None),
      image_for_version = (\<lambda>_ v. ''repo:'' @ v), default_image = (\<lambda>n. n @ '':25.3.5'')\<rparr>"

definition default_ports :: operator_ports where
  "default_ports = \<lparr>http_name = ''http'', http_number = 8123, tcp_name = ''tcp'', tcp_number = 9000,
     https_name = ''https'', https_number = 8443, tls_name = ''secureclient'', tls_number = 9440\<rparr>"

definition sim_quantity :: "string \<Rightarrow> quantity" where
  "sim_quantity t =
     (case map_of [(''1'', 1000), (''500m'', 500), (''1Gi'', 1073741824000), (''4Gi'', 4294967296000),
                   (''10Gi'', 10737418240000), (''25Gi'', 26843545600000)] t of
        None \<Rightarrow> 0 | Some q \<Rightarrow> q)"

text \<open>The context of an Instance \<^verbatim>\<open>db\<close> in namespace \<^verbatim>\<open>ns\<close> with the given parameters.\<close>

definition sample_ctx :: "clickhouse_parameters \<Rightarrow> (setting table, cluster) ctx" where
  "sample_ctx params =
     \<lparr>ctx_name = ''db'', ctx_namespace = ''ns'', ctx_instance = sample_instance,
      decode_parameters = (\<lambda>_. (True, params)),
      pod_labels_of = (\<lambda>n. [(''component'', n)]),
      provider_spec_of = Inr sample_provider,
      spread_constraints = (\<lambda>p _. case p of None \<Rightarrow> [] | Some x \<Rightarrow> pol_spread x),
      settings_lib_of = table_settings, operator_ports_of = default_ports,
      must_parse = sim_quantity,
      parse_version = (\<lambda>t. if t = ''25.3.5'' then Some \<lparr>ver_original = t, ver_segments = [25, 3, 5]\<rparr>
                           else if t = ''24.8.1'' then Some \<lparr>ver_original = t, ver_segments = [24, 8, 1]\<rparr>
                           else None),
      normalized_ranges = (\<lambda>rs. rs), selector_labels = (\<lambda>_. Some [(''app.kubernetes.io/name'', ''operator'')]),
      sha256 = (\<lambda>s. take 32 (s @ replicate 32 (CHR ''0''))),
      chi_spec_json = (\<lambda>s. Inr (if chi_task_id s = None then ''chi'' else ''chi-task'')),
      chk_spec_json = (\<lambda>s. Inr (if chk_task_id s = None then ''chk'' else ''chk-task'')),
      inputs_json = (\<lambda>(v, t, p, cs, creds). Inr (v @ t @ p @ creds)),
      set_condition = (\<lambda>x cs. (True, x # filter (\<lambda>y. cond_type y \<noteq> cond_type x) cs)),
      same_pending = (\<lambda>a b. map pending_token a = map pending_token b),
      maintenance_names_of = \<lparr>condition_maintenance_pending = ''MaintenancePending'',
        reason_awaiting_approval = ''AwaitingApproval'', reason_no_actions_pending = ''NoActionsPending''\<rparr>,
      to_instance_status = (\<lambda>x. x),
      getenv = (\<lambda>_. []), namespace_file = Some ''clickhouse'',
      api_get_chi = (\<lambda>n w. lookup_in (cl_chi w) n w),
      api_get_chk = (\<lambda>n w. lookup_in (cl_chk w) n w),
      api_get_secret = (\<lambda>n w. lookup_in (cl_secrets w) n w),
      api_get_service = (\<lambda>n w. lookup_in (cl_services w) n w),
      api_get_policy = (\<lambda>n w. lookup_in (cl_policies w) n w),
      api_get_instance = (\<lambda>n w. case cl_instance w of None \<Rightarrow> (Inr sample_instance, w) | Some i \<Rightarrow> (Inr i, w)),
      api_get_storage_class = (\<lambda>n w. lookup_in (cl_classes w) n w),
      api_exists = (\<lambda>k n w. (Inr (has_obj k n w), w)),
      api_list_pvcs = (\<lambda>(k, v) w. (Inr (filter (\<lambda>p. map_of (pvc_labels p) k = Some v) (cl_pvcs w)), w)),
      api_list_pods = (\<lambda>_ w. (Inr (cl_pods w), w)),
      api_apply = (\<lambda>x w. (None, store_obj x w)),
      api_delete = (\<lambda>k n w. (None, remove_obj k n w)),
      api_json_patch = (\<lambda>_ _ _ w. (None, w)),
      api_label_pvc = (\<lambda>_ _ _ w. (None, w)),
      api_update_status = (\<lambda>i w. (None, w\<lparr>cl_instance := Some i\<rparr>)),
      api_random = (\<lambda>n w. (Inr (replicate n (CHR ''r'')), w)),
      api_request_maintenance = (\<lambda>a w. if pending_token a \<in> set (cl_approved w) then (True, w)
                                       else (False, w\<lparr>cl_pending := a # cl_pending w\<rparr>)),
      api_maintenance_requested = (\<lambda>w. (True, w)),
      api_pending_maintenance = (\<lambda>w. (cl_pending w, w))\<rparr>"

lemma sample_ctx_simps [simp]:
  "ctx_name (sample_ctx params) = ''db''"
  "ctx_namespace (sample_ctx params) = ''ns''"
  "ctx_instance (sample_ctx params) = sample_instance"
  "decode_parameters (sample_ctx params) = (\<lambda>_. (True, params))"
  "pod_labels_of (sample_ctx params) = (\<lambda>n. [(''component'', n)])"
  "provider_spec_of (sample_ctx params) = Inr sample_provider"
  "spread_constraints (sample_ctx params) = (\<lambda>p _. case p of None \<Rightarrow> [] | Some x \<Rightarrow> pol_spread x)"
  "settings_lib_of (sample_ctx params) = table_settings"
  "operator_ports_of (sample_ctx params) = default_ports"
  "must_parse (sample_ctx params) = sim_quantity"
  "parse_version (sample_ctx params) = (\<lambda>t. if t = ''25.3.5'' then Some \<lparr>ver_original = t, ver_segments = [25, 3, 5]\<rparr> else if t = ''24.8.1'' then Some \<lparr>ver_original = t, ver_segments = [24, 8, 1]\<rparr> else None)"
  "normalized_ranges (sample_ctx params) = (\<lambda>rs. rs)"
  "selector_labels (sample_ctx params) = (\<lambda>_. Some [(''app.kubernetes.io/name'', ''operator'')])"
  "sha256 (sample_ctx params) = (\<lambda>s. take 32 (s @ replicate 32 (CHR ''0'')))"
  "chi_spec_json (sample_ctx params) = (\<lambda>s. Inr (if chi_task_id s = None then ''chi'' else ''chi-task''))"
  "chk_spec_json (sample_ctx params) = (\<lambda>s. Inr (if chk_task_id s = None then ''chk'' else ''chk-task''))"
  "inputs_json (sample_ctx params) = (\<lambda>(v, t, p, cs, creds). Inr (v @ t @ p @ creds))"
  "set_condition (sample_ctx params) = (\<lambda>x cs. (True, x # filter (\<lambda>y. cond_type y \<noteq> cond_type x) cs))"
  "same_pending (sample_ctx params) = (\<lambda>a b. map pending_token a = map pending_token b)"
  "to_instance_status (sample_ctx params) = (\<lambda>x. x)"
  "getenv (sample_ctx params) = (\<lambda>_. [])"
  "namespace_file (sample_ctx params) = Some ''clickhouse''"
  "api_get_chi (sample_ctx params) = (\<lambda>n w. lookup_in (cl_chi w) n w)"
  "api_get_chk (sample_ctx params) = (\<lambda>n w. lookup_in (cl_chk w) n w)"
  "api_get_secret (sample_ctx params) = (\<lambda>n w. lookup_in (cl_secrets w) n w)"
  "api_get_service (sample_ctx params) = (\<lambda>n w. lookup_in (cl_services w) n w)"
  "api_get_policy (sample_ctx params) = (\<lambda>n w. lookup_in (cl_policies w) n w)"
  "api_get_instance (sample_ctx params) = (\<lambda>n w. case cl_instance w of None \<Rightarrow> (Inr sample_instance, w) | Some i \<Rightarrow> (Inr i, w))"
  "api_get_storage_class (sample_ctx params) = (\<lambda>n w. lookup_in (cl_classes w) n w)"
  "api_exists (sample_ctx params) = (\<lambda>k n w. (Inr (has_obj k n w), w))"
  "api_list_pvcs (sample_ctx params) = (\<lambda>(k, v) w. (Inr (filter (\<lambda>p. map_of (pvc_labels p) k = Some v) (cl_pvcs w)), w))"
  "api_list_pods (sample_ctx params) = (\<lambda>_ w. (Inr (cl_pods w), w))"
  "api_apply (sample_ctx params) = (\<lambda>x w. (None, store_obj x w))"
  "api_delete (sample_ctx params) = (\<lambda>k n w. (None, remove_obj k n w))"
  "api_json_patch (sample_ctx params) = (\<lambda>_ _ _ w. (None, w))"
  "api_label_pvc (sample_ctx params) = (\<lambda>_ _ _ w. (None, w))"
  "api_update_status (sample_ctx params) = (\<lambda>i w. (None, w\<lparr>cl_instance := Some i\<rparr>))"
  "api_random (sample_ctx params) = (\<lambda>n w. (Inr (replicate n (CHR ''r'')), w))"
  "api_request_maintenance (sample_ctx params) = (\<lambda>a w. if pending_token a \<in> set (cl_approved w) then (True, w) else (False, w\<lparr>cl_pending := a # cl_pending w\<rparr>))"
  "api_maintenance_requested (sample_ctx params) = (\<lambda>w. (True, w))"
  "api_pending_maintenance (sample_ctx params) = (\<lambda>w. (cl_pending w, w))"
  by (simp_all add: sample_ctx_def)

lemma sample_reads_keep [total_rules]:
  "keeps (get_chi (sample_ctx p) n)" "keeps (get_chk (sample_ctx p) n)" "keeps (get_secret (sample_ctx p) n)"
  "keeps (get_service (sample_ctx p) n)" "keeps (get_policy (sample_ctx p) n)" "keeps (get_instance (sample_ctx p) n)"
  by (auto simp: keeps_def call_defs lookup_in_def split: option.splits)

lemma keeps_getOptional [total_rules]: "keeps m \<Longrightarrow> keeps (getOptional name m)"
  by (simp add: keeps_def)

lemma lookup_cases: "fst (lookup_in m k w) = Inl NotFound \<or> (\<exists>x. fst (lookup_in m k w) = Inr x)"
  by (simp add: lookup_in_def split: option.splits)

lemma sample_optional_reads [total_rules]:
  "succeeds (getOptional name (get_chi (sample_ctx p) n))" "succeeds (getOptional name (get_chk (sample_ctx p) n))"
  "succeeds (getOptional name (get_secret (sample_ctx p) n))" "succeeds (getOptional name (get_service (sample_ctx p) n))"
  by (simp_all add: succeeds_def call_defs lookup_in_def split: option.splits)

end
