(* ===== verification/Tls.thy ===== *)
theory Tls
  imports Parameters Names Keeper_Wiring Store
begin

text \<open>
  \<^verbatim>\<open>tls.go\<close>: the certificates of an Instance (issuer, CA chain, server certificate), the TLS part
  of the CHI, the clean-up once TLS is off, and the watch on the client Service's address.
\<close>

section \<open>Deleting\<close>

definition kind_type :: "kind \<Rightarrow> string" where
  "kind_type k = (case k of KCHI \<Rightarrow> ''*v1.ClickHouseInstallation'' | KCHK \<Rightarrow> ''*v1.ClickHouseKeeperInstallation''
     | KSecret \<Rightarrow> ''*v1.Secret'' | KCertificate \<Rightarrow> ''*v1.Certificate'' | KIssuer \<Rightarrow> ''*v1.Issuer''
     | KPolicy \<Rightarrow> ''*v1.NetworkPolicy'' | KPodMonitor \<Rightarrow> ''*v1.PodMonitor'' | KPVC \<Rightarrow> ''*v1.PersistentVolumeClaim''
     | KPod \<Rightarrow> ''*v1.Pod'')"

definition deleteAll :: "('s, 'w) ctx \<Rightarrow> (kind \<times> string) list \<Rightarrow> ('s, 'w, unit) act" where
  "deleteAll c objects = for_each objects (\<lambda>(k, n).
     bind (delete_obj c k n) (\<lambda>r. case r of
       None \<Rightarrow> ret ()
     | Some NoMatch \<Rightarrow> ret ()
     | Some e \<Rightarrow> throw (Errorf ''delete %T %s: %w'' [AStr (kind_type k), AStr n, AErr (ApiErr e)])))"

definition caChain :: "string \<Rightarrow> (kind \<times> string) list" where
  "caChain n = [(KCertificate, caCertName n), (KIssuer, caIssuerName n), (KIssuer, selfSignedIssuerName n),
     (KSecret, caSecretName n)]"

definition tlsResources :: "string \<Rightarrow> (kind \<times> string) list" where
  "tlsResources n = [(KCertificate, serverCertName n), (KSecret, serverSecretName n)] @ caChain n"

definition deleteTLSResources :: "('s, 'w) ctx \<Rightarrow> ('s, 'w, unit) act" where
  "deleteTLSResources c = deleteAll c (tlsResources (ctx_name c))"

definition deleteCAChain :: "('s, 'w) ctx \<Rightarrow> ('s, 'w, unit) act" where
  "deleteCAChain c =
     bind (getOptional (caSecretName (ctx_name c)) (get_secret c (caSecretName (ctx_name c)))) (\<lambda>found.
       if found = None then ret () else deleteAll c (caChain (ctx_name c)))"

section \<open>Issuing\<close>

definition certManagerGroup :: string where "certManagerGroup = ''cert-manager.io''"

definition issuerKind :: string where "issuerKind = ''Issuer''"

definition caDuration :: int where "caDuration = 10 * 365 * 24"

definition managed_issuer :: "string \<Rightarrow> issuer_ref" where
  "managed_issuer n = \<lparr>ref_name = n, ref_kind = issuerKind, ref_group = certManagerGroup\<rparr>"

definition caCertificate :: "string \<Rightarrow> certificate" where
  "caCertificate n = \<lparr>cert_name = caCertName n, cert_is_ca = True, cert_duration_hours = Some caDuration,
     cert_common_name = caCertName n, cert_secret_name = caSecretName n, cert_dns_names = [],
     cert_ip_addresses = [], cert_issuer = managed_issuer (selfSignedIssuerName n)\<rparr>"

definition ensureIssuer :: "('s, 'w) ctx \<Rightarrow> issuer_ref option \<Rightarrow> ('s, 'w, issuer_ref) act" where
  "ensureIssuer c override =
     (let n = ctx_name c in
      case (case override of Some r \<Rightarrow> if ref_name r \<noteq> [] then Some r else None | None \<Rightarrow> None) of
        Some r \<Rightarrow>
          andthen (deleteCAChain c)
            (ret \<lparr>ref_name = ref_name r,
                  ref_kind = (if ref_kind r = [] then issuerKind else ref_kind r),
                  ref_group = (if ref_group r = [] then certManagerGroup else ref_group r)\<rparr>)
      | None \<Rightarrow>
          andthen (must (\<lambda>e. Errorf ''apply self-signed issuer: %w'' [AErr (ApiErr e)])
            (apply_obj c (OIssuer \<lparr>iss_name = selfSignedIssuerName n, iss_config = SelfSigned\<rparr>)))
          (andthen (must (\<lambda>e. Errorf ''apply CA certificate: %w'' [AErr (ApiErr e)])
            (apply_obj c (OCertificate (caCertificate n))))
          (andthen (must (\<lambda>e. Errorf ''apply CA issuer: %w'' [AErr (ApiErr e)])
            (apply_obj c (OIssuer \<lparr>iss_name = caIssuerName n, iss_config = CAIssuer (caSecretName n)\<rparr>)))
          (ret (managed_issuer (caIssuerName n))))))"

definition externalAddresses :: "('s, 'w) ctx \<Rightarrow> ('s, 'w, string list \<times> string list) act" where
  "externalAddresses c =
     bind (getOptional (clientServiceName (ctx_name c)) (get_service c (clientServiceName (ctx_name c)))) (\<lambda>found.
       case found of
         None \<Rightarrow> ret ([], [])
       | Some svc \<Rightarrow>
           if svc_type svc \<noteq> ''LoadBalancer'' then ret ([], [])
           else ret (filter (\<lambda>h. h \<noteq> []) (map ing_hostname (svc_lb_ingress svc)),
                     filter (\<lambda>i. i \<noteq> []) (map ing_ip (svc_lb_ingress svc))))"

text \<open>The names of the server certificate that do not depend on the cluster's state.\<close>

definition certificateNames :: "('s, 'w) ctx \<Rightarrow> string list" where
  "certificateNames c =
     (let replicas = (if replicated c then replicasCount c else 1)
      in serverDNSNames (ctx_name c) (ctx_namespace c) replicas @
         (if replicated c then keeperDNSNames (ctx_name c) (ctx_namespace c) else []))"

definition serverCertificate :: "('s, 'w) ctx \<Rightarrow> issuer_ref \<Rightarrow> string list \<Rightarrow> string list \<Rightarrow> certificate" where
  "serverCertificate c issuerRef externalNames externalIPs =
     \<lparr>cert_name = serverCertName (ctx_name c), cert_is_ca = False, cert_duration_hours = None,
      cert_common_name = certificateNames c ! 0, cert_secret_name = serverSecretName (ctx_name c),
      cert_dns_names = certificateNames c @ externalNames, cert_ip_addresses = externalIPs,
      cert_issuer = issuerRef\<rparr>"

definition ensureServerCertificate :: "('s, 'w) ctx \<Rightarrow> issuer_ref \<Rightarrow> ('s, 'w, unit) act" where
  "ensureServerCertificate c issuerRef =
     bind (externalAddresses c) (\<lambda>(externalNames, externalIPs).
       must (\<lambda>e. Errorf ''apply server certificate: %w'' [AErr (ApiErr e)])
         (apply_obj c (OCertificate (serverCertificate c issuerRef externalNames externalIPs))))"

definition serverCertificateIssued :: "('s, 'w) ctx \<Rightarrow> ('s, 'w, bool) act" where
  "serverCertificateIssued c =
     bind (getOptional (serverSecretName (ctx_name c)) (get_secret c (serverSecretName (ctx_name c)))) (\<lambda>found.
       ret (case found of None \<Rightarrow> False | Some s \<Rightarrow> get0 (secret_data s) ''tls.crt'' \<noteq> []))"

text \<open>
  \<^verbatim>\<open>tlsParameters(c).IssuerRef\<close> panics on a nil pointer; the caller checks \<open>tlsEnabled\<close>
  first (\<open>tlsEnabled_params\<close>).
\<close>

definition ensureTLS :: "('s, 'w) ctx \<Rightarrow> ('s, 'w, unit) act" where
  "ensureTLS c =
     (case tlsParameters c of
        None \<Rightarrow> throw (LibErr ''panic: nil pointer dereference'')
      | Some params \<Rightarrow>
          bind (ensureIssuer c (tls_issuer_ref params)) (\<lambda>issuerRef.
          andthen (ensureServerCertificate c issuerRef)
          (bind (serverCertificateIssued c) (\<lambda>issued.
             if \<not> issued then throw (Wait ''waiting for cert-manager to issue the server certificate'' [] 15)
             else ret ()))))"

definition readCACert :: "('s, 'w) ctx \<Rightarrow> ('s, 'w, string) act" where
  "readCACert c =
     bind (get_secret c (serverSecretName (ctx_name c))) (\<lambda>r. case r of
       Inl e \<Rightarrow> ret []
     | Inr s \<Rightarrow> ret (get0 (secret_data s) ''ca.crt''))"

section \<open>The watch on the client Service\<close>

definition labelOperatorService :: string where "labelOperatorService = ''clickhouse.altinity.com/Service''"

definition operatorServiceCR :: string where "operatorServiceCR = ''chi''"

definition instanceForClientService :: "service \<Rightarrow> (string \<times> string) list" where
  "instanceForClientService x =
     (let chiName = get0 (svc_labels x) LabelCHIName
      in if chiName = [] \<or> get0 (svc_labels x) labelOperatorService \<noteq> operatorServiceCR \<or>
            svc_name x \<noteq> clientServiceName chiName
         then [] else [(svc_namespace x, chiName)])"

text \<open>A watch event; \<open>None\<close> is an object that is not a Service.\<close>

datatype watch_event =
    CreateEvent "service option"
  | UpdateEvent "service option" "service option"
  | DeleteEvent
  | GenericEvent

definition isLoadBalancer :: "service option \<Rightarrow> bool" where
  "isLoadBalancer x = (case x of None \<Rightarrow> False | Some svc \<Rightarrow> svc_type svc = ''LoadBalancer'')"

fun loadBalancerAddressChanged :: "watch_event \<Rightarrow> bool" where
  "loadBalancerAddressChanged (CreateEvent x) = isLoadBalancer x"
| "loadBalancerAddressChanged DeleteEvent = False"
| "loadBalancerAddressChanged GenericEvent = False"
| "loadBalancerAddressChanged (UpdateEvent old new) =
     (case (old, new) of
        (Some o', Some n) \<Rightarrow> isLoadBalancer new \<and> svc_lb_ingress o' \<noteq> svc_lb_ingress n
      | _ \<Rightarrow> False)"

section \<open>Rendering\<close>

definition secretFileSetting :: "string \<Rightarrow> string \<Rightarrow> setting" where
  "secretFileSetting secretName key = FromSecret secretName key"

definition opensslXML :: "string \<Rightarrow> string" where
  "opensslXML secretName =
     (let base = ''/etc/clickhouse-server/secrets.d'';
          file = (\<lambda>f k. base @ ''/'' @ f @ ''/'' @ secretName @ ''/'' @ k)
      in concat (map (\<lambda>l. l @ [char_of (10 :: nat)])
       [''<clickhouse>'',
        ''    <openSSL>'',
        ''        <server>'',
        ''            <certificateFile>'' @ file ''server.crt'' ''tls.crt'' @ ''</certificateFile>'',
        ''            <privateKeyFile>'' @ file ''server.key'' ''tls.key'' @ ''</privateKeyFile>'',
        ''            <caConfig>'' @ file ''ca.crt'' ''ca.crt'' @ ''</caConfig>'',
        ''            <verificationMode>none</verificationMode>'',
        ''            <cacheSessions>true</cacheSessions>'',
        ''            <disableProtocols>sslv2,sslv3</disableProtocols>'',
        ''            <preferServerCiphers>true</preferServerCiphers>'',
        ''        </server>'',
        ''        <client>'',
        ''            <caConfig>'' @ file ''ca.crt'' ''ca.crt'' @ ''</caConfig>'',
        ''            <loadDefaultCAFile>true</loadDefaultCAFile>'',
        ''            <verificationMode>relaxed</verificationMode>'',
        ''            <cacheSessions>true</cacheSessions>'',
        ''            <disableProtocols>sslv2,sslv3</disableProtocols>'',
        ''            <preferServerCiphers>true</preferServerCiphers>'',
        ''            <invalidCertificateHandler>'',
        ''                <name>RejectCertificateHandler</name>'',
        ''            </invalidCertificateHandler>'',
        ''        </client>'',
        ''    </openSSL>'',
        ''</clickhouse>'']))"

definition buildTLSFiles :: "('s, 'w) ctx \<Rightarrow> string \<Rightarrow> 's" where
  "buildTLSFiles c secretName =
     (let L = settings_lib_of c
      in fold (\<lambda>(k, v). set_setting L k v)
           [(''openssl.xml'', Scalar (opensslXML secretName)),
            (''server.crt'', secretFileSetting secretName ''tls.crt''),
            (''server.key'', secretFileSetting secretName ''tls.key''),
            (''ca.crt'', secretFileSetting secretName ''ca.crt'')]
           (new_settings L))"

text \<open>
  The CHI's files are set, and the settings and the cluster the caller holds are updated.
\<close>

definition applyTLSToCHISpec ::
    "('s, 'w) ctx \<Rightarrow> string \<Rightarrow> 's \<Rightarrow> chi_cluster \<Rightarrow> 's option \<times> 's \<times> chi_cluster" where
  "applyTLSToCHISpec c instanceName settings cluster =
     (let L = settings_lib_of c
      in (Some (buildTLSFiles c (serverSecretName instanceName)),
          fold (\<lambda>(k, v). set_setting L k v)
            [(''https_port'', Scalar (itoa HTTPSPort)),
             (''tcp_port_secure'', Scalar (itoa TCPSecurePort)),
             (''interserver_https_port'', Scalar (itoa InterserverHTTPSPort)),
             (''interserver_http_port'', Scalar ''_removed_'')] settings,
          cluster\<lparr>cc_secure := Some True\<rparr>))"

section \<open>Clean-up\<close>

definition files_use_certificate :: "'s settings_lib \<Rightarrow> 's option \<Rightarrow> bool" where
  "files_use_certificate L files = (case files of None \<Rightarrow> False | Some f \<Rightarrow> has_setting L f ''server.crt'')"

definition chi_uses_certificate :: "'s settings_lib \<Rightarrow> 's chi \<Rightarrow> bool" where
  "chi_uses_certificate L x =
     (case chi_configuration (chi_spec_of x) of None \<Rightarrow> False | Some conf \<Rightarrow> files_use_certificate L (chi_files conf))"

definition chk_uses_certificate :: "'s settings_lib \<Rightarrow> 's chk \<Rightarrow> bool" where
  "chk_uses_certificate L x =
     (case chk_configuration (chk_spec_of x) of None \<Rightarrow> False | Some conf \<Rightarrow> files_use_certificate L (chk_files conf))"

definition mounts :: "string \<Rightarrow> pod list \<Rightarrow> bool" where
  "mounts secretName pods = list_ex (\<lambda>p. Some secretName \<in> set (pod_secret_volumes p)) pods"

fun mountedBy :: "('s, 'w) ctx \<Rightarrow> string \<Rightarrow> (string \<times> string) list \<Rightarrow> ('s, 'w, bool) act" where
  "mountedBy c secretName [] = ret False"
| "mountedBy c secretName (sel # sels) =
     bind (list_pods c sel) (\<lambda>r. case r of
       Inl e \<Rightarrow> throw (Errorf ''list pods: %w'' [AErr (ApiErr e)])
     | Inr pods \<Rightarrow> if mounts secretName pods then ret True else mountedBy c secretName sels)"

definition podSelectors :: "string \<Rightarrow> (string \<times> string) list" where
  "podSelectors n = [(LabelCHIName, n), (LabelCHKName, keeperCRName n)]"

definition serverSecretMounted :: "('s, 'w) ctx \<Rightarrow> ('s, 'w, bool) act" where
  "serverSecretMounted c = mountedBy c (serverSecretName (ctx_name c)) (podSelectors (ctx_name c))"

definition cleanupTLS :: "('s, 'w) ctx \<Rightarrow> 's chi \<Rightarrow> ('s, 'w, unit) act" where
  "cleanupTLS c current =
     (let n = ctx_name c; L = settings_lib_of c in
      if chi_uses_certificate L current then ret ()
      else bind (getOptional (keeperCRName n) (get_chk c (keeperCRName n))) (\<lambda>keeper.
        if (case keeper of None \<Rightarrow> False | Some k \<Rightarrow> chk_uses_certificate L k) then ret ()
        else bind (serverSecretMounted c) (\<lambda>mounted.
          if mounted then ret ()
          else bind (getOptional (serverSecretName n) (get_secret c (serverSecretName n))) (\<lambda>found.
            bind (getOptional (caSecretName n) (get_secret c (caSecretName n))) (\<lambda>caFound.
              if found = None \<and> caFound = None then ret () else deleteTLSResources c)))))"

section \<open>Lemmas\<close>

lemma tlsEnabled_params: "tlsEnabled c \<Longrightarrow> \<exists>p. tlsParameters c = Some p"
  by (auto simp: tlsEnabled_def split: option.splits)

lemma emits_deleteAll [emits_rules]:
  "(\<And>k n r. (k, n) \<in> set objects \<Longrightarrow> P (Deleted k n r)) \<Longrightarrow> emits P (deleteAll c objects)"
  unfolding deleteAll_def by (rule emits_for_each) (auto intro!: emits_rules)

lemma emits_mountedBy [emits_rules]: "(\<And>s r. P (ListedPods s r)) \<Longrightarrow> emits P (mountedBy c n sels)"
  by (induction sels) (auto intro!: emits_rules)

lemma mountedBy_False:
  "result (mountedBy c n sels) w = Inr False \<Longrightarrow> sel \<in> set sels \<Longrightarrow>
     \<exists>pods. ListedPods sel (Inr pods) \<in> set (events (mountedBy c n sels) w) \<and> \<not> mounts n pods"
proof (induction sels arbitrary: w)
  case (Cons s sels)
  then obtain pods where pods: "fst (api_list_pods c s w) = Inr pods" "\<not> mounts n pods"
    and rest: "result (mountedBy c n sels) (snd (api_list_pods c s w)) = Inr False"
    by (auto simp: returns list_pods_def split: sum.splits if_splits)
  with Cons show ?case by (cases "sel = s") (auto simp: events_bind list_pods_def)
qed simp

lemma certificateNames_service:
  "svc \<in> set (clientServiceName (ctx_name c) # replicaServiceNames (ctx_name c) (if replicated c then replicasCount c else 1)) \<Longrightarrow>
     clusterLocal svc (ctx_namespace c) \<in> set (certificateNames c)"
  by (auto simp: certificateNames_def serverDNSNames_def Let_def intro: serviceDNSNames_covers(2) simp del: list.set_map)

lemma certificateNames_keeper:
  "replicated c \<Longrightarrow> node \<in> set (zk_nodes (keeperZookeeper c port)) \<Longrightarrow> node_host node \<in> set (certificateNames c)"
  using zookeeper_hosts_covered by (fastforce simp: certificateNames_def Let_def)

lemma certificateNames_head: "certificateNames c ! 0 = clientServiceName (ctx_name c)"
  by (simp add: certificateNames_def serverDNSNames_def serviceDNSNames_def Let_def)

lemma ensureServerCertificate_events:
  "e \<in> set (events (ensureServerCertificate c ref) w) \<longleftrightarrow>
     e \<in> set (events (externalAddresses c) w) \<or>
     (\<exists>names ips. result (externalAddresses c) w = Inr (names, ips) \<and>
        e \<in> set (events (apply_obj c (OCertificate (serverCertificate c ref names ips)))
              (world (externalAddresses c) w)))"
  by (auto simp: ensureServerCertificate_def in_events)

lemma externalAddresses_events [simp]:
  "events (externalAddresses c) w = [GotService (clientServiceName (ctx_name c))
     (fst (api_get_service c (clientServiceName (ctx_name c)) w))]"
  by (auto simp: externalAddresses_def get_service_def run_simps split: sum.splits api_error.splits option.splits)

lemma externalAddresses_result:
  "result (externalAddresses c) w = Inr (names, ips) \<Longrightarrow>
     fst (api_get_service c (clientServiceName (ctx_name c)) w) = Inr svc \<Longrightarrow> svc_type svc = ''LoadBalancer'' \<Longrightarrow>
     ing \<in> set (svc_lb_ingress svc) \<Longrightarrow>
     (ing_hostname ing \<noteq> [] \<longrightarrow> ing_hostname ing \<in> set names) \<and> (ing_ip ing \<noteq> [] \<longrightarrow> ing_ip ing \<in> set ips)"
  by (auto simp: externalAddresses_def get_service_def run_simps split: sum.splits)

lemma ensureServerCertificate_ok:
  assumes "result (ensureServerCertificate c ref) w = Inr ()"
  obtains names ips es where
    "events (ensureServerCertificate c ref) w = es @ [Applied (OCertificate (serverCertificate c ref names ips)) None]"
proof -
  from assms obtain names ips where "result (externalAddresses c) w = Inr (names, ips)"
    "fst (api_apply c (OCertificate (serverCertificate c ref names ips)) (world (externalAddresses c) w)) = None"
    by (auto simp: ensureServerCertificate_def returns apply_obj_def split: option.splits)
  then have "events (ensureServerCertificate c ref) w =
      events (externalAddresses c) w @ [Applied (OCertificate (serverCertificate c ref names ips)) None]"
    by (simp add: ensureServerCertificate_def apply_obj_def events_bind)
  then show ?thesis by (rule that)
qed

lemma serverCertificateIssued_ok:
  assumes "result (serverCertificateIssued c) w = Inr True"
  obtains s where "events (serverCertificateIssued c) w = [GotSecret (serverSecretName (ctx_name c)) (Inr s)]"
    and "get0 (secret_data s) ''tls.crt'' \<noteq> []"
  using assms that
  by (auto simp: serverCertificateIssued_def returns getOptional_Inr get_secret_def events_bind
      split: option.splits sum.splits api_error.splits)

lemma ensureTLS_ok:
  assumes "result (ensureTLS c) w = Inr ()"
  shows "\<exists>es cert ext s. events (ensureTLS c) w =
       es @ [Applied (OCertificate cert) None, GotSecret (serverSecretName (ctx_name c)) (Inr s)] \<and>
     cert_name cert = serverCertName (ctx_name c) \<and> cert_secret_name cert = serverSecretName (ctx_name c) \<and>
     cert_dns_names cert = certificateNames c @ ext \<and> get0 (secret_data s) ''tls.crt'' \<noteq> []"
proof -
  from assms obtain params ref where p: "tlsParameters c = Some params"
    and r: "result (ensureIssuer c (tls_issuer_ref params)) w = Inr ref"
    by (auto simp: ensureTLS_def returns split: option.splits)
  let ?w1 = "world (ensureIssuer c (tls_issuer_ref params)) w"
  from assms p r have cert: "result (ensureServerCertificate c ref) ?w1 = Inr ()"
    by (auto simp: ensureTLS_def returns)
  let ?w2 = "world (ensureServerCertificate c ref) ?w1"
  from assms p r cert have iss: "result (serverCertificateIssued c) ?w2 = Inr True"
    by (auto simp: ensureTLS_def returns split: if_splits)
  obtain names ips es where es: "events (ensureServerCertificate c ref) ?w1 =
      es @ [Applied (OCertificate (serverCertificate c ref names ips)) None]"
    using ensureServerCertificate_ok [OF cert] by blast
  obtain s where s: "events (serverCertificateIssued c) ?w2 = [GotSecret (serverSecretName (ctx_name c)) (Inr s)]"
    "get0 (secret_data s) ''tls.crt'' \<noteq> []"
    using serverCertificateIssued_ok [OF iss] by blast
  have "events (ensureTLS c) w = (events (ensureIssuer c (tls_issuer_ref params)) w @ es) @
      [Applied (OCertificate (serverCertificate c ref names ips)) None,
       GotSecret (serverSecretName (ctx_name c)) (Inr s)]"
    by (simp add: ensureTLS_def events_bind andthen_run p r cert es iss s)
  with s(2) show ?thesis
    by (intro exI [of _ "serverCertificate c ref names ips"] exI) (auto simp: serverCertificate_def)
qed

section \<open>Properties\<close>


definition client_service :: service where
  "client_service = \<lparr>svc_name = ''clickhouse-db'', svc_namespace = ''ns'',
     svc_labels = [(LabelCHIName, ''db''), (labelOperatorService, ''chi'')], svc_type = ''LoadBalancer'',
     svc_ports = [(8123, 0), (9000, 31000)],
     svc_lb_ingress = [\<lparr>ing_hostname = ''db.example'', ing_ip = [], ing_rest = []\<rparr>]\<rparr>"

definition exposed_cluster :: cluster where
  "exposed_cluster = empty_cluster\<lparr>cl_services := [(''clickhouse-db'', client_service)]\<rparr>"


text \<open>C22. \<open>ensureTLS\<close> lets a reconcile go on only once the server certificate is requested from the
  resolved issuer and its Secret, read after that, holds a certificate: no pod is ever configured
  to mount a certificate that was never issued.\<close>

theorem ensureTLS_issued:
  assumes "result (ensureTLS c) w = Inr ()"
  shows "\<exists>es cert ext s. events (ensureTLS c) w =
       es @ [Applied (OCertificate cert) None, GotSecret (serverSecretName (ctx_name c)) (Inr s)] \<and>
     cert_name cert = serverCertName (ctx_name c) \<and> cert_secret_name cert = serverSecretName (ctx_name c) \<and>
     cert_dns_names cert = certificateNames c @ ext \<and> get0 (secret_data s) ''tls.crt'' \<noteq> []"
  using assms by (rule ensureTLS_ok)

definition tls_cluster :: cluster where
  "tls_cluster = exposed_cluster\<lparr>cl_secrets := [(''db-server-tls'',
     \<lparr>secret_name = ''db-server-tls'', secret_data = [(''tls.crt'', ''PEM''), (''ca.crt'', ''CA'')]\<rparr>)]\<rparr>"

lemma tls_cluster_issues: "result (ensureTLS (sample_ctx (tls_on []))) tls_cluster = Inr ()"
proof -
  let ?c = "sample_ctx (tls_on [])"
  have params: "tlsParameters ?c = Some \<lparr>tls_enabled_value = ''enabled'', tls_mode_value = [], tls_issuer_ref = None\<rparr>"
    by (simp add: tlsParameters_def tls_on_def)
  have iss: "result (ensureIssuer ?c None) w = Inr (managed_issuer ''db-ca'')"
    "cl_secrets (world (ensureIssuer ?c None) w) = cl_secrets w" for w
    by (simp_all add: ensureIssuer_def run_simps apply_obj_def caIssuerName_def CAIssuerSuffix_def Let_def)
  have ext: "\<exists>names ips. result (externalAddresses ?c) w = Inr (names, ips)"
    "world (externalAddresses ?c) w = w" for w
    by (auto simp: externalAddresses_def get_service_def run_simps lookup_in_def
        split: option.splits sum.splits api_error.splits)
  have cert: "result (ensureServerCertificate ?c ref) w = Inr ()"
    "cl_secrets (world (ensureServerCertificate ?c ref) w) = cl_secrets w" for ref w
    using ext(1) [of w] by (auto simp: ensureServerCertificate_def run_simps apply_obj_def ext(2))
  have issued: "result (serverCertificateIssued ?c) w = Inr True" if "cl_secrets w = cl_secrets tls_cluster" for w
    using that by (simp add: serverCertificateIssued_def run_simps get_secret_def lookup_in_def tls_cluster_def
        serverSecretName_def ServerCertSecretSuffix_def get0_def)
  show ?thesis
    using issued [of "world (ensureServerCertificate ?c (managed_issuer ''db-ca''))
        (world (ensureIssuer ?c None) tls_cluster)"]
    by (simp add: ensureTLS_def params run_simps iss cert)
qed

theorem ensureTLS_issued_witness:
  "\<exists>es cert s. events (ensureTLS (sample_ctx (tls_on []))) tls_cluster =
     es @ [Applied (OCertificate cert) None, GotSecret ''db-server-tls'' (Inr s)] \<and> get0 (secret_data s) ''tls.crt'' \<noteq> []"
  using ensureTLS_issued [OF tls_cluster_issues]
  by (simp add: serverSecretName_def ServerCertSecretSuffix_def) blast

text \<open>C15. Turning TLS off never takes a certificate from under a pod: \<open>cleanupTLS\<close> deletes only
  certificate resources of the Instance, and only when neither the CHI nor Keeper (as read) is
  configured with the certificate and a listing of both their pods showed none that mounts it.\<close>

theorem cleanupTLS_safe:
  assumes "Deleted k n r \<in> set (events (cleanupTLS c current) w)"
  shows "(k, n) \<in> set (tlsResources (ctx_name c)) \<and> \<not> chi_uses_certificate (settings_lib_of c) current \<and>
     (\<exists>answer. GotCHK (keeperCRName (ctx_name c)) answer \<in> set (events (cleanupTLS c current) w) \<and>
        (case answer of Inl e \<Rightarrow> e = NotFound | Inr keeper \<Rightarrow> \<not> chk_uses_certificate (settings_lib_of c) keeper)) \<and>
     (\<forall>sel \<in> set (podSelectors (ctx_name c)). \<exists>pods.
        ListedPods sel (Inr pods) \<in> set (events (cleanupTLS c current) w) \<and> \<not> mounts (serverSecretName (ctx_name c)) pods)"
proof -
  let ?n = "ctx_name c" and ?L = "settings_lib_of c"
  let ?get = "getOptional (keeperCRName ?n) (get_chk c (keeperCRName ?n))"
  let ?e = "Deleted k n r"
  have quiet: "?e \<notin> set (events (serverSecretMounted c) v)" for v
  proof -
    have "emits (\<lambda>e. \<forall>k n r. e \<noteq> Deleted k n r) (serverSecretMounted c)"
      unfolding serverSecretMounted_def by (intro emits_rules) simp
    then show ?thesis by (blast dest: emitsD)
  qed
  from assms have chi: "\<not> chi_uses_certificate ?L current"
    by (auto simp: cleanupTLS_def Let_def)
  from assms chi obtain keeper where keeper: "result ?get w = Inr keeper"
    and unused: "\<not> (case keeper of None \<Rightarrow> False | Some x \<Rightarrow> chk_uses_certificate ?L x)"
    and mounted: "result (serverSecretMounted c) (world ?get w) = Inr False"
    and del: "?e \<in> set (events (deleteTLSResources c) (world
       (getOptional (caSecretName ?n) (get_secret c (caSecretName ?n)))
         (world (getOptional (serverSecretName ?n) (get_secret c (serverSecretName ?n)))
           (world (serverSecretMounted c) (world ?get w)))))"
    by (auto simp: cleanupTLS_def Let_def in_events quiet get_chk_def get_secret_def split: if_splits
        simp del: getOptional_simps(1))
  have sub: "set (events ?get w) \<union> set (events (serverSecretMounted c) (world ?get w))
      \<subseteq> set (events (cleanupTLS c current) w)"
    using chi keeper unused by (auto simp: cleanupTLS_def Let_def in_events simp del: getOptional_simps)
  have "(k, n) \<in> set (tlsResources ?n)"
    using emitsD [OF _ del, of "\<lambda>e. \<forall>k n r. e = Deleted k n r \<longrightarrow> (k, n) \<in> set (tlsResources ?n)"]
    by (auto simp: deleteTLSResources_def intro!: emits_rules)
  moreover have "GotCHK (keeperCRName ?n) (fst (api_get_chk c (keeperCRName ?n) w)) \<in> set (events (cleanupTLS c current) w)"
    using sub by (simp add: get_chk_def)
  moreover have "case fst (api_get_chk c (keeperCRName ?n) w) of Inl e \<Rightarrow> e = NotFound | Inr x \<Rightarrow> \<not> chk_uses_certificate ?L x"
    using keeper unused by (auto simp: get_chk_def split: sum.splits api_error.splits)
  moreover have "\<exists>pods. ListedPods sel (Inr pods) \<in> set (events (cleanupTLS c current) w) \<and>
      \<not> mounts (serverSecretName ?n) pods" if "sel \<in> set (podSelectors ?n)" for sel
    using mountedBy_False [OF mounted [unfolded serverSecretMounted_def] that] sub
    unfolding serverSecretMounted_def by blast
  ultimately show ?thesis using chi by blast
qed

text \<open>The sample cluster after TLS is turned off: the Secret is left over and no pod mounts it.\<close>

definition plain_chi :: "setting table chi" where
  "plain_chi = \<lparr>chi_name = ''db'',
     chi_spec_of = \<lparr>chi_task_id = None, chi_configuration = None, chi_templates = None, chi_defaults = None\<rparr>,
     chi_status = None\<rparr>"

theorem cleanupTLS_safe_witness:
  "Deleted KSecret ''db-server-tls'' None \<in> set (events (cleanupTLS (sample_ctx sample_parameters) plain_chi) tls_cluster) \<and>
   (KSecret, ''db-server-tls'') \<in> set (tlsResources ''db'')"
proof -
  let ?c = "sample_ctx sample_parameters" and ?m = "cleanupTLS (sample_ctx sample_parameters) plain_chi"
  have "Deleted KSecret ''db-server-tls'' None \<in> set (events ?m tls_cluster)"
    by (simp add: cleanupTLS_def chi_uses_certificate_def plain_chi_def run_simps get_chk_def get_secret_def
        lookup_in_def tls_cluster_def exposed_cluster_def empty_cluster_def serverSecretMounted_def podSelectors_def
        list_pods_def mounts_def deleteTLSResources_def deleteAll_def tlsResources_def delete_obj_def Let_def
        serverSecretName_def ServerCertSecretSuffix_def caSecretName_def CACertSecretSuffix_def)
  then show ?thesis
    using cleanupTLS_safe [of KSecret "''db-server-tls''" None ?c plain_chi tls_cluster] by simp
qed

end
