(* ===== verification/Users.thy ===== *)
theory Users
  imports Parameters Names Store
begin

text \<open>
  \<^verbatim>\<open>users.go\<close>: the credentials Secret of an Instance. \<open>ensureCredentials\<close> creates or completes it;
  the digests and the revision counters in it are derived from its passwords.
\<close>

section \<open>Helpers\<close>

definition sha256Hex :: "('s, 'w) ctx \<Rightarrow> string \<Rightarrow> string" where
  "sha256Hex c value = hex_encode (sha256 c value)"

definition generatePassword :: "('s, 'w) ctx \<Rightarrow> int \<Rightarrow> ('s, 'w, string) act" where
  "generatePassword c n =
     bind (random_bytes c (nat n)) (\<lambda>r. case r of Inl e \<Rightarrow> throw e | Inr buf \<Rightarrow> ret (hex_encode buf))"

definition bumpRevision :: "string \<Rightarrow> labels \<Rightarrow> labels" where
  "bumpRevision key data = put key (itoa (wrap64 (atoi (get0 data key) + 1))) data"

definition credentialsRevision :: "secret \<Rightarrow> string" where
  "credentialsRevision s = get0 (secret_data s) CredentialsKeyRevision"

definition userCredentialsRevision :: "secret \<Rightarrow> string" where
  "userCredentialsRevision s = get0 (secret_data s) CredentialsKeyUserRevision"

section \<open>Validation of administrative credentials\<close>

text \<open>\<^verbatim>\<open>^[A-Za-z_][A-Za-z0-9_]{0,63}$\<close>\<close>

definition name_start :: "char \<Rightarrow> bool" where
  "name_start ch = (let n = of_char ch :: int in (65 \<le> n \<and> n \<le> 90) \<or> (97 \<le> n \<and> n \<le> 122) \<or> n = 95)"

definition name_char :: "char \<Rightarrow> bool" where
  "name_char ch = (name_start ch \<or> (let n = of_char ch :: int in 48 \<le> n \<and> n \<le> 57))"

definition usernamePattern :: "string \<Rightarrow> bool" where
  "usernamePattern s =
     (case s of [] \<Rightarrow> False | ch # cs \<Rightarrow> name_start ch \<and> list_all name_char cs \<and> length cs \<le> 63)"

definition reservedUsernames :: "string list" where
  "reservedUsernames = [''default'', InterserverUser, ''clickhouse_operator'']"

definition validateUserSecretData :: "labels \<Rightarrow> err + unit" where
  "validateUserSecretData data =
     (let username = get0 data CredentialsKeyUsername
      in if username \<noteq> [] \<and> \<not> usernamePattern username then
           Inl (Errorf ''username %q must start with a letter or underscore and contain only letters, digits and underscores'' [AStr username])
         else if username \<in> set reservedUsernames then
           Inl (Errorf ''username %q is reserved'' [AStr username])
         else if int (length (get0 data CredentialsKeyPassword)) < MinPasswordLength then
           Inl (Errorf ''password must be at least %d characters'' [AInt MinPasswordLength])
         else Inr ())"

section \<open>Seeding\<close>

text \<open>The documented content of the Secret behind \<^verbatim>\<open>spec.userSecretRef\<close> (\<^verbatim>\<open>definition/secrets/user/types.go\<close>), read from
  a Secret by its JSON tags.\<close>

record user_secret_data =
  usd_username :: string
  usd_password :: string

definition userSecretData :: "labels \<Rightarrow> user_secret_data" where
  "userSecretData d = \<lparr>usd_username = get0 d ''username'', usd_password = get0 d ''password''\<rparr>"

definition seedCredentials :: "('s, 'w) ctx \<Rightarrow> ('s, 'w, labels) act" where
  "seedCredentials c =
     (case inst_user_secret_ref (ctx_instance c) of
        None \<Rightarrow>
          bind (wrap_err (\<lambda>e. Errorf ''generate password: %w'' [AErr e]) (generatePassword c AppUserPasswordBytes))
            (\<lambda>password. ret [(CredentialsKeyPassword, password)])
      | Some ref \<Rightarrow>
          bind (get_secret c ref) (\<lambda>r. case r of
            Inl e \<Rightarrow> throw (Errorf ''read spec.userSecretRef secret %s: %w'' [AStr ref, AErr (ApiErr e)])
          | Inr src \<Rightarrow>
              (case validateUserSecretData (secret_data src) of
                 Inl e \<Rightarrow> throw (Errorf ''spec.userSecretRef secret %s: %w'' [AStr ref, AErr e])
               | Inr _ \<Rightarrow> ret [(CredentialsKeyUsername, get0 (secret_data src) CredentialsKeyUsername),
                               (CredentialsKeyPassword, get0 (secret_data src) CredentialsKeyPassword)])))"

section \<open>Completing the Secret\<close>

definition generatedKeys :: "string list" where
  "generatedKeys = [CredentialsKeyDefaultPassword, CredentialsKeyInterserverPassword, CredentialsKeyClusterSecret]"

text \<open>The loop over the generated credentials; the flag is the source's \<^verbatim>\<open>changed\<close>.\<close>

fun generateMissing ::
    "('s, 'w) ctx \<Rightarrow> string list \<Rightarrow> labels \<Rightarrow> bool \<Rightarrow> ('s, 'w, labels \<times> bool) act" where
  "generateMissing c [] data changed = ret (data, changed)"
| "generateMissing c (key # keys) data changed =
     (if get0 data key = [] then
        bind (wrap_err (\<lambda>e. Errorf ''generate %s: %w'' [AStr key, AErr e]) (generatePassword c AppUserPasswordBytes))
          (\<lambda>generated. generateMissing c keys (put key generated data) True)
      else generateMissing c keys data changed)"

text \<open>\<^verbatim>\<open>if !bytes.Equal(v, data[key]) { data[key] = v; changed = true }\<close>\<close>

definition refresh :: "string \<Rightarrow> string \<Rightarrow> labels \<times> bool \<Rightarrow> labels \<times> bool" where
  "refresh key v = (\<lambda>(data, changed). if v \<noteq> get0 data key then (put key v data, True) else (data, changed))"

definition deriveCredentials :: "('s, 'w) ctx \<Rightarrow> labels \<Rightarrow> bool \<Rightarrow> labels" where
  "deriveCredentials c data0 changed0 =
     (let (data1, user1) = refresh CredentialsKeyPasswordSHA256
            (sha256Hex c (get0 data0 CredentialsKeyPassword)) (data0, False);
          (data2, userChanged) = refresh CredentialsKeyAppliedUsername
            (get0 data1 CredentialsKeyUsername) (data1, user1);
          (data3, changed) = refresh CredentialsKeyDefaultPasswordSHA256
            (sha256Hex c (get0 data2 CredentialsKeyDefaultPassword)) (data2, changed0);
          data4 = (if userChanged then bumpRevision CredentialsKeyUserRevision data3 else data3)
      in if changed \<or> userChanged then bumpRevision CredentialsKeyRevision data4 else data4)"

definition completeCredentials :: "('s, 'w) ctx \<Rightarrow> secret option \<Rightarrow> labels \<Rightarrow> ('s, 'w, secret) act" where
  "completeCredentials c existing data =
     (let name = credentialsSecretName (ctx_name c);
          data0 = (if get0 data CredentialsKeyUsername = [] then put CredentialsKeyUsername AppUserName data else data)
      in if get0 data0 CredentialsKeyPassword = [] then
           throw (Errorf ''credentials secret %s has no %q'' [AStr name, AStr CredentialsKeyPassword])
         else
           bind (generateMissing c generatedKeys data0 False) (\<lambda>(data1, changed).
             let data2 = deriveCredentials c data1 changed;
                 new = \<lparr>secret_name = name, secret_data = data2\<rparr>;
                 store = andthen
                   (must (\<lambda>e. Errorf ''apply credentials secret: %w'' [AErr (ApiErr e)]) (apply_obj c (OSecret new)))
                   (ret new)
             in case existing of
                  Some old \<Rightarrow> if same_table (secret_data old) data2 then ret old else store
                | None \<Rightarrow> store))"

definition ensureCredentials :: "('s, 'w) ctx \<Rightarrow> ('s, 'w, secret) act" where
  "ensureCredentials c =
     bind (get_secret c (credentialsSecretName (ctx_name c))) (\<lambda>r. case r of
       Inr existing \<Rightarrow> completeCredentials c (Some existing) (secret_data existing)
     | Inl NotFound \<Rightarrow> bind (seedCredentials c) (\<lambda>seed. completeCredentials c None seed)
     | Inl e \<Rightarrow> throw (Errorf ''read credentials secret: %w'' [AErr (ApiErr e)]))"

section \<open>Rendering the users configuration\<close>

definition secretSetting :: "string \<Rightarrow> string \<Rightarrow> setting" where
  "secretSetting secretName key = FromSecret secretName key"

definition buildUserSettings :: "('s, 'w) ctx \<Rightarrow> string \<Rightarrow> string \<Rightarrow> 's" where
  "buildUserSettings c secretName username =
     (let L = settings_lib_of c
      in fold (\<lambda>(k, v). set_setting L k v)
           [(username @ ''/password_sha256_hex'', secretSetting secretName CredentialsKeyPasswordSHA256),
            (username @ ''/networks/ip'', Vector [''::/0'']),
            (username @ ''/profile'', Scalar ''default''),
            (username @ ''/quota'', Scalar ''default''),
            (username @ ''/access_management'', Scalar ''1''),
            (username @ ''/named_collection_control'', Scalar ''1''),
            (''default/password_sha256_hex'', secretSetting secretName CredentialsKeyDefaultPasswordSHA256)]
           (new_settings L))"

definition applyInterserverAuth ::
    "('s, 'w) ctx \<Rightarrow> 's \<Rightarrow> chi_cluster \<Rightarrow> string \<Rightarrow> 's \<times> chi_cluster" where
  "applyInterserverAuth c settings cluster secretName =
     (let L = settings_lib_of c
      in (set_setting L ''interserver_http_credentials/password''
            (secretSetting secretName CredentialsKeyInterserverPassword)
            (set_setting L ''interserver_http_credentials/user'' (Scalar InterserverUser) settings),
          cluster\<lparr>cc_secret := Some (secretName, CredentialsKeyClusterSecret)\<rparr>))"

text \<open>\<^verbatim>\<open>credentialsForCHI\<close> and \<^verbatim>\<open>readCredentials\<close> of \<^verbatim>\<open>provider.go\<close>.\<close>

definition credentialsForCHI :: "('s, 'w) ctx \<Rightarrow> string \<Rightarrow> ('s, 'w, string \<times> labels) act" where
  "credentialsForCHI c secretName =
     bind (getOptional secretName (get_secret c secretName)) (\<lambda>found. case found of
       None \<Rightarrow> ret (AppUserName, [])
     | Some secret \<Rightarrow>
         (let v = get0 (secret_data secret) CredentialsKeyUsername
          in ret (if v \<noteq> [] then v else AppUserName,
                  [(AnnotationCredentialsRevision, credentialsRevision secret)])))"

definition readCredentials :: "('s, 'w) ctx \<Rightarrow> ('s, 'w, string \<times> string) act" where
  "readCredentials c =
     bind (get_secret c (credentialsSecretName (ctx_name c))) (\<lambda>r. case r of
       Inl e \<Rightarrow> ret (AppUserName, [])
     | Inr secret \<Rightarrow>
         (let v = get0 (secret_data secret) CredentialsKeyUsername
          in ret (if v \<noteq> [] then v else AppUserName, get0 (secret_data secret) CredentialsKeyPassword)))"

section \<open>Lemmas: the derived values\<close>

lemmas credential_keys =
  CredentialsKeyUsername_def CredentialsKeyPassword_def CredentialsKeyPasswordSHA256_def
  CredentialsKeyDefaultPassword_def CredentialsKeyDefaultPasswordSHA256_def
  CredentialsKeyInterserverPassword_def CredentialsKeyClusterSecret_def CredentialsKeyRevision_def
  CredentialsKeyUserRevision_def CredentialsKeyAppliedUsername_def

text \<open>What the pods and the gate rely on: every credential present, every digest up to date.\<close>

definition credentials_complete :: "('s, 'w) ctx \<Rightarrow> labels \<Rightarrow> bool" where
  "credentials_complete c data \<longleftrightarrow>
     get0 data CredentialsKeyUsername \<noteq> [] \<and> get0 data CredentialsKeyPassword \<noteq> [] \<and>
     list_all (\<lambda>key. get0 data key \<noteq> []) generatedKeys \<and>
     get0 data CredentialsKeyPasswordSHA256 = sha256Hex c (get0 data CredentialsKeyPassword) \<and>
     get0 data CredentialsKeyAppliedUsername = get0 data CredentialsKeyUsername \<and>
     get0 data CredentialsKeyDefaultPasswordSHA256 = sha256Hex c (get0 data CredentialsKeyDefaultPassword)"

definition sourceKeys :: "string list" where
  "sourceKeys = [CredentialsKeyUsername, CredentialsKeyPassword] @ generatedKeys"

definition user_stale :: "('s, 'w) ctx \<Rightarrow> labels \<Rightarrow> bool" where
  "user_stale c data \<longleftrightarrow>
     get0 data CredentialsKeyPasswordSHA256 \<noteq> sha256Hex c (get0 data CredentialsKeyPassword) \<or>
     get0 data CredentialsKeyAppliedUsername \<noteq> get0 data CredentialsKeyUsername"

definition default_stale :: "('s, 'w) ctx \<Rightarrow> labels \<Rightarrow> bool" where
  "default_stale c data \<longleftrightarrow>
     get0 data CredentialsKeyDefaultPasswordSHA256 \<noteq> sha256Hex c (get0 data CredentialsKeyDefaultPassword)"

lemma get0_bumpRevision [simp]:
  "get0 (bumpRevision key data) k =
     (if k = key then itoa (wrap64 (atoi (get0 data key) + 1)) else get0 data k)"
  by (simp add: bumpRevision_def)

lemma get0_derive:
  "get0 (deriveCredentials c data changed) k =
     (if k = CredentialsKeyPasswordSHA256 then sha256Hex c (get0 data CredentialsKeyPassword)
      else if k = CredentialsKeyAppliedUsername then get0 data CredentialsKeyUsername
      else if k = CredentialsKeyDefaultPasswordSHA256 then sha256Hex c (get0 data CredentialsKeyDefaultPassword)
      else if k = CredentialsKeyUserRevision \<and> user_stale c data
        then itoa (wrap64 (atoi (get0 data CredentialsKeyUserRevision) + 1))
      else if k = CredentialsKeyRevision \<and> (changed \<or> user_stale c data \<or> default_stale c data)
        then itoa (wrap64 (atoi (get0 data CredentialsKeyRevision) + 1))
      else get0 data k)"
  by (auto simp: deriveCredentials_def refresh_def Let_def user_stale_def default_stale_def
      credential_keys)

lemma derive_unchanged:
  "\<not> user_stale c data \<Longrightarrow> \<not> default_stale c data \<Longrightarrow> deriveCredentials c data False = data"
  by (auto simp: deriveCredentials_def refresh_def Let_def user_stale_def default_stale_def)

lemma complete_not_stale:
  "credentials_complete c data \<Longrightarrow> \<not> user_stale c data \<and> \<not> default_stale c data"
  by (simp add: credentials_complete_def user_stale_def default_stale_def)

lemma sourceKeys_simps [simp]:
  "CredentialsKeyPasswordSHA256 \<notin> set sourceKeys" "CredentialsKeyAppliedUsername \<notin> set sourceKeys"
  "CredentialsKeyDefaultPasswordSHA256 \<notin> set sourceKeys" "CredentialsKeyUserRevision \<notin> set sourceKeys"
  "CredentialsKeyRevision \<notin> set sourceKeys"
  by (simp_all add: sourceKeys_def generatedKeys_def credential_keys)

lemma derive_source: "k \<in> set sourceKeys \<Longrightarrow> get0 (deriveCredentials c data changed) k = get0 data k"
  by (auto simp: get0_derive)

lemma derive_complete:
  "list_all (\<lambda>k. get0 data k \<noteq> []) sourceKeys \<Longrightarrow> credentials_complete c (deriveCredentials c data changed)"
  by (simp add: credentials_complete_def get0_derive sourceKeys_def generatedKeys_def credential_keys)

section \<open>Lemmas: the generated credentials\<close>

text \<open>\<^verbatim>\<open>rand.Read\<close> fills the buffer entirely or fails.\<close>

definition full_random :: "('s, 'w) ctx \<Rightarrow> bool" where
  "full_random c \<longleftrightarrow> (\<forall>n w buf. fst (api_random c n w) = Inr buf \<longrightarrow> length buf = n)"

lemma generatePassword_nonempty:
  "full_random c \<Longrightarrow> 0 < n \<Longrightarrow> result (generatePassword c n) w = Inr pw \<Longrightarrow> pw \<noteq> []"
  by (fastforce simp: generatePassword_def random_bytes_def run_simps full_random_def split: sum.splits)

lemma generateMissing_keeps:
  "result (generateMissing c keys data changed) w = Inr (data', changed') \<Longrightarrow>
     get0 data k \<noteq> [] \<or> k \<notin> set keys \<Longrightarrow> get0 data' k = get0 data k"
proof (induction keys arbitrary: data changed w)
  case Nil
  then show ?case by simp
next
  case (Cons key keys)
  show ?case
  proof (cases "get0 data key = []")
    case True
    with Cons.prems(1) obtain pw where
      "result (generateMissing c keys (put key pw data) True)
         (world (generatePassword c AppUserPasswordBytes) w) = Inr (data', changed')"
      by (auto simp: run_simps split: sum.splits)
    from Cons.IH [OF this] Cons.prems(2) True show ?thesis by (cases "k = key") auto
  next
    case False
    with Cons.prems show ?thesis by (auto intro: Cons.IH)
  qed
qed

lemma generateMissing_fills:
  "full_random c \<Longrightarrow> result (generateMissing c keys data changed) w = Inr (data', changed') \<Longrightarrow>
     list_all (\<lambda>k. get0 data' k \<noteq> []) keys"
proof (induction keys arbitrary: data changed w)
  case Nil
  then show ?case by simp
next
  case (Cons key keys)
  show ?case
  proof (cases "get0 data key = []")
    case True
    with Cons.prems obtain pw where pw: "result (generatePassword c AppUserPasswordBytes) w = Inr pw"
      by (auto simp: run_simps split: sum.splits)
    let ?w = "world (generatePassword c AppUserPasswordBytes) w"
    from True pw Cons.prems(2)
    have rest: "result (generateMissing c keys (put key pw data) True) ?w = Inr (data', changed')"
      by (simp add: run_simps)
    have "pw \<noteq> []"
      using generatePassword_nonempty [OF Cons.prems(1) _ pw] by (simp add: AppUserPasswordBytes_def)
    then have "get0 data' key \<noteq> []"
      using generateMissing_keeps [OF rest, of key] by simp
    with Cons.IH [OF Cons.prems(1) rest] show ?thesis by simp
  next
    case False
    with Cons.prems have rest: "result (generateMissing c keys data changed) w = Inr (data', changed')"
      by simp
    with False show ?thesis
      using generateMissing_keeps [OF rest, of key] Cons.IH [OF Cons.prems(1) rest] by simp
  qed
qed

lemma generateMissing_none:
  "list_all (\<lambda>k. get0 data k \<noteq> []) keys \<Longrightarrow> generateMissing c keys data changed = ret (data, changed)"
  by (induction keys) simp_all

section \<open>Lemmas: completing the Secret\<close>

text \<open>The data the generated credentials are added to.\<close>

definition named :: "labels \<Rightarrow> labels" where
  "named data = (if get0 data CredentialsKeyUsername = [] then put CredentialsKeyUsername AppUserName data else data)"

lemma named_simps [simp]:
  "get0 (named data) CredentialsKeyUsername \<noteq> []"
  "k \<noteq> CredentialsKeyUsername \<Longrightarrow> get0 (named data) k = get0 data k"
  "get0 data k \<noteq> [] \<Longrightarrow> get0 (named data) k = get0 data k"
  by (auto simp: named_def AppUserName_def)

text \<open>A successful run returns the derived data of a filled-in Secret, up to the order of keys.\<close>

lemma completeCredentials_result:
  assumes "result (completeCredentials c existing data) w = Inr s"
  obtains data1 changed where
    "result (generateMissing c generatedKeys (named data) False) w = Inr (data1, changed)"
    "get0 (named data) CredentialsKeyPassword \<noteq> []"
    "\<And>k. get0 (secret_data s) k = get0 (deriveCredentials c data1 changed) k"
proof -
  from assms have pw: "get0 (named data) CredentialsKeyPassword \<noteq> []"
    by (auto simp: completeCredentials_def named_def Let_def split: if_splits)
  with assms obtain data1 changed where
    g: "result (generateMissing c generatedKeys (named data) False) w = Inr (data1, changed)"
    by (auto simp: completeCredentials_def named_def [symmetric] Let_def run_simps
        split: sum.splits prod.splits)
  from assms pw g have "get0 (secret_data s) k = get0 (deriveCredentials c data1 changed) k" for k
    by (auto simp: completeCredentials_def named_def [symmetric] Let_def run_simps
        split: sum.splits option.splits if_splits dest: same_table_get0)
  with g pw show ?thesis by (rule that)
qed

lemma completeCredentials_sources:
  assumes "result (completeCredentials c existing data) w = Inr s" and "k \<in> set sourceKeys"
    and "get0 (named data) k \<noteq> []"
  shows "get0 (secret_data s) k = get0 (named data) k"
  using assms(1)
proof (rule completeCredentials_result)
  fix data1 changed
  assume g: "result (generateMissing c generatedKeys (named data) False) w = Inr (data1, changed)"
    and s: "\<And>k. get0 (secret_data s) k = get0 (deriveCredentials c data1 changed) k"
  show ?thesis
    using generateMissing_keeps [OF g, of k] assms(2,3) by (simp add: s derive_source)
qed

lemma completeCredentials_complete:
  assumes "full_random c" and "result (completeCredentials c existing data) w = Inr s"
  shows "credentials_complete c (secret_data s)"
  using assms(2)
proof (rule completeCredentials_result)
  fix data1 changed
  assume g: "result (generateMissing c generatedKeys (named data) False) w = Inr (data1, changed)"
    and pw: "get0 (named data) CredentialsKeyPassword \<noteq> []"
    and s: "\<And>k. get0 (secret_data s) k = get0 (deriveCredentials c data1 changed) k"
  have "list_all (\<lambda>k. get0 data1 k \<noteq> []) sourceKeys"
    using pw generateMissing_fills [OF assms(1) g] generateMissing_keeps [OF g, of CredentialsKeyUsername]
      generateMissing_keeps [OF g, of CredentialsKeyPassword]
    by (simp add: sourceKeys_def)
  then have "credentials_complete c (deriveCredentials c data1 changed)"
    by (rule derive_complete)
  then show ?thesis by (simp add: credentials_complete_def s)
qed

lemma completeCredentials_noop:
  assumes "credentials_complete c (secret_data s)"
  shows "completeCredentials c (Some s) (secret_data s) = ret s"
proof -
  let ?d = "secret_data s"
  from assms have d: "get0 ?d CredentialsKeyUsername \<noteq> []" "get0 ?d CredentialsKeyPassword \<noteq> []"
    and gen: "list_all (\<lambda>k. get0 ?d k \<noteq> []) generatedKeys"
    by (simp_all add: credentials_complete_def)
  have "deriveCredentials c ?d False = ?d"
    using complete_not_stale [OF assms] by (simp add: derive_unchanged)
  with d show ?thesis
    by (simp add: completeCredentials_def generateMissing_none [OF gen] bind_def ret_def)
qed

section \<open>Properties\<close>

lemma ensureCredentials_cases:
  "ensureCredentials c w =
     (case api_get_secret c (credentialsSecretName (ctx_name c)) w of (r, w') \<Rightarrow>
        (case (case r of
             Inr existing \<Rightarrow> completeCredentials c (Some existing) (secret_data existing)
           | Inl NotFound \<Rightarrow> bind (seedCredentials c) (\<lambda>seed. completeCredentials c None seed)
           | Inl e \<Rightarrow> throw (Errorf ''read credentials secret: %w'' [AErr (ApiErr e)])) w' of
           (r', w'', es) \<Rightarrow> (r', w'', GotSecret (credentialsSecretName (ctx_name c)) r # es)))"
  by (simp add: ensureCredentials_def bind_def get_secret_def call_def split: prod.splits)

lemma ensureCredentials_result:
  "result (ensureCredentials c) w =
     (let (r, w') = api_get_secret c (credentialsSecretName (ctx_name c)) w
      in case r of
           Inr existing \<Rightarrow> result (completeCredentials c (Some existing) (secret_data existing)) w'
         | Inl NotFound \<Rightarrow> result (bind (seedCredentials c) (\<lambda>seed. completeCredentials c None seed)) w'
         | Inl e \<Rightarrow> Inl (Errorf ''read credentials secret: %w'' [AErr (ApiErr e)]))"
  by (simp add: ensureCredentials_def run_simps get_secret_def case_prod_beta split: sum.splits api_error.splits)

lemma ensureCredentials_ok:
  assumes "full_random c" and "result (ensureCredentials c) w = Inr s"
  shows "credentials_complete c (secret_data s)"
  using assms completeCredentials_complete [OF assms(1)]
  by (fastforce simp: ensureCredentials_result result_bind split: prod.splits sum.splits api_error.splits)


lemma sample_full_random: "full_random (sample_ctx p)"
  by (simp add: full_random_def)

definition sample_secret :: secret where
  "sample_secret = \<lparr>secret_name = ''db-credentials'',
     secret_data =
       [(''username'', ''admin''), (''password'', ''long-enough-1''),
        (''default_password'', ''d''), (''interserver_password'', ''i''), (''cluster_secret'', ''s''),
        (''password_sha256_hex'', sha256Hex (sample_ctx sample_parameters) ''long-enough-1''),
        (''default_password_sha256_hex'', sha256Hex (sample_ctx sample_parameters) ''d''),
        (''applied_username'', ''admin''), (''user_revision'', ''1''), (''revision'', ''3'')]\<rparr>"

lemma sample_secret_complete:
  "credentials_complete (sample_ctx sample_parameters) (secret_data sample_secret)"
  by (simp add: credentials_complete_def sample_secret_def get0_def generatedKeys_def credential_keys)

text \<open>A cluster that holds the sample Secret with its password edited by the user.\<close>

definition rotated_secret :: secret where
  "rotated_secret = sample_secret\<lparr>secret_data := put ''password'' ''another-long-1'' (secret_data sample_secret)\<rparr>"

definition holding :: "secret \<Rightarrow> cluster" where
  "holding s = empty_cluster\<lparr>cl_secrets := [(''db-credentials'', s)]\<rparr>"

lemma holding_get [simp]:
  "lookup_in (cl_secrets (holding s)) (credentialsSecretName ''db'') w = (Inr s, w)"
  by (simp add: holding_def lookup_in_def credentialsSecretName_def CredentialsSecretSuffix_def)

lemma rotated_sources: "list_all (\<lambda>k. get0 (secret_data rotated_secret) k \<noteq> []) sourceKeys"
  by (simp add: rotated_secret_def sample_secret_def get0_def sourceKeys_def generatedKeys_def credential_keys)

lemma rotated_result: "\<exists>s. result (ensureCredentials (sample_ctx sample_parameters)) (holding rotated_secret) = Inr s"
proof -
  have gen: "generateMissing c generatedKeys (secret_data rotated_secret) b = ret (secret_data rotated_secret, b)"
    for c :: "(setting table, cluster) ctx" and b
    using rotated_sources by (intro generateMissing_none) (simp add: sourceKeys_def)
  have d: "get0 (secret_data rotated_secret) CredentialsKeyUsername \<noteq> []"
    "get0 (secret_data rotated_secret) CredentialsKeyPassword \<noteq> []"
    using rotated_sources by (simp_all add: sourceKeys_def)
  show ?thesis
    by (simp add: ensureCredentials_result completeCredentials_def gen d Let_def run_simps apply_obj_def)
qed


text \<open>A complete Secret is left alone: a second reconcile reads it, generates nothing,
  writes nothing and returns it.\<close>

lemma ensureCredentials_idempotent:
  assumes "api_get_secret c (credentialsSecretName (ctx_name c)) w = (Inr s, w')"
    and "credentials_complete c (secret_data s)"
  shows "ensureCredentials c w = (Inr s, w', [GotSecret (credentialsSecretName (ctx_name c)) (Inr s)])"
  using assms by (simp add: ensureCredentials_cases completeCredentials_noop ret_def)

text \<open>
  What the operator and the gate rely on: a counter that is bumped reads as the next 64-bit number, the
  greatest wrapping to the least, and its text is another one, whatever text it had.
\<close>

definition bumped :: "string \<Rightarrow> string \<Rightarrow> bool" where
  "bumped before after \<longleftrightarrow> after \<noteq> before \<and>
     - 9223372036854775808 \<le> atoi after \<and> atoi after \<le> 9223372036854775807 \<and>
     atoi after = (if atoi before = 9223372036854775807 then - 9223372036854775808 else atoi before + 1)"

lemma bumpRevision_bumped: "bumped (get0 data key) (get0 (bumpRevision key data) key)"
proof -
  let ?n = "atoi (get0 data key)"
  have read: "atoi (itoa (wrap64 (?n + 1))) = wrap64 (?n + 1)"
    by (rule atoi_itoa [OF wrap64_bounds])
  have succ: "wrap64 (?n + 1) = (if ?n = 9223372036854775807 then - 9223372036854775808 else ?n + 1)"
    using atoi_bounds by (intro wrap64_succ) auto
  then have "wrap64 (?n + 1) \<noteq> ?n" by (auto split: if_splits)
  moreover have "get0 (bumpRevision key data) key = itoa (wrap64 (?n + 1))" by simp
  ultimately show ?thesis
    unfolding bumped_def using read succ wrap64_bounds [of "?n + 1"] by metis
qed



text \<open>What a seed may hold: an acceptable user name or none, and a long enough password.\<close>

definition seed_valid :: "labels \<Rightarrow> bool" where
  "seed_valid d \<longleftrightarrow>
     (get0 d CredentialsKeyUsername = [] \<or>
        usernamePattern (get0 d CredentialsKeyUsername) \<and> get0 d CredentialsKeyUsername \<notin> set reservedUsernames) \<and>
     MinPasswordLength \<le> int (length (get0 d CredentialsKeyPassword))"

lemma validateUserSecretData_ok:
  "validateUserSecretData d = Inr u \<longleftrightarrow> seed_valid d"
  by (auto simp: validateUserSecretData_def seed_valid_def Let_def reservedUsernames_def constants split: if_splits)

lemma generatePassword_length:
  "full_random c \<Longrightarrow> result (generatePassword c n) w = Inr pw \<Longrightarrow> length pw = 2 * nat n"
  by (fastforce simp: generatePassword_def random_bytes_def run_simps full_random_def length_hex_encode
      split: sum.splits)

lemma seedCredentials_valid:
  assumes "full_random c" and "result (seedCredentials c) w = Inr seed"
  shows "seed_valid seed"
proof (cases "inst_user_secret_ref (ctx_instance c)")
  case None
  with assms(2) obtain pw where pw: "result (generatePassword c AppUserPasswordBytes) w = Inr pw"
    and seed: "seed = [(CredentialsKeyPassword, pw)]"
    by (auto simp: seedCredentials_def run_simps split: sum.splits)
  from generatePassword_length [OF assms(1) pw] seed show ?thesis
    by (simp add: seed_valid_def get0_def constants)
next
  case (Some ref)
  with assms(2) obtain src where "result (get_secret c ref) w = Inr (Inr src)" and v: "seed_valid (secret_data src)"
    and seed: "seed = [(CredentialsKeyUsername, get0 (secret_data src) CredentialsKeyUsername),
                       (CredentialsKeyPassword, get0 (secret_data src) CredentialsKeyPassword)]"
    by (simp add: seedCredentials_def run_simps validateUserSecretData_ok split: sum.splits)
  have "CredentialsKeyUsername \<noteq> CredentialsKeyPassword" by (simp add: constants)
  with v seed show ?thesis by (simp add: seed_valid_def get0_def)
qed

lemma AppUserName_valid: "usernamePattern AppUserName" "AppUserName \<notin> set reservedUsernames"
  by code_simp+

lemma named_valid:
  assumes "seed_valid d"
  shows "usernamePattern (get0 (named d) CredentialsKeyUsername)"
    and "get0 (named d) CredentialsKeyUsername \<notin> set reservedUsernames"
    and "MinPasswordLength \<le> int (length (get0 (named d) CredentialsKeyPassword))"
proof -
  have "CredentialsKeyPassword \<noteq> CredentialsKeyUsername" by (simp add: constants)
  with assms show "usernamePattern (get0 (named d) CredentialsKeyUsername)"
    "get0 (named d) CredentialsKeyUsername \<notin> set reservedUsernames"
    "MinPasswordLength \<le> int (length (get0 (named d) CredentialsKeyPassword))"
    using AppUserName_valid by (auto simp: seed_valid_def named_def)
qed

lemma completed_seed:
  assumes "seed_valid seed" and "result (completeCredentials c None seed) w = Inr s"
  shows "get0 (secret_data s) CredentialsKeyUsername = get0 (named seed) CredentialsKeyUsername"
    and "get0 (secret_data s) CredentialsKeyPassword = get0 (named seed) CredentialsKeyPassword"
proof -
  show "get0 (secret_data s) CredentialsKeyUsername = get0 (named seed) CredentialsKeyUsername"
    by (rule completeCredentials_sources [OF assms(2)]) (simp_all add: sourceKeys_def)
  have "get0 (named seed) CredentialsKeyPassword \<noteq> []"
    using named_valid(3) [OF assms(1)] by (auto simp: constants)
  then show "get0 (secret_data s) CredentialsKeyPassword = get0 (named seed) CredentialsKeyPassword"
    by (intro completeCredentials_sources [OF assms(2)]) (simp_all add: sourceKeys_def)
qed

text \<open>What is seeded from the user's Secret.\<close>

lemma seedCredentials_source:
  assumes "inst_user_secret_ref (ctx_instance c) = Some ref" and "result (seedCredentials c) w = Inr seed"
  shows "\<exists>src. GotSecret ref (Inr src) \<in> set (events (seedCredentials c) w) \<and>
     get0 (named seed) CredentialsKeyUsername = (let u = usd_username (userSecretData (secret_data src)) in if u = [] then ''admin'' else u) \<and>
     get0 (named seed) CredentialsKeyPassword = usd_password (userSecretData (secret_data src))"
proof -
  have keys: "CredentialsKeyUsername = ''username''" "CredentialsKeyPassword = ''password''" by (simp_all add: constants)
  from assms obtain src where src: "fst (api_get_secret c ref w) = Inr src"
    and seed: "seed = [(''username'', get0 (secret_data src) ''username''), (''password'', get0 (secret_data src) ''password'')]"
    by (auto simp: seedCredentials_def run_simps get_secret_def keys split: sum.splits)
  have "GotSecret ref (Inr src) \<in> set (events (seedCredentials c) w)"
    using assms(1) src by (auto simp: seedCredentials_def events_bind get_secret_def split: sum.splits)
  moreover have "get0 (named seed) ''username'' = (let u = get0 (secret_data src) ''username'' in if u = [] then ''admin'' else u)"
    "get0 (named seed) ''password'' = get0 (secret_data src) ''password''"
    by (auto simp: seed named_def get0_def keys AppUserName_def Let_def)
  ultimately show ?thesis by (auto simp: userSecretData_def keys)
qed

text \<open>C28. An Instance that starts without a credentials Secret gets an administrative user that
  ClickHouse accepts unquoted, that is none of the reserved users, and a password of at least
  12 characters, from \<^verbatim>\<open>spec.userSecretRef\<close> or generated. With \<^verbatim>\<open>spec.userSecretRef\<close>, they are the user name
  (\<^verbatim>\<open>admin\<close> where none is given) and the password of that Secret, as its schema documents it.\<close>

theorem seeded_credentials_valid:
  assumes "full_random c"
    and "fst (api_get_secret c (credentialsSecretName (ctx_name c)) w) = Inl NotFound"
    and "result (ensureCredentials c) w = Inr s"
  shows "usernamePattern (get0 (secret_data s) CredentialsKeyUsername) \<and>
     get0 (secret_data s) CredentialsKeyUsername \<notin> set reservedUsernames \<and>
     MinPasswordLength \<le> int (length (get0 (secret_data s) CredentialsKeyPassword)) \<and>
     (\<forall>ref. inst_user_secret_ref (ctx_instance c) = Some ref \<longrightarrow>
        (\<exists>src. GotSecret ref (Inr src) \<in> set (events (ensureCredentials c) w) \<and>
           get0 (secret_data s) CredentialsKeyUsername =
             (let u = usd_username (userSecretData (secret_data src)) in if u = [] then ''admin'' else u) \<and>
           get0 (secret_data s) CredentialsKeyPassword = usd_password (userSecretData (secret_data src))))"
proof -
  define w' where "w' = snd (api_get_secret c (credentialsSecretName (ctx_name c)) w)"
  from assms(2,3) obtain seed w1 where seed: "result (seedCredentials c) w' = Inr seed"
    and s: "result (completeCredentials c None seed) w1 = Inr s"
    by (auto simp: ensureCredentials_result result_bind w'_def case_prod_beta split: sum.splits)
  note valid = seedCredentials_valid [OF assms(1) seed]
  have ev: "set (events (seedCredentials c) w') \<subseteq> set (events (ensureCredentials c) w)"
    using assms(2) by (auto simp: ensureCredentials_def events_bind get_secret_def w'_def split: sum.splits)
  show ?thesis
    unfolding completed_seed [OF valid s] using named_valid [OF valid] seedCredentials_source [OF _ seed] ev by blast
qed

text \<open>An Instance whose user name and password come from a Secret, on a cluster with nothing else.\<close>

definition seeded_ctx :: "(setting table, cluster) ctx" where
  "seeded_ctx = (sample_ctx sample_parameters)\<lparr>ctx_instance := sample_instance\<lparr>inst_user_secret_ref := Some ''mine''\<rparr>\<rparr>"

definition seeding_cluster :: cluster where
  "seeding_cluster = empty_cluster\<lparr>cl_secrets := [(''mine'', \<lparr>secret_name = ''mine'',
     secret_data = [(''password'', ''long-enough-1'')]\<rparr>)]\<rparr>"

lemma seeded_fields: "ctx_name seeded_ctx = ''db''" "inst_user_secret_ref (ctx_instance seeded_ctx) = Some ''mine''"
  "api_get_secret seeded_ctx n w = lookup_in (cl_secrets w) n w" "full_random seeded_ctx"
  "api_random seeded_ctx m w = (Inr (replicate m (CHR ''r'')), w)" "api_apply seeded_ctx x w = (None, store_obj x w)"
  by (simp_all add: seeded_ctx_def full_random_def)

lemma seeded_result: "\<exists>s. result (ensureCredentials seeded_ctx) seeding_cluster = Inr s"
proof -
  let ?c = seeded_ctx
  have pw: "result (generatePassword ?c AppUserPasswordBytes) v = Inr (hex_encode (replicate 24 (CHR ''r'')))"
    "world (generatePassword ?c AppUserPasswordBytes) v = v" for v
    by (simp_all add: generatePassword_def random_bytes_def run_simps AppUserPasswordBytes_def seeded_fields)
  have gen: "\<exists>d b. result (generateMissing ?c keys data ch) v = Inr (d, b)" for keys data ch v
    by (induction keys arbitrary: data ch) (auto simp: run_simps pw)
  define seed where "seed = [(CredentialsKeyUsername, []), (CredentialsKeyPassword, ''long-enough-1'')]"
  have "\<exists>s. result (completeCredentials ?c None seed) v = Inr s" for v
  proof -
    have "get0 seed CredentialsKeyPassword \<noteq> []" by (simp add: seed_def get0_def credential_keys)
    then have "get0 (named seed) CredentialsKeyPassword \<noteq> []" by simp
    moreover obtain d b where "result (generateMissing ?c generatedKeys (named seed) False) v = Inr (d, b)"
      using gen by blast
    ultimately show ?thesis
      by (simp add: completeCredentials_def named_def [symmetric] Let_def run_simps apply_obj_def seeded_fields)
  qed
  moreover have "result (seedCredentials ?c) seeding_cluster = Inr seed"
    by (simp add: seedCredentials_def get_secret_def run_simps seeded_fields lookup_in_def seeding_cluster_def
        validateUserSecretData_def seed_def get0_def constants reservedUsernames_def)
  moreover have "lookup_in (cl_secrets seeding_cluster) (credentialsSecretName ''db'') seeding_cluster = (Inl NotFound, seeding_cluster)"
    by (simp add: lookup_in_def seeding_cluster_def credentialsSecretName_def CredentialsSecretSuffix_def)
  ultimately show ?thesis by (simp add: ensureCredentials_result seeded_fields result_bind)
qed

theorem seeded_credentials_valid_witness:
  "\<exists>s. result (ensureCredentials seeded_ctx) seeding_cluster = Inr s \<and>
     MinPasswordLength \<le> int (length (get0 (secret_data s) CredentialsKeyPassword)) \<and>
     (\<exists>src. GotSecret ''mine'' (Inr src) \<in> set (events (ensureCredentials seeded_ctx) seeding_cluster) \<and>
        get0 (secret_data s) CredentialsKeyPassword = usd_password (userSecretData (secret_data src)))"
proof -
  obtain s where s: "result (ensureCredentials seeded_ctx) seeding_cluster = Inr s" using seeded_result by blast
  have "fst (api_get_secret seeded_ctx (credentialsSecretName (ctx_name seeded_ctx)) seeding_cluster) = Inl NotFound"
    by (simp add: seeded_fields lookup_in_def seeding_cluster_def credentialsSecretName_def CredentialsSecretSuffix_def)
  from seeded_credentials_valid [OF seeded_fields(4) this s] s show ?thesis using seeded_fields(2) by blast
qed

definition userSettings :: "string \<Rightarrow> string \<Rightarrow> setting table" where
  "userSettings secretName username =
     [(username @ ''/password_sha256_hex'', secretSetting secretName CredentialsKeyPasswordSHA256),
      (username @ ''/networks/ip'', Vector [''::/0'']),
      (username @ ''/profile'', Scalar ''default''),
      (username @ ''/quota'', Scalar ''default''),
      (username @ ''/access_management'', Scalar ''1''),
      (username @ ''/named_collection_control'', Scalar ''1''),
      (''default/password_sha256_hex'', secretSetting secretName CredentialsKeyDefaultPasswordSHA256)]"

lemma userSettings_distinct:
  assumes "username \<noteq> ''default''"
  shows "distinct (map fst (userSettings secretName username))"
proof -
  have "username @ ''/password_sha256_hex'' \<noteq> ''default'' @ ''/password_sha256_hex''"
    using assms by (simp only: append_same_eq simp_thms)
  moreover have "username @ t \<noteq> ''default/password_sha256_hex''" if "last (username @ t) \<noteq> CHR ''x''" for t
    using that by (auto dest: arg_cong [where f = last])
  ultimately show ?thesis by (simp add: userSettings_def)
qed

lemma buildUserSettings_get:
  assumes "settings_laws (settings_lib_of c)" and "username \<noteq> ''default''"
  shows "get_setting (settings_lib_of c) (buildUserSettings c secretName username) k =
     map_of (userSettings secretName username) k"
  using get_fold_settings [OF assms(1) userSettings_distinct [OF assms(2), of secretName]] assms(1)
  by (simp add: buildUserSettings_def Let_def userSettings_def [symmetric] settings_laws_def split: option.splits)

lemma userSettings_passwords:
  assumes "map_of (userSettings secretName username) k = Some v" and "has_suffix k ''password_sha256_hex''"
  shows "\<exists>key. v = FromSecret secretName key"
proof -
  have "(k, v) \<in> set (userSettings secretName username)" by (rule map_of_SomeD [OF assms(1)])
  with assms(2) show ?thesis
    by (auto simp: userSettings_def secretSetting_def has_suffix_def has_prefix_def)
qed

text \<open>The users the provider configures: the administrative user and the \<^verbatim>\<open>default\<close> user both log in
  with the digest of the credentials Secret, never with a password in the configuration, and
  the administrative user manages access.\<close>

lemma users_need_passwords:
  assumes "settings_laws (settings_lib_of c)" and "username \<noteq> ''default''"
  shows "get_setting (settings_lib_of c) (buildUserSettings c secretName username) (username @ ''/password_sha256_hex'')
           = Some (FromSecret secretName CredentialsKeyPasswordSHA256)
       \<and> get_setting (settings_lib_of c) (buildUserSettings c secretName username) ''default/password_sha256_hex''
           = Some (FromSecret secretName CredentialsKeyDefaultPasswordSHA256)
       \<and> get_setting (settings_lib_of c) (buildUserSettings c secretName username) (username @ ''/access_management'')
           = Some (Scalar ''1'')
       \<and> (\<forall>k v. get_setting (settings_lib_of c) (buildUserSettings c secretName username) k = Some v \<longrightarrow>
            has_suffix k ''password_sha256_hex'' \<longrightarrow> (\<exists>key. v = FromSecret secretName key))"
proof -
  let ?m = "map_of (userSettings secretName username)"
  have in_map: "(k, v) \<in> set (userSettings secretName username) \<Longrightarrow> ?m k = Some v" for k v
    using userSettings_distinct [OF assms(2)] by (simp add: map_of_is_SomeI)
  have "?m (username @ ''/password_sha256_hex'') = Some (FromSecret secretName CredentialsKeyPasswordSHA256)"
    "?m ''default/password_sha256_hex'' = Some (FromSecret secretName CredentialsKeyDefaultPasswordSHA256)"
    "?m (username @ ''/access_management'') = Some (Scalar ''1'')"
    by (rule in_map; simp add: userSettings_def secretSetting_def)+
  then show ?thesis
    using userSettings_passwords by (simp only: buildUserSettings_get [OF assms]) blast
qed

end
