(* ===== verification/Netpol.thy ===== *)
theory Netpol
  imports Names Store
begin

text \<open>
  \<^verbatim>\<open>netpol.go\<close>: the NetworkPolicies that close the plaintext ports of a cluster in the required
  TLS mode and restrict Keeper. They follow the CHI that is applied, not the Instance.
\<close>

section \<open>Building the policies\<close>

definition tcpPorts :: "int list \<Rightarrow> (string \<times> int) list" where
  "tcpPorts ports = map (\<lambda>p. (''TCP'', p)) ports"

definition operatorPeer :: "('s, 'w) ctx \<Rightarrow> err + network_peer" where
  "operatorPeer c =
     (let namespace = (if getenv c EnvOperatorNamespace = []
                       then map_option trim_space (namespace_file c)
                       else Some (getenv c EnvOperatorNamespace));
          selector = (if getenv c EnvOperatorPodLabels = [] then DefaultOperatorPodLabels
                      else getenv c EnvOperatorPodLabels)
      in case namespace of
           None \<Rightarrow> Inl (Errorf ''operator namespace unknown: set %s'' [AStr EnvOperatorNamespace])
         | Some ns \<Rightarrow>
             (case selector_labels c selector of
                None \<Rightarrow> Inl (Errorf ''parse %s: %w'' [AStr EnvOperatorPodLabels, AErr (LibErr ''selector'')])
              | Some podLabels \<Rightarrow>
                  Inr \<lparr>peer_namespace_labels = Some [(''kubernetes.io/metadata.name'', ns)],
                       peer_pod_labels = Some podLabels\<rparr>))"

definition podPeer :: "labels \<Rightarrow> network_peer" where
  "podPeer ls = \<lparr>peer_namespace_labels = None, peer_pod_labels = Some ls\<rparr>"

definition plaintextPolicy :: "('s, 'w) ctx \<Rightarrow> err + network_policy" where
  "plaintextPolicy c =
     (case operatorPeer c of
        Inl e \<Rightarrow> Inl e
      | Inr operator \<Rightarrow>
          (let pods = [(LabelCHIName, ctx_name c)]
           in Inr \<lparr>np_name = ctx_name c @ PlaintextPolicySuffix,
                np_pod_selector = pods,
                np_policy_types = [''Ingress''],
                np_ingress =
                  [\<lparr>rule_from = [], rule_ports = tcpPorts [HTTPSPort, TCPSecurePort, MetricsPort]\<rparr>,
                   \<lparr>rule_from = [podPeer pods, operator],
                    rule_ports = tcpPorts [HTTPPort, TCPPort, InterserverHTTPPort, InterserverHTTPSPort]\<rparr>]\<rparr>))"

definition keeperPolicy :: "('s, 'w) ctx \<Rightarrow> err + network_policy" where
  "keeperPolicy c =
     (case operatorPeer c of
        Inl e \<Rightarrow> Inl e
      | Inr operator \<Rightarrow>
          (let clickhouse = [(LabelCHIName, ctx_name c)];
               keeper = [(LabelCHKName, keeperCRName (ctx_name c))]
           in Inr \<lparr>np_name = ctx_name c @ KeeperPolicySuffix,
                np_pod_selector = keeper,
                np_policy_types = [''Ingress''],
                np_ingress =
                  [\<lparr>rule_from = [podPeer clickhouse], rule_ports = tcpPorts [KeeperPort, KeeperSecurePort]\<rparr>,
                   \<lparr>rule_from = [podPeer keeper],
                    rule_ports = tcpPorts [KeeperPort, KeeperSecurePort, KeeperRaftPort]\<rparr>,
                   \<lparr>rule_from = [operator], rule_ports = []\<rparr>]\<rparr>))"

section \<open>Reconciling the policies\<close>

text \<open>The first service template of that name decides.\<close>

definition appliedTLSRequired :: "'s chi \<Rightarrow> bool" where
  "appliedTLSRequired x =
     (case chi_templates (chi_spec_of x) of
        None \<Rightarrow> False
      | Some ts \<Rightarrow>
          (case find (\<lambda>t. st_name t = ServiceTemplateName) (service_templates ts) of
             None \<Rightarrow> False
           | Some tmpl \<Rightarrow>
               (let ports = map sport_number (st_ports tmpl)
                in list_ex (\<lambda>p. p = HTTPSPort \<or> p = TCPSecurePort) ports \<and>
                   \<not> list_ex (\<lambda>p. p = HTTPPort \<or> p = TCPPort) ports)))"

definition reconcilePolicy ::
    "('s, 'w) ctx \<Rightarrow> string \<Rightarrow> bool \<Rightarrow> (err + network_policy) \<Rightarrow> ('s, 'w, unit) act" where
  "reconcilePolicy c name wanted build =
     (if \<not> wanted then
        bind (getOptional name (get_policy c name)) (\<lambda>found.
          if found = None then ret () else must ApiErr (delete_obj c KPolicy name))
      else case build of
        Inl e \<Rightarrow> throw e
      | Inr policy \<Rightarrow>
          must (\<lambda>e. Errorf ''apply NetworkPolicy %s: %w'' [AStr name, AErr (ApiErr e)])
            (apply_obj c (OPolicy policy)))"

definition reconcilePlaintextPolicy :: "('s, 'w) ctx \<Rightarrow> 's chi \<Rightarrow> ('s, 'w, unit) act" where
  "reconcilePlaintextPolicy c x =
     (let required = appliedTLSRequired x
      in andthen (reconcilePolicy c (ctx_name c @ PlaintextPolicySuffix) required (plaintextPolicy c))
           (reconcilePolicy c (ctx_name c @ KeeperPolicySuffix) (required \<and> replicated c) (keeperPolicy c)))"

section \<open>What a policy admits\<close>

text \<open>
  The documented meaning of an ingress policy on a pod it selects: a connection is admitted
  by a rule that lists its source and its port, where no sources (or ports) means all. A source
  without a namespace selector is a pod of the policy's own namespace.
\<close>

record traffic_source =
  src_same_namespace :: bool
  src_namespace_labels :: labels
  src_pod_labels :: labels

definition matches :: "labels \<Rightarrow> labels \<Rightarrow> bool" where
  "matches selector ls = list_all (\<lambda>(k, v). map_of ls k = Some v) selector"

definition peer_admits :: "network_peer \<Rightarrow> traffic_source \<Rightarrow> bool" where
  "peer_admits p src =
     ((case peer_namespace_labels p of None \<Rightarrow> src_same_namespace src | Some sel \<Rightarrow> matches sel (src_namespace_labels src)) \<and>
      (case peer_pod_labels p of None \<Rightarrow> True | Some sel \<Rightarrow> matches sel (src_pod_labels src)))"

definition rule_admits :: "network_rule \<Rightarrow> traffic_source \<Rightarrow> int \<Rightarrow> bool" where
  "rule_admits r src port =
     ((rule_from r = [] \<or> list_ex (\<lambda>p. peer_admits p src) (rule_from r)) \<and>
      (rule_ports r = [] \<or> (''TCP'', port) \<in> set (rule_ports r)))"

definition admits :: "network_policy \<Rightarrow> traffic_source \<Rightarrow> int \<Rightarrow> bool" where
  "admits np src port = list_ex (\<lambda>r. rule_admits r src port) (np_ingress np)"

definition from_pod :: "string \<Rightarrow> string \<Rightarrow> traffic_source \<Rightarrow> bool" where
  "from_pod l v src \<longleftrightarrow> src_same_namespace src \<and> map_of (src_pod_labels src) l = Some v"

lemma podPeer_admits [simp]: "peer_admits (podPeer [(l, v)]) src \<longleftrightarrow> from_pod l v src"
  by (simp add: peer_admits_def podPeer_def matches_def from_pod_def)

lemma tcpPorts_member [simp]: "(''TCP'', p) \<in> set (tcpPorts ps) \<longleftrightarrow> p \<in> set ps"
  by (auto simp: tcpPorts_def)

lemma tcpPorts_Nil [simp]: "tcpPorts ps = [] \<longleftrightarrow> ps = []"
  by (simp add: tcpPorts_def)

section \<open>Properties\<close>

lemma plaintext_admission:
  assumes "plaintextPolicy c = Inr np" and "operatorPeer c = Inr operator"
  shows "admits np src port \<longleftrightarrow>
     port \<in> {HTTPSPort, TCPSecurePort, MetricsPort} \<or>
     port \<in> {HTTPPort, TCPPort, InterserverHTTPPort, InterserverHTTPSPort} \<and>
       (from_pod LabelCHIName (ctx_name c) src \<or> peer_admits operator src)"
  using assms by (auto simp: plaintextPolicy_def Let_def admits_def rule_admits_def)

lemma keeper_admission:
  assumes "keeperPolicy c = Inr np" and "operatorPeer c = Inr operator"
  shows "admits np src port \<longleftrightarrow>
     port \<in> {KeeperPort, KeeperSecurePort} \<and> from_pod LabelCHIName (ctx_name c) src \<or>
     port \<in> {KeeperPort, KeeperSecurePort, KeeperRaftPort} \<and>
       from_pod LabelCHKName (keeperCRName (ctx_name c)) src \<or>
     peer_admits operator src"
  using assms by (auto simp: keeperPolicy_def Let_def admits_def rule_admits_def)

text \<open>C35. With the plaintext policy in place, anyone reaches the secure ports and the metrics
  endpoint; HTTP, native and interserver ports are reached only by the Instance's own pods and
  the operator; no other port by anyone. With the Keeper policy in place, Keeper, which authenticates
  no one, is reached on its client ports only by the Instance's ClickHouse pods, its own nodes and the
  operator, on the Raft port only by its own nodes and the operator, and on any other port by the
  operator alone.\<close>

theorem policies_admit:
  assumes "plaintextPolicy c = Inr plain" and "keeperPolicy c = Inr keeper" and "operatorPeer c = Inr operator"
  shows "(admits plain src port \<longleftrightarrow>
       port \<in> {HTTPSPort, TCPSecurePort, MetricsPort} \<or>
       port \<in> {HTTPPort, TCPPort, InterserverHTTPPort, InterserverHTTPSPort} \<and>
         (from_pod LabelCHIName (ctx_name c) src \<or> peer_admits operator src)) \<and>
     (admits keeper src port \<longleftrightarrow>
       port \<in> {KeeperPort, KeeperSecurePort} \<and> from_pod LabelCHIName (ctx_name c) src \<or>
       port \<in> {KeeperPort, KeeperSecurePort, KeeperRaftPort} \<and>
         from_pod LabelCHKName (keeperCRName (ctx_name c)) src \<or>
       peer_admits operator src)"
  using plaintext_admission [OF assms(1,3)] keeper_admission [OF assms(2,3)] by blast

theorem policies_admit_witness:
  "\<exists>plain keeper. plaintextPolicy (sample_ctx (tls_on [])) = Inr plain \<and> keeperPolicy (sample_ctx (tls_on [])) = Inr keeper \<and>
     \<not> admits plain \<lparr>src_same_namespace = True, src_namespace_labels = [], src_pod_labels = [(''app'', ''web'')]\<rparr> 8123 \<and>
     admits keeper \<lparr>src_same_namespace = True, src_namespace_labels = [],
       src_pod_labels = [(''clickhouse.altinity.com/chi'', ''db'')]\<rparr> 2281"
proof -
  let ?c = "sample_ctx (tls_on [])"
  obtain operator where op: "operatorPeer ?c = Inr operator"
    and peer: "peer_namespace_labels operator = Some [(''kubernetes.io/metadata.name'', trim_space ''clickhouse'')]"
    by (simp add: operatorPeer_def)
  then obtain plain keeper where np: "plaintextPolicy ?c = Inr plain" "keeperPolicy ?c = Inr keeper"
    by (simp add: plaintextPolicy_def keeperPolicy_def Let_def)
  note admit = policies_admit [OF np op]
  show ?thesis
    using admit [of "\<lparr>src_same_namespace = True, src_namespace_labels = [], src_pod_labels = [(''app'', ''web'')]\<rparr>" 8123]
      admit [of "\<lparr>src_same_namespace = True, src_namespace_labels = [],
        src_pod_labels = [(''clickhouse.altinity.com/chi'', ''db'')]\<rparr>" 2281] np peer
    by (simp add: peer_admits_def matches_def from_pod_def constants)
qed

lemma emits_reconcilePolicy [emits_rules]:
  "(\<And>r. P (GotPolicy name r)) \<Longrightarrow> (\<And>r. P (Deleted KPolicy name r)) \<Longrightarrow>
     (\<And>np r. build = Inr np \<Longrightarrow> P (Applied (OPolicy np) r)) \<Longrightarrow> emits P (reconcilePolicy c name wanted build)"
  unfolding reconcilePolicy_def by (cases build) (auto intro!: emits_rules)

text \<open>A policy is in place exactly when it is wanted.\<close>

definition policy_settled :: "'s event list \<Rightarrow> string \<Rightarrow> bool \<Rightarrow> (err + network_policy) \<Rightarrow> bool" where
  "policy_settled es name wanted build \<longleftrightarrow>
     (if wanted then \<exists>np. build = Inr np \<and> Applied (OPolicy np) None \<in> set es
      else GotPolicy name (Inl NotFound) \<in> set es \<or> Deleted KPolicy name None \<in> set es)"

lemma reconcilePolicy_settles:
  "result (reconcilePolicy c name wanted build) w = Inr () \<Longrightarrow>
     policy_settled (events (reconcilePolicy c name wanted build) w) name wanted build"
  by (auto simp: reconcilePolicy_def policy_settled_def returns must_Inr events_bind apply_obj_def delete_obj_def
      get_policy_def getOptional_Inr split: if_splits sum.splits option.splits api_error.splits)

text \<open>When \<open>reconcilePlaintextPolicy\<close> returns, the plaintext policy is applied if the applied CHI
  requires TLS and the Keeper policy if it is also replicated; otherwise each is gone: either it
  was not found or it was deleted.\<close>

lemma reconcilePlaintextPolicy_settles:
  assumes "result (reconcilePlaintextPolicy c x) w = Inr ()"
  shows "policy_settled (events (reconcilePlaintextPolicy c x) w) (ctx_name c @ PlaintextPolicySuffix)
       (appliedTLSRequired x) (plaintextPolicy c) \<and>
     policy_settled (events (reconcilePlaintextPolicy c x) w) (ctx_name c @ KeeperPolicySuffix)
       (appliedTLSRequired x \<and> replicated c) (keeperPolicy c)"
proof -
  have mono: "policy_settled es n wanted b \<Longrightarrow> set es \<subseteq> set es' \<Longrightarrow> policy_settled es' n wanted b" for es es' n wanted b
    by (auto simp: policy_settled_def split: if_splits)
  let ?p = "reconcilePolicy c (ctx_name c @ PlaintextPolicySuffix) (appliedTLSRequired x) (plaintextPolicy c)"
  let ?k = "reconcilePolicy c (ctx_name c @ KeeperPolicySuffix) (appliedTLSRequired x \<and> replicated c) (keeperPolicy c)"
  from assms have p: "result ?p w = Inr ()" and k: "result ?k (world ?p w) = Inr ()"
    by (simp_all add: reconcilePlaintextPolicy_def Let_def andthen_Inr del: andthen_run)
  have "events (reconcilePlaintextPolicy c x) w = events ?p w @ events ?k (world ?p w)"
    by (simp add: reconcilePlaintextPolicy_def Let_def andthen_run p)
  then show ?thesis
    using mono [OF reconcilePolicy_settles [OF p]] mono [OF reconcilePolicy_settles [OF k]] by auto
qed

end
