(* ===== verification/Connection.thy ===== *)
theory Connection
  imports Tls Users
begin

text \<open>
  \<^verbatim>\<open>connection.go\<close>: what an Instance reports to its clients, with the parts of Go's
  \<^verbatim>\<open>net/url\<close> and \<^verbatim>\<open>net\<close> packages that render the URI.
\<close>

section \<open>Rendering a URL\<close>

definition is_alnum :: "char \<Rightarrow> bool" where
  "is_alnum ch = (let n = of_char ch :: nat in
     (48 \<le> n \<and> n \<le> 57) \<or> (65 \<le> n \<and> n \<le> 90) \<or> (97 \<le> n \<and> n \<le> 122))"

text \<open>The bytes \<^verbatim>\<open>url.escape\<close> leaves alone in user information and in a host.\<close>

definition userinfo_safe :: "char \<Rightarrow> bool" where
  "userinfo_safe ch = (is_alnum ch \<or> ch \<in> set ''-_.~$&+,;='')"

definition host_safe :: "char \<Rightarrow> bool" where
  "host_safe ch = (is_alnum ch \<or> ch \<in> set ''-_.~!$&()*+,;=:[]<>'' \<or> ch = CHR 0x27 \<or> ch = CHR 0x22)"

definition upper_hex :: "nat \<Rightarrow> char" where
  "upper_hex n = char_of (if n < 10 then 48 + n else 55 + n)"

definition escape :: "(char \<Rightarrow> bool) \<Rightarrow> string \<Rightarrow> string" where
  "escape safe s = concat (map (\<lambda>ch.
     if safe ch then [ch]
     else (let n = of_char ch :: nat in [CHR ''%'', upper_hex (n div 16), upper_hex (n mod 16)])) s)"

definition joinHostPort :: "string \<Rightarrow> string \<Rightarrow> string" where
  "joinHostPort host port =
     (if CHR '':'' \<in> set host then ''['' @ host @ '']:'' @ port else host @ '':'' @ port)"

definition userPasswordURL :: "string \<Rightarrow> string \<Rightarrow> string \<Rightarrow> string \<Rightarrow> string" where
  "userPasswordURL scheme username password hostport =
     scheme @ ''://'' @ escape userinfo_safe username @ '':'' @ escape userinfo_safe password @ ''@'' @
     escape host_safe hostport @ ''/''"

section \<open>Connection details\<close>

record connection_details =
  conn_type :: string
  conn_provider :: string
  conn_host :: string
  conn_port :: string
  conn_username :: string
  conn_password :: string
  conn_uri :: string
  conn_additional :: labels

definition clientPorts :: "string \<Rightarrow> int table" where
  "clientPorts mode =
     (if mode \<noteq> TLSModeRequired
      then [(ConnectionKeyHTTPPort, HTTPPort), (ConnectionKeyNativePort, TCPPort)] else []) @
     (if mode \<noteq> []
      then [(ConnectionKeyHTTPSPort, HTTPSPort), (ConnectionKeyNativeSecurePort, TCPSecurePort)] else [])"

definition loadBalancerAddress :: "service \<Rightarrow> string" where
  "loadBalancerAddress svc =
     (if svc_type svc \<noteq> ''LoadBalancer'' then []
      else case find (\<lambda>i. ing_hostname i \<noteq> []) (svc_lb_ingress svc) of
             Some i \<Rightarrow> ing_hostname i
           | None \<Rightarrow> (case find (\<lambda>i. ing_ip i \<noteq> []) (svc_lb_ingress svc) of Some i \<Rightarrow> ing_ip i | None \<Rightarrow> []))"

definition nodePortFor :: "service \<Rightarrow> int \<Rightarrow> int" where
  "nodePortFor svc port = (case find (\<lambda>(p, _). p = port) (svc_ports svc) of Some (_, n) \<Rightarrow> n | None \<Rightarrow> 0)"

text \<open>The node ports of a Service, added for each client port.\<close>

definition addNodePorts :: "service option \<Rightarrow> int table \<Rightarrow> labels \<Rightarrow> labels" where
  "addNodePorts found ports additional =
     (case found of
        Some svc \<Rightarrow>
          if svc_type svc = ''NodePort'' then
            fold (\<lambda>(key, port) m. if nodePortFor svc port \<noteq> 0
                    then put (key @ ConnectionKeyNodePortSuffix) (itoa (nodePortFor svc port)) m else m)
              ports additional
          else additional
      | None \<Rightarrow> additional)"

text \<open>The details, given the client Service if found, the CA (empty for none) and the credentials.\<close>

definition connectionDetails ::
    "('s, 'w) ctx \<Rightarrow> 's chi \<Rightarrow> service option \<Rightarrow> string \<Rightarrow> string \<times> string \<Rightarrow> connection_details" where
  "connectionDetails c current found ca credentials =
     (let endpoint = (case chi_status current of None \<Rightarrow> [] | Some st \<Rightarrow> os_endpoint st);
          internalHost = (if endpoint = []
            then clientServiceName (ctx_name c) @ ''.'' @ ctx_namespace c @ ''.svc'' else endpoint);
          ports = clientPorts (tlsMode c);
          reported = fold (\<lambda>(key, port). put key (itoa port)) ports [(ConnectionKeyInternalHost, internalHost)];
          address = (case found of None \<Rightarrow> [] | Some svc \<Rightarrow> loadBalancerAddress svc);
          host = (if address \<noteq> [] then address else internalHost);
          withNodePorts = addNodePorts found ports reported;
          scheme = (if tlsEnabled c then ''https'' else ''http'');
          port = (if tlsEnabled c then HTTPSPort else HTTPPort);
          additional = (if ca \<noteq> [] then put ConnectionKeyCACert ca withNodePorts else withNodePorts)
      in \<lparr>conn_type = ''clickhouse'', conn_provider = ProviderName, conn_host = host,
          conn_port = itoa port, conn_username = fst credentials, conn_password = snd credentials,
          conn_uri = userPasswordURL scheme (fst credentials) (snd credentials) (joinHostPort host (itoa port)),
          conn_additional = additional\<rparr>)"

text \<open>An error reading the Service is ignored.\<close>

definition buildConnectionDetails :: "('s, 'w) ctx \<Rightarrow> 's chi \<Rightarrow> ('s, 'w, connection_details) act" where
  "buildConnectionDetails c current =
     bind (attempt (getOptional (clientServiceName (ctx_name c)) (get_service c (clientServiceName (ctx_name c))))) (\<lambda>r.
     bind (if tlsEnabled c then readCACert c else ret []) (\<lambda>ca.
     bind (readCredentials c) (\<lambda>credentials.
     ret (connectionDetails c current (case r of Inl _ \<Rightarrow> None | Inr found \<Rightarrow> found) ca credentials))))"

section \<open>Reading a URL back\<close>

definition hex_value :: "char \<Rightarrow> nat" where
  "hex_value ch = (let n = of_char ch in if n < 58 then n - 48 else n - 55)"

fun unescape :: "string \<Rightarrow> string" where
  "unescape [] = []"
| "unescape (ch # s) =
     (if ch = CHR ''%'' then (case s of a # b # t \<Rightarrow> char_of (16 * hex_value a + hex_value b) # unescape t | _ \<Rightarrow> ch # s)
      else ch # unescape s)"

lemma hex_value_upper: "n < 16 \<Longrightarrow> hex_value (upper_hex n) = n"
  by (simp add: hex_value_def upper_hex_def Let_def)

lemma of_char_bound: "of_char ch < (256 :: nat)"
  by (metis mod_less_divisor of_char_mod_256 zero_less_numeral)

lemma unescape_escape:
  assumes "\<not> safe (CHR ''%'')"
  shows "unescape (escape safe s) = s"
proof (induction s)
  case (Cons ch s)
  have "of_char ch < (256 :: nat)" by (rule of_char_bound)
  then have "16 * hex_value (upper_hex (of_char ch div 16)) + hex_value (upper_hex (of_char ch mod 16)) = of_char ch"
    by (simp add: hex_value_upper less_mult_imp_div_less)
  with Cons assms show ?case by (auto simp: escape_def Let_def)
qed (simp add: escape_def)

lemma upper_hex_alnum: "n < 16 \<Longrightarrow> is_alnum (upper_hex n)"
  by (simp add: is_alnum_def upper_hex_def Let_def)

lemma escape_chars: "set (escape userinfo_safe s) \<subseteq> {ch. userinfo_safe ch} \<union> {CHR ''%''}"
proof -
  have "of_char ch < (256 :: nat)" for ch :: char by (rule of_char_bound)
  then show ?thesis
    by (auto simp: escape_def Let_def userinfo_safe_def upper_hex_alnum less_mult_imp_div_less split: if_splits)
qed

lemma escape_no_delimiters: "set (escape userinfo_safe s) \<inter> set ''@:/?#'' = {}"
proof -
  have "\<not> userinfo_safe ch \<and> ch \<noteq> CHR ''%''" if "ch \<in> set ''@:/?#''" for ch
    using that by (auto simp: userinfo_safe_def is_alnum_def)
  with escape_chars [of s] show ?thesis by blast
qed

section \<open>Lemmas\<close>

lemma readCredentials_result: "\<exists>u p. result (readCredentials c) w = Inr (u, p)"
  by (auto simp: readCredentials_def result_bind get_secret_def Let_def split: sum.splits)

lemma readCACert_result: "\<exists>ca. result (readCACert c) w = Inr ca"
  by (auto simp: readCACert_def result_bind get_secret_def split: sum.splits)

text \<open>No failing read fails the details.\<close>

lemma buildConnectionDetails_result:
  "\<exists>found ca credentials. result (buildConnectionDetails c current) w =
     Inr (connectionDetails c current found ca credentials)"
proof -
  let ?get = "attempt (getOptional (clientServiceName (ctx_name c)) (get_service c (clientServiceName (ctx_name c))))"
  let ?ca = "if tlsEnabled c then readCACert c else ret []"
  obtain r where r: "result ?get w = Inr r" by simp
  have "\<exists>ca. result ?ca v = Inr ca" for v
    using readCACert_result [of c v] by simp
  then obtain ca where ca: "result ?ca (world ?get w) = Inr ca" by blast
  obtain u p where up: "result (readCredentials c) (world ?ca (world ?get w)) = Inr (u, p)"
    using readCredentials_result [of c "world ?ca (world ?get w)"] by (elim exE)
  show ?thesis
    by (simp only: buildConnectionDetails_def result_bind r ca up sum.case ret_simps) blast
qed

lemma map_of_fold_put:
  "map_of (fold (\<lambda>(key, port). put key (f port)) kvs m) k =
     (case map_of (rev kvs) k of Some p \<Rightarrow> Some (f p) | None \<Rightarrow> map_of m k)"
  by (induction kvs arbitrary: m) (auto simp: map_add_def split: option.splits)

lemma map_of_map_values: "map_of (map (\<lambda>(k, v). (k, f v)) kvs) k = map_option f (map_of kvs k)"
  by (induction kvs) auto

lemma addNodePorts_other:
  "k \<notin> (\<lambda>(key, _). key @ ConnectionKeyNodePortSuffix) ` set ports \<Longrightarrow>
     map_of (addNodePorts found ports m) k = map_of m k"
proof -
  have "k \<notin> (\<lambda>(key, _). key @ ConnectionKeyNodePortSuffix) ` set ports \<Longrightarrow>
     map_of (fold (\<lambda>(key, port) m. if nodePortFor svc port \<noteq> 0
        then put (key @ ConnectionKeyNodePortSuffix) (itoa (nodePortFor svc port)) m else m) ports m) k = map_of m k"
    for svc
    by (induction ports arbitrary: m) auto
  then show "k \<notin> (\<lambda>(key, _). key @ ConnectionKeyNodePortSuffix) ` set ports \<Longrightarrow> ?thesis"
    by (simp add: addNodePorts_def split: option.splits)
qed

lemmas connection_keys =
  ConnectionKeyHTTPPort_def ConnectionKeyNativePort_def ConnectionKeyHTTPSPort_def
  ConnectionKeyNativeSecurePort_def ConnectionKeyNodePortSuffix_def ConnectionKeyInternalHost_def
  ConnectionKeyCACert_def

section \<open>Properties\<close>

text \<open>C37. The URI carries the credentials intact: whatever bytes the user name and the password hold,
  their rendering contains none of the characters a URL parser splits user information at, and
  decodes back to them.\<close>

theorem connection_uri_roundtrip:
  "\<exists>d user pass. result (buildConnectionDetails c current) w = Inr d \<and>
     conn_uri d = (if tlsEnabled c then ''https'' else ''http'') @ ''://'' @ user @ '':'' @ pass @ ''@'' @
       escape host_safe (joinHostPort (conn_host d) (conn_port d)) @ ''/'' \<and>
     set (user @ pass) \<inter> set ''@:/?#'' = {} \<and>
     unescape user = conn_username d \<and> unescape pass = conn_password d"
proof -
  have safe: "\<not> userinfo_safe (CHR ''%'')" by (simp add: userinfo_safe_def is_alnum_def)
  have del: "set (escape userinfo_safe u @ escape userinfo_safe p) \<inter> set ''@:/?#'' = {}" for u p
    using escape_no_delimiters [of u] escape_no_delimiters [of p] by (simp only: set_append Int_Un_distrib2 Un_empty)
  obtain found ca u p where d: "result (buildConnectionDetails c current) w =
      Inr (connectionDetails c current found ca (u, p))"
    using buildConnectionDetails_result [of c current w] by auto
  have "conn_uri (connectionDetails c current found ca (u, p)) =
      (if tlsEnabled c then ''https'' else ''http'') @ ''://'' @ escape userinfo_safe u @ '':'' @
      escape userinfo_safe p @ ''@'' @ escape host_safe (joinHostPort
        (conn_host (connectionDetails c current found ca (u, p))) (conn_port (connectionDetails c current found ca (u, p)))) @ ''/''"
    "conn_username (connectionDetails c current found ca (u, p)) = u"
    "conn_password (connectionDetails c current found ca (u, p)) = p"
    by (simp_all add: connectionDetails_def Let_def userPasswordURL_def)
  with d del [of u p] show ?thesis
    using unescape_escape [where safe = userinfo_safe, OF safe] by metis
qed

text \<open>The ports a client is told of follow the TLS mode: the plaintext ones unless TLS is
  required, the secure ones when TLS is on, the port of the URI the HTTPS one exactly when TLS is
  on; no node port of a plaintext port is published when TLS is required.\<close>

lemma connection_ports_follow_mode:
  "\<exists>d. result (buildConnectionDetails c current) w = Inr d \<and>
     map_of (conn_additional d) ConnectionKeyHTTPPort = (if tlsRequired c then None else Some (itoa HTTPPort)) \<and>
     map_of (conn_additional d) ConnectionKeyNativePort = (if tlsRequired c then None else Some (itoa TCPPort)) \<and>
     map_of (conn_additional d) ConnectionKeyHTTPSPort = (if tlsEnabled c then Some (itoa HTTPSPort) else None) \<and>
     map_of (conn_additional d) ConnectionKeyNativeSecurePort = (if tlsEnabled c then Some (itoa TCPSecurePort) else None) \<and>
     conn_port d = itoa (if tlsEnabled c then HTTPSPort else HTTPPort) \<and>
     \<not> (tlsRequired c \<and>
        (map_of (conn_additional d) (ConnectionKeyHTTPPort @ ConnectionKeyNodePortSuffix) \<noteq> None \<or>
         map_of (conn_additional d) (ConnectionKeyNativePort @ ConnectionKeyNodePortSuffix) \<noteq> None))"
proof -
  obtain found ca u p where d: "result (buildConnectionDetails c current) w =
      Inr (connectionDetails c current found ca (u, p))"
    using buildConnectionDetails_result [of c current w] by auto
  let ?d = "connectionDetails c current found ca (u, p)"
  have req: "tlsRequired c \<Longrightarrow> tlsEnabled c" by (simp add: tlsRequired_def)
  have port: "conn_port ?d = itoa (if tlsEnabled c then HTTPSPort else HTTPPort)"
    by (simp add: connectionDetails_def Let_def)
  obtain h where add: "conn_additional ?d =
      (let m = addNodePorts found (clientPorts (tlsMode c)) (fold (\<lambda>(key, port). put key (itoa port))
           (clientPorts (tlsMode c)) [(ConnectionKeyInternalHost, h)])
       in if ca \<noteq> [] then put ConnectionKeyCACert ca m else m)"
    by (simp add: connectionDetails_def Let_def)
  have plain: "k \<noteq> ConnectionKeyCACert" "k \<noteq> ConnectionKeyInternalHost"
    "k \<notin> (\<lambda>(key, _). key @ ConnectionKeyNodePortSuffix) ` set (clientPorts (tlsMode c))"
    if "k \<in> {ConnectionKeyHTTPPort, ConnectionKeyNativePort, ConnectionKeyHTTPSPort, ConnectionKeyNativeSecurePort}" for k
    using that by (auto simp: clientPorts_def connection_keys)
  have keys: "map_of (conn_additional ?d) k = map_of (rev (map (\<lambda>(k, p). (k, itoa p)) (clientPorts (tlsMode c)))) k"
    if "k \<in> {ConnectionKeyHTTPPort, ConnectionKeyNativePort, ConnectionKeyHTTPSPort, ConnectionKeyNativeSecurePort}" for k
    using plain [OF that]
    by (simp add: add Let_def addNodePorts_other map_of_fold_put rev_map map_of_map_values split: option.splits)
  have noded: "k @ ConnectionKeyNodePortSuffix \<noteq> ConnectionKeyCACert"
    "k @ ConnectionKeyNodePortSuffix \<noteq> ConnectionKeyInternalHost"
    "tlsRequired c \<Longrightarrow> k @ ConnectionKeyNodePortSuffix \<notin> (\<lambda>(key, _). key @ ConnectionKeyNodePortSuffix) ` set (clientPorts (tlsMode c))"
    "tlsRequired c \<Longrightarrow> map_of (rev (clientPorts (tlsMode c))) (k @ ConnectionKeyNodePortSuffix) = None"
    if "k \<in> {ConnectionKeyHTTPPort, ConnectionKeyNativePort}" for k
    using that by (auto simp: clientPorts_def connection_keys tlsRequired_def)
  have node: "tlsRequired c \<Longrightarrow> map_of (conn_additional ?d) (k @ ConnectionKeyNodePortSuffix) = None"
    if "k \<in> {ConnectionKeyHTTPPort, ConnectionKeyNativePort}" for k
    using noded [OF that] by (simp add: add Let_def addNodePorts_other map_of_fold_put)
  have vals: "map_of (rev (map (\<lambda>(k, p). (k, itoa p)) (clientPorts (tlsMode c)))) k =
      (if k = ConnectionKeyHTTPPort then (if tlsRequired c then None else Some (itoa HTTPPort))
       else if k = ConnectionKeyNativePort then (if tlsRequired c then None else Some (itoa TCPPort))
       else if k = ConnectionKeyHTTPSPort then (if tlsEnabled c then Some (itoa HTTPSPort) else None)
       else if k = ConnectionKeyNativeSecurePort then (if tlsEnabled c then Some (itoa TCPSecurePort) else None)
       else None)" for k
    using req by (auto simp: clientPorts_def connection_keys)
  have distinct: "ConnectionKeyNativePort \<noteq> ConnectionKeyHTTPPort" "ConnectionKeyHTTPSPort \<noteq> ConnectionKeyHTTPPort"
    "ConnectionKeyHTTPSPort \<noteq> ConnectionKeyNativePort" "ConnectionKeyNativeSecurePort \<noteq> ConnectionKeyHTTPPort"
    "ConnectionKeyNativeSecurePort \<noteq> ConnectionKeyNativePort" "ConnectionKeyNativeSecurePort \<noteq> ConnectionKeyHTTPSPort"
    by (simp_all add: connection_keys)
  show ?thesis
    using d port node [of ConnectionKeyHTTPPort] node [of ConnectionKeyNativePort]
    by (intro exI [of _ ?d]) (simp add: keys vals distinct)
qed

end
