(* ===== verification/Builders.thy ===== *)
theory Builders
  imports Workload Scheduling Keeper_Wiring Tls Users Netpol Connection
begin

text \<open>
  The ClickHouseInstallation and the ClickHouseKeeperInstallation the provider applies
  (\<^verbatim>\<open>provider.go\<close>, "Builders"), and how the client Service is exposed.
\<close>

section \<open>Exposing the client Service\<close>

definition servicePort :: "string \<Rightarrow> int \<Rightarrow> service_port" where
  "servicePort name number = \<lparr>sport_name = name, sport_protocol = ''TCP'', sport_number = number, sport_target = name\<rparr>"

definition exposedPorts :: "operator_ports \<Rightarrow> string \<Rightarrow> service_port list" where
  "exposedPorts ops mode =
     (if mode \<noteq> TLSModeRequired
      then [servicePort (http_name ops) (http_number ops), servicePort (tcp_name ops) (tcp_number ops)] else []) @
     (if mode \<noteq> []
      then [servicePort (https_name ops) (https_number ops), servicePort (tls_name ops) (tls_number ops)] else [])"

definition exposeTemplate :: "('s, 'w) ctx \<Rightarrow> service_spec option \<Rightarrow> string \<Rightarrow> service_template" where
  "exposeTemplate c svc mode =
     (let tmpl = \<lparr>st_name = ServiceTemplateName, st_annotations = [], st_type = [], st_cluster_ip = [],
                  st_ports = exposedPorts (operator_ports_of c) mode, st_source_ranges = []\<rparr>
      in case (case svc of Some s \<Rightarrow> if service_type s \<noteq> [] then Some s else None | None \<Rightarrow> None) of
           Some s \<Rightarrow>
             tmpl\<lparr>st_annotations := service_annotations s, st_type := service_type s,
                  st_source_ranges :=
                    (if service_type s = ''LoadBalancer''
                     then (case source_ranges s of Some rs \<Rightarrow> normalized_ranges c rs | None \<Rightarrow> []) else [])\<rparr>
         | None \<Rightarrow> tmpl\<lparr>st_type := ''ClusterIP'', st_cluster_ip := ''None''\<rparr>)"

definition configureExpose :: "('s, 'w) ctx \<Rightarrow> 's chi_spec \<Rightarrow> service_spec option \<Rightarrow> string \<Rightarrow> 's chi_spec" where
  "configureExpose c spec svc mode =
     (let exposed = (case svc of None \<Rightarrow> False | Some s \<Rightarrow> service_type s \<noteq> [])
      in if \<not> exposed \<and> mode = [] then spec
         else (let ts = (case chi_templates spec of None \<Rightarrow> no_templates | Some t \<Rightarrow> t);
                   defaults = (case chi_defaults spec of None \<Rightarrow> None | Some d \<Rightarrow> d);
                   tl = (case defaults of None \<Rightarrow> no_templates_list | Some t \<Rightarrow> t)
               in spec\<lparr>chi_templates := Some (ts\<lparr>service_templates := service_templates ts @ [exposeTemplate c svc mode]\<rparr>),
                       chi_defaults := Some (Some (tl\<lparr>tl_service_template := ServiceTemplateName\<rparr>))\<rparr>))"

section \<open>Pods and volumes\<close>

definition emptyPodSpec :: "container \<Rightarrow> pod_spec" where
  "emptyPodSpec ctr = \<lparr>pod_containers = [ctr], pod_spread = [], pod_affinity_rules = None,
     pod_scheduler_name = [], pod_node_selector = [], pod_tolerations = []\<rparr>"

definition volumeClaimTemplate :: "('s, 'w) ctx \<Rightarrow> string \<Rightarrow> quantity \<Rightarrow> string option \<Rightarrow> volume_claim_template" where
  "volumeClaimTemplate c name sz storageClass =
     \<lparr>vct_name = name, vct_reclaim_policy = storageManagement c, vct_access_modes = [''ReadWriteOnce''],
      vct_storage_request = Some sz, vct_storage_class = storageClass\<rparr>"

section \<open>The ClickHouseInstallation\<close>

definition engineContainer :: "('s, 'w) ctx \<Rightarrow> string \<Rightarrow> component_spec \<Rightarrow> container" where
  "engineContainer c img engine =
     \<lparr>ctr_name = ''clickhouse'', ctr_image = img,
      ctr_ports = [\<lparr>cport_name = MetricsPortName, cport_number = MetricsPort, cport_protocol = ''TCP''\<rparr>],
      ctr_resources = resolveResources c engine\<rparr>"

definition chiCluster :: "int \<Rightarrow> chi_cluster" where
  "chiCluster n = \<lparr>cc_name = CHIClusterName, cc_shards = 1, cc_replicas = n,
     cc_templates = no_templates_list\<lparr>tl_pod_template := PodTemplateName,
       tl_data_volume_claim_template := DataVolumeClaimTemplateName\<rparr>,
     cc_secure = None, cc_secret = None\<rparr>"

definition chiTemplates :: "('s, 'w) ctx \<Rightarrow> string \<Rightarrow> component_spec \<Rightarrow> labels \<Rightarrow> templates" where
  "chiTemplates c img engine annotations =
     (let podLabels = pod_labels_of c ComponentEngine;
          (sz, cls) = resolveStorage c engine
      in no_templates\<lparr>
           pod_templates := [\<lparr>pt_name = PodTemplateName, pt_labels = podLabels, pt_annotations = annotations,
             pt_spec = applySchedulingPolicy c (emptyPodSpec (engineContainer c img engine))
               (comp_scheduling engine) podLabels\<rparr>],
           volume_claim_templates := [volumeClaimTemplate c DataVolumeClaimTemplateName sz cls]\<rparr>)"

text \<open>
  The TLS part: the files, the settings and the cluster, which the source shares with the spec
  by pointer. With TLS being turned off the CHI keeps the files while it uses Keeper's secure
  port.
\<close>

definition wireTLS :: "('s, 'w) ctx \<Rightarrow> keeperWiring \<Rightarrow> 's \<Rightarrow> chi_cluster \<Rightarrow> 's option \<times> 's \<times> chi_cluster" where
  "wireTLS c keeper settings cluster =
     (if tlsMode c \<noteq> [] then applyTLSToCHISpec c (ctx_name c) settings cluster
      else if kw_port keeper = KeeperSecurePort
        then (Some (buildTLSFiles c (serverSecretName (ctx_name c))), settings, cluster)
      else (None, settings, cluster))"

text \<open>The spec, given the image, the engine's settings, the user name and the pod annotations.\<close>

definition chiSpec ::
    "('s, 'w) ctx \<Rightarrow> int \<Rightarrow> keeperWiring \<Rightarrow> string \<Rightarrow> 's \<Rightarrow> string \<times> labels \<Rightarrow> 's chi_spec" where
  "chiSpec c n keeper img settings0 user =
     (let engine = component c ComponentEngine;
          secretName = credentialsSecretName (ctx_name c);
          (settings1, cluster1) = applyInterserverAuth c settings0 (chiCluster n) secretName;
          (files, settings, cluster) = wireTLS c keeper settings1 cluster1
      in configureExpose c
           \<lparr>chi_task_id = None,
            chi_configuration = Some \<lparr>chi_clusters = [cluster],
              chi_users = Some (buildUserSettings c secretName (fst user)),
              chi_settings = Some settings, chi_files = files,
              chi_zookeeper = (if n > 1 then Some (keeperZookeeper c (kw_port keeper)) else None)\<rparr>,
            chi_templates = Some (chiTemplates c img engine (snd user)),
            chi_defaults = None\<rparr>
           (comp_service engine) (tlsMode c))"

definition buildCHIWired :: "('s, 'w) ctx \<Rightarrow> int \<Rightarrow> keeperWiring \<Rightarrow> ('s, 'w, 's chi) act" where
  "buildCHIWired c n keeper =
     bind (lift_result (resolveImage c ComponentEngine (component c ComponentEngine))) (\<lambda>img.
     bind (lift_result (resolveEngineSettings c)) (\<lambda>settings.
     bind (credentialsForCHI c (credentialsSecretName (ctx_name c))) (\<lambda>user.
       ret \<lparr>chi_name = ctx_name c, chi_spec_of = chiSpec c n keeper img settings user, chi_status = None\<rparr>)))"

definition buildCHI :: "('s, 'w) ctx \<Rightarrow> int \<Rightarrow> ('s, 'w, 's chi) act" where
  "buildCHI c n = bind (planKeeperWiring c) (\<lambda>(step, _). buildCHIWired c n step)"

section \<open>The ClickHouseKeeperInstallation\<close>

definition chkCluster :: "keeperWiring \<Rightarrow> chk_cluster" where
  "chkCluster wiring = \<lparr>kc_name = CHKClusterName, kc_replicas = KeeperReplicas,
     kc_templates = no_templates_list\<lparr>tl_pod_template := KeeperPodTemplateName,
       tl_data_volume_claim_template := KeeperDataVolumeClaimTemplateName\<rparr>,
     kc_secure = (if kw_secure wiring then Some True else None),
     kc_insecure = (if \<not> kw_plaintext wiring then Some False else None)\<rparr>"

definition keeperContainer :: "('s, 'w) ctx \<Rightarrow> string \<Rightarrow> component_spec \<Rightarrow> container" where
  "keeperContainer c img keeper =
     \<lparr>ctr_name = ''clickhouse-keeper'', ctr_image = img, ctr_ports = [],
      ctr_resources = resolveKeeperResources c keeper\<rparr>"

definition buildCHKWired :: "('s, 'w) ctx \<Rightarrow> keeperWiring \<Rightarrow> ('s, 'w, 's chk) act" where
  "buildCHKWired c wiring =
     (let keeper = component c ComponentKeeper; n = ctx_name c in
      bind (lift_result (resolveImage c ComponentKeeper keeper)) (\<lambda>img.
      bind (resolveKeeperStorage c keeper) (\<lambda>(sz, cls).
        ret \<lparr>chk_name = keeperCRName n,
             chk_spec_of = \<lparr>chk_task_id = None,
               chk_configuration = Some \<lparr>chk_clusters = [chkCluster wiring],
                 chk_files = (if kw_secure wiring then Some (buildTLSFiles c (serverSecretName n)) else None)\<rparr>,
               chk_templates = Some (no_templates\<lparr>
                 pod_templates := [\<lparr>pt_name = KeeperPodTemplateName, pt_labels = pod_labels_of c ComponentKeeper,
                   pt_annotations = [],
                   pt_spec = applyKeeperSchedulingPolicy (emptyPodSpec (keeperContainer c img keeper))
                     (comp_scheduling (component c ComponentEngine)) [(LabelCHKName, keeperCRName n)]\<rparr>],
                 volume_claim_templates := [volumeClaimTemplate c KeeperDataVolumeClaimTemplateName sz cls]\<rparr>)\<rparr>,
             chk_status = None\<rparr>)))"

definition buildCHK :: "('s, 'w) ctx \<Rightarrow> ('s, 'w, 's chk) act" where
  "buildCHK c = bind (planKeeperWiring c) (\<lambda>(step, _). buildCHKWired c step)"

section \<open>What is built\<close>

lemma emits_credentialsForCHI [emits_rules]:
  "(\<And>r. P (GotSecret n r)) \<Longrightarrow> emits P (credentialsForCHI c n)"
  unfolding credentialsForCHI_def by (auto intro!: emits_rules simp: Let_def)

lemma emits_buildCHIWired [emits_rules]:
  "(\<And>n r. P (GotSecret n r)) \<Longrightarrow> emits P (buildCHIWired c n w)"
  unfolding buildCHIWired_def by (intro emits_rules)

lemma emits_buildCHKWired [emits_rules]:
  "(\<And>n r. P (GotCHK n r)) \<Longrightarrow> emits P (buildCHKWired c w)"
  unfolding buildCHKWired_def Let_def by (intro emits_rules)

lemma configureExpose_other [simp]:
  "chi_task_id (configureExpose c spec svc mode) = chi_task_id spec"
  "chi_configuration (configureExpose c spec svc mode) = chi_configuration spec"
  by (simp_all add: configureExpose_def Let_def)

text \<open>A built CHI and CHK, part by part.\<close>

lemma wireTLS_files:
  "fst (wireTLS c keeper settings cluster) =
     (if tlsEnabled c \<or> kw_port keeper = KeeperSecurePort
      then Some (buildTLSFiles c (serverSecretName (ctx_name c))) else None)"
  by (simp add: wireTLS_def applyTLSToCHISpec_def Let_def)

lemma wireTLS_cluster:
  "cc_secure (snd (snd (wireTLS c keeper settings cluster))) = (if tlsEnabled c then Some True else cc_secure cluster)"
  "cc_secret (snd (snd (wireTLS c keeper settings cluster))) = cc_secret cluster"
  "cc_replicas (snd (snd (wireTLS c keeper settings cluster))) = cc_replicas cluster"
  by (simp_all add: wireTLS_def applyTLSToCHISpec_def Let_def)

lemma chiSpec_configuration:
  "\<exists>conf cluster. chi_configuration (chiSpec c n keeper img settings user) = Some conf \<and>
     chi_clusters conf = [cluster] \<and> cc_replicas cluster = n \<and>
     cc_secure cluster = (if tlsEnabled c then Some True else None) \<and>
     cc_secret cluster = Some (credentialsSecretName (ctx_name c), CredentialsKeyClusterSecret) \<and>
     chi_users conf = Some (buildUserSettings c (credentialsSecretName (ctx_name c)) (fst user)) \<and>
     chi_files conf = (if tlsEnabled c \<or> kw_port keeper = KeeperSecurePort
       then Some (buildTLSFiles c (serverSecretName (ctx_name c))) else None) \<and>
     chi_zookeeper conf = (if n > 1 then Some (keeperZookeeper c (kw_port keeper)) else None)"
proof -
  let ?a = "applyInterserverAuth c settings (chiCluster n) (credentialsSecretName (ctx_name c))"
  let ?t = "wireTLS c keeper (fst ?a) (snd ?a)"
  have "chi_configuration (chiSpec c n keeper img settings user) =
      Some \<lparr>chi_clusters = [snd (snd ?t)],
        chi_users = Some (buildUserSettings c (credentialsSecretName (ctx_name c)) (fst user)),
        chi_settings = Some (fst (snd ?t)), chi_files = fst ?t,
        chi_zookeeper = (if n > 1 then Some (keeperZookeeper c (kw_port keeper)) else None)\<rparr>"
    by (simp add: chiSpec_def Let_def case_prod_beta)
  then show ?thesis
    by (simp add: wireTLS_files wireTLS_cluster applyInterserverAuth_def Let_def chiCluster_def)
qed

lemma chiSpec_task [simp]: "chi_task_id (chiSpec c n keeper img settings user) = None"
  by (simp add: chiSpec_def Let_def case_prod_beta)

lemma chiSpec_templates:
  "chi_templates (chiSpec c n keeper img settings user) =
     (let engine = component c ComponentEngine;
          exposed = (case comp_service engine of None \<Rightarrow> False | Some s \<Rightarrow> service_type s \<noteq> [])
      in Some ((chiTemplates c img engine (snd user))\<lparr>service_templates :=
           (if \<not> exposed \<and> \<not> tlsEnabled c then [] else [exposeTemplate c (comp_service engine) (tlsMode c)])\<rparr>))"
  by (simp add: chiSpec_def Let_def case_prod_beta configureExpose_def chiTemplates_def no_templates_def)

lemma buildCHIWired_result:
  "result (buildCHIWired c n keeper) w = Inr x \<Longrightarrow>
     \<exists>img settings user. resolveImage c ComponentEngine (component c ComponentEngine) = Inr img \<and>
       resolveEngineSettings c = Inr settings \<and>
       result (credentialsForCHI c (credentialsSecretName (ctx_name c))) w = Inr user \<and>
       x = \<lparr>chi_name = ctx_name c, chi_spec_of = chiSpec c n keeper img settings user, chi_status = None\<rparr>"
  by (auto simp: buildCHIWired_def returns)

lemma buildCHKWired_result:
  "result (buildCHKWired c wiring) w = Inr x \<Longrightarrow>
     \<exists>conf. chk_name x = keeperCRName (ctx_name c) \<and> chk_task_id (chk_spec_of x) = None \<and>
       chk_configuration (chk_spec_of x) = Some conf \<and> chk_clusters conf = [chkCluster wiring] \<and>
       chk_files conf = (if kw_secure wiring then Some (buildTLSFiles c (serverSecretName (ctx_name c))) else None)"
  by (auto simp: buildCHKWired_def Let_def returns split: prod.splits)

section \<open>Properties\<close>

text \<open>C31. What the planner decides is what is applied, and what it reads back later: a built Keeper
  serves exactly the wiring's ports, and a built replicated ClickHouse uses exactly its port.\<close>

theorem wiring_applied_and_read_back:
  assumes "result (buildCHKWired c wiring) w = Inr keeper"
    and "result (buildCHIWired c n wiring) w' = Inr clickhouse" and "1 < n"
  shows "statePorts (stateOf (Some keeper) (Some clickhouse)) = wiringPorts wiring \<and>
     chiPort (stateOf (Some keeper) (Some clickhouse)) = kw_port wiring"
proof -
  obtain kconf where "chk_configuration (chk_spec_of keeper) = Some kconf" "chk_clusters kconf = [chkCluster wiring]"
    using buildCHKWired_result [OF assms(1)] by blast
  then have "chkPorts keeper = wiringPorts wiring"
    by (simp add: chkPorts_def chkCluster_def wiringPorts_def)
  moreover obtain img settings user where x: "chi_spec_of clickhouse = chiSpec c n wiring img settings user"
    using buildCHIWired_result [OF assms(2)] by auto
  obtain conf where "chi_configuration (chi_spec_of clickhouse) = Some conf"
    "chi_zookeeper conf = Some (keeperZookeeper c (kw_port wiring))"
    using chiSpec_configuration [of c n wiring img settings user] assms(3) x by auto
  then have "chiKeeperPort clickhouse = kw_port wiring"
    by (rule chiKeeperPort_keeperZookeeper)
  ultimately show ?thesis by (simp add: stateOf_def statePorts_def)
qed

text \<open>Builds on the sample context succeed.\<close>

lemma sample_images: "\<exists>img. resolveImage (sample_ctx p) name zero_component = Inr img"
  by (simp add: resolveImage_def zero_component_def bundled_version_def sample_provider_def Let_def)

lemma sample_components [simp]: "component (sample_ctx p) name = zero_component"
  by (simp add: component_def sample_instance_def zero_component_def)

lemma sample_settings: "par_configuration p = [] \<Longrightarrow> \<exists>s. resolveEngineSettings (sample_ctx p) = Inr s"
  by (simp add: resolveEngineSettings_def engine_parameters_def trim_space_def Let_def)

lemma sample_credentials: "\<exists>user. result (credentialsForCHI (sample_ctx p) name) w = Inr user"
proof -
  have "result (getOptional name (get_secret (sample_ctx p) name)) w \<in> range Inr"
    using lookup_cases [of "cl_secrets w" name w] by (auto simp: get_secret_def)
  then show ?thesis
    by (auto simp: credentialsForCHI_def result_bind Let_def simp del: getOptional_simps split: option.splits)
qed

lemma sample_keeper_storage: "\<exists>st. result (resolveKeeperStorage (sample_ctx p) k) w = Inr st"
  using lookup_cases [of "cl_chk w" "keeperCRName ''db''" w]
  by (auto simp: resolveKeeperStorage_def result_bind get_chk_def Let_def split: option.splits)

lemma sample_builds_chi: "par_configuration p = [] \<Longrightarrow> \<exists>x. result (buildCHIWired (sample_ctx p) n k) w = Inr x"
  using sample_images [of p ComponentEngine] sample_settings [of p] sample_credentials [of p "credentialsSecretName ''db''" w]
  by (auto simp: buildCHIWired_def result_bind)

lemma sample_builds_chk: "\<exists>x. result (buildCHKWired (sample_ctx p) k) w = Inr x"
  using sample_images [of p ComponentKeeper] sample_keeper_storage [of p zero_component w]
  by (auto simp: buildCHKWired_def Let_def result_bind)

lemma tls_on_configuration [simp]: "par_configuration (tls_on m) = []" "par_configuration sample_parameters = []"
  by (simp_all add: tls_on_def sample_parameters_def)

definition secure_wiring :: keeperWiring where
  "secure_wiring = \<lparr>kw_secure = True, kw_plaintext = False, kw_port = 2281\<rparr>"

theorem wiring_applied_and_read_back_witness:
  "\<exists>k i. result (buildCHKWired (sample_ctx (tls_on [])) secure_wiring) empty_cluster = Inr k \<and>
     result (buildCHIWired (sample_ctx (tls_on [])) 2 secure_wiring) empty_cluster = Inr i \<and>
     chiPort (stateOf (Some k) (Some i)) = 2281"
proof -
  obtain k i where k: "result (buildCHKWired (sample_ctx (tls_on [])) secure_wiring) empty_cluster = Inr k"
    and i: "result (buildCHIWired (sample_ctx (tls_on [])) 2 secure_wiring) empty_cluster = Inr i"
    using sample_builds_chk sample_builds_chi tls_on_configuration by meson
  with wiring_applied_and_read_back [OF k i] show ?thesis by (simp add: secure_wiring_def)
qed

text \<open>The TLS files name the server certificate's Secret.\<close>

lemma buildTLSFiles_get:
  assumes "settings_laws (settings_lib_of c)"
  shows "get_setting (settings_lib_of c) (buildTLSFiles c secretName) k =
     map_of [(''openssl.xml'', Scalar (opensslXML secretName)),
             (''server.crt'', FromSecret secretName ''tls.crt''),
             (''server.key'', FromSecret secretName ''tls.key''),
             (''ca.crt'', FromSecret secretName ''ca.crt'')] k"
  using assms
  by (simp add: buildTLSFiles_def Let_def get_fold_settings secretFileSetting_def settings_laws_def del: fold.simps
      split: option.splits)

text \<open>C32. A certificate is mounted exactly where it is needed: by ClickHouse with TLS on, or while it
  still uses Keeper's secure port, and by Keeper while it serves its secure port; replicas talk
  TLS to each other exactly when TLS is on. What is mounted is the Secret \<open>ensureTLS\<close> waits for.\<close>

theorem certificate_mounted_where_used:
  assumes "settings_laws (settings_lib_of c)"
    and "result (buildCHIWired c n wiring) w = Inr x" and "result (buildCHKWired c wiring) w' = Inr k"
  shows "(chi_uses_certificate (settings_lib_of c) x \<longleftrightarrow> tlsEnabled c \<or> kw_port wiring = KeeperSecurePort) \<and>
     (chk_uses_certificate (settings_lib_of c) k \<longleftrightarrow> kw_secure wiring) \<and>
     (\<exists>conf cluster. chi_configuration (chi_spec_of x) = Some conf \<and> chi_clusters conf = [cluster] \<and>
        (cc_secure cluster = Some True \<longleftrightarrow> tlsEnabled c)) \<and>
     get_setting (settings_lib_of c) (buildTLSFiles c (serverSecretName (ctx_name c))) ''server.crt'' =
       Some (FromSecret (serverSecretName (ctx_name c)) ''tls.crt'')"
proof -
  note files = buildTLSFiles_get [OF assms(1), of "serverSecretName (ctx_name c)" "''server.crt''"]
  have has: "has_setting (settings_lib_of c) (buildTLSFiles c (serverSecretName (ctx_name c))) ''server.crt''"
    by (simp add: has_setting_def files)
  obtain img settings user where x: "chi_spec_of x = chiSpec c n wiring img settings user"
    using buildCHIWired_result [OF assms(2)] by auto
  obtain conf cluster where conf: "chi_configuration (chi_spec_of x) = Some conf" "chi_clusters conf = [cluster]"
    "cc_secure cluster = (if tlsEnabled c then Some True else None)"
    "chi_files conf = (if tlsEnabled c \<or> kw_port wiring = KeeperSecurePort
       then Some (buildTLSFiles c (serverSecretName (ctx_name c))) else None)"
    using chiSpec_configuration [of c n wiring img settings user] x by auto
  moreover obtain kconf where "chk_configuration (chk_spec_of k) = Some kconf"
    "chk_files kconf = (if kw_secure wiring then Some (buildTLSFiles c (serverSecretName (ctx_name c))) else None)"
    using buildCHKWired_result [OF assms(3)] by blast
  ultimately show ?thesis
    by (simp add: chi_uses_certificate_def chk_uses_certificate_def files_use_certificate_def has files)
qed

theorem certificate_mounted_where_used_witness:
  "\<exists>x k. result (buildCHIWired (sample_ctx sample_parameters) 2 secure_wiring) empty_cluster = Inr x \<and>
     result (buildCHKWired (sample_ctx sample_parameters) secure_wiring) empty_cluster = Inr k \<and>
     chi_uses_certificate table_settings x \<and> chk_uses_certificate table_settings k"
proof -
  obtain k x where k: "result (buildCHKWired (sample_ctx sample_parameters) secure_wiring) empty_cluster = Inr k"
    and x: "result (buildCHIWired (sample_ctx sample_parameters) 2 secure_wiring) empty_cluster = Inr x"
    using sample_builds_chk sample_builds_chi tls_on_configuration by meson
  with certificate_mounted_where_used [OF _ x k] table_settings_laws show ?thesis
    by (simp add: secure_wiring_def KeeperSecurePort_def)
qed

text \<open>
  References inside an installation: a template that is named exists exactly once; a key of a Secret that a
  setting or the cluster names is in the credentials Secret.
\<close>

definition named_once :: "string \<Rightarrow> string list \<Rightarrow> bool" where
  "named_once n ns \<longleftrightarrow> n = [] \<or> length (filter (\<lambda>m. m = n) ns) = 1"

definition templates_resolve :: "templates \<Rightarrow> templates_list \<Rightarrow> bool" where
  "templates_resolve ts used \<longleftrightarrow>
     named_once (tl_pod_template used) (map pt_name (pod_templates ts)) \<and>
     named_once (tl_data_volume_claim_template used) (map vct_name (volume_claim_templates ts)) \<and>
     named_once (tl_service_template used) (map st_name (service_templates ts))"

definition chi_templates_resolve :: "'s chi_spec \<Rightarrow> bool" where
  "chi_templates_resolve spec \<longleftrightarrow>
     (case (chi_configuration spec, chi_templates spec) of
        (Some conf, Some ts) \<Rightarrow>
          list_all (\<lambda>cluster. templates_resolve ts (cc_templates cluster)) (chi_clusters conf) \<and>
          (case chi_defaults spec of Some (Some used) \<Rightarrow> templates_resolve ts used | _ \<Rightarrow> True)
      | _ \<Rightarrow> False)"

definition chk_templates_resolve :: "chk_cluster list \<Rightarrow> templates \<Rightarrow> bool" where
  "chk_templates_resolve clusters ts \<longleftrightarrow> list_all (\<lambda>cluster. templates_resolve ts (kc_templates cluster)) clusters"

lemma chiSpec_resolves: "chi_templates_resolve (chiSpec c n keeper img settings user)"
proof -
  have cluster: "cc_templates (snd (snd (wireTLS c keeper s cl))) = cc_templates cl"
    "cc_templates (snd (applyInterserverAuth c s cl name)) = cc_templates cl" for s cl name
    by (simp_all add: wireTLS_def applyTLSToCHISpec_def applyInterserverAuth_def Let_def)
  have named: "named_once [] ns" "named_once m [m]" for m ns by (simp_all add: named_once_def)
  show ?thesis
    by (simp add: chi_templates_resolve_def chiSpec_def Let_def case_prod_beta configureExpose_def cluster chiCluster_def
        chiTemplates_def volumeClaimTemplate_def exposeTemplate_def no_templates_def no_templates_list_def
        templates_resolve_def named split: option.splits)
qed

lemma buildCHKWired_resolves:
  assumes "result (buildCHKWired c wiring) w = Inr k"
  shows "\<exists>conf ts. chk_configuration (chk_spec_of k) = Some conf \<and> chk_templates (chk_spec_of k) = Some ts \<and>
     chk_templates_resolve (chk_clusters conf) ts"
  using assms
  by (auto simp: buildCHKWired_def Let_def returns chk_templates_resolve_def templates_resolve_def named_once_def
      chkCluster_def volumeClaimTemplate_def no_templates_def no_templates_list_def split: prod.splits)

lemma userSettings_references:
  "map_of (userSettings secretName username) path = Some (FromSecret sn key) \<Longrightarrow>
     sn = secretName \<and> key \<in> {CredentialsKeyPasswordSHA256, CredentialsKeyDefaultPasswordSHA256}"
  by (drule map_of_SomeD) (auto simp: userSettings_def secretSetting_def)

text \<open>C30. What is applied refers to nothing that is missing: in a built CHI and CHK every pod, volume and Service
  template that is named exists exactly once, and every key of a Secret the users and the cluster refer to
  is filled once the credentials are complete, whatever the parameters are.\<close>

theorem built_references_resolve:
  assumes "settings_laws (settings_lib_of c)" and "\<forall>v. sha256 c v \<noteq> []"
    and "result (buildCHIWired c n wiring) w = Inr x" and "result (buildCHKWired c wiring) w' = Inr k"
    and "\<forall>user. result (credentialsForCHI c (credentialsSecretName (ctx_name c))) w = Inr user \<longrightarrow> fst user \<noteq> ''default''"
    and "credentials_complete c data"
  shows "chi_templates_resolve (chi_spec_of x) \<and>
     (\<exists>kconf ts. chk_configuration (chk_spec_of k) = Some kconf \<and> chk_templates (chk_spec_of k) = Some ts \<and>
        chk_templates_resolve (chk_clusters kconf) ts) \<and>
     (\<exists>conf cluster users. chi_configuration (chi_spec_of x) = Some conf \<and> chi_clusters conf = [cluster] \<and>
        chi_users conf = Some users \<and>
        (\<forall>sn key. cc_secret cluster = Some (sn, key) \<or>
            (\<exists>path. get_setting (settings_lib_of c) users path = Some (FromSecret sn key)) \<longrightarrow>
          sn = credentialsSecretName (ctx_name c) \<and> get0 data key \<noteq> []))"
proof -
  obtain img settings user where user: "result (credentialsForCHI c (credentialsSecretName (ctx_name c))) w = Inr user"
    and x: "chi_spec_of x = chiSpec c n wiring img settings user"
    using buildCHIWired_result [OF assms(3)] by auto
  have filled: "get0 data CredentialsKeyPasswordSHA256 \<noteq> []" "get0 data CredentialsKeyDefaultPasswordSHA256 \<noteq> []"
    "get0 data CredentialsKeyClusterSecret \<noteq> []"
    using assms(2,6) by (auto simp: credentials_complete_def generatedKeys_def sha256Hex_def)
  obtain conf cluster where conf: "chi_configuration (chi_spec_of x) = Some conf" "chi_clusters conf = [cluster]"
    "cc_secret cluster = Some (credentialsSecretName (ctx_name c), CredentialsKeyClusterSecret)"
    "chi_users conf = Some (buildUserSettings c (credentialsSecretName (ctx_name c)) (fst user))"
    using chiSpec_configuration [of c n wiring img settings user] x by auto
  have "sn = credentialsSecretName (ctx_name c) \<and> get0 data key \<noteq> []"
    if "get_setting (settings_lib_of c) (buildUserSettings c (credentialsSecretName (ctx_name c)) (fst user)) path =
        Some (FromSecret sn key)" for sn key path
  proof -
    have "fst user \<noteq> ''default''" using assms(5) user by blast
    with that have "map_of (userSettings (credentialsSecretName (ctx_name c)) (fst user)) path = Some (FromSecret sn key)"
      by (simp add: buildUserSettings_get [OF assms(1)])
    from userSettings_references [OF this] filled show ?thesis by auto
  qed
  then show ?thesis
    using chiSpec_resolves [of c n wiring img settings user] buildCHKWired_resolves [OF assms(4)] conf filled x
    by (intro conjI) auto
qed

theorem built_references_resolve_witness:
  "\<exists>x. result (buildCHIWired (sample_ctx sample_parameters) 2 secure_wiring) empty_cluster = Inr x \<and>
     chi_templates_resolve (chi_spec_of x)"
proof -
  let ?c = "sample_ctx sample_parameters"
  obtain k x where k: "result (buildCHKWired ?c secure_wiring) empty_cluster = Inr k"
    and x: "result (buildCHIWired ?c 2 secure_wiring) empty_cluster = Inr x"
    using sample_builds_chk sample_builds_chi tls_on_configuration by meson
  have "\<forall>user. result (credentialsForCHI ?c (credentialsSecretName (ctx_name ?c))) empty_cluster = Inr user \<longrightarrow>
      fst user \<noteq> ''default''"
    by (simp add: credentialsForCHI_def run_simps get_secret_def lookup_in_def empty_cluster_def AppUserName_def)
  then have "chi_templates_resolve (chi_spec_of x)"
    using built_references_resolve [OF _ _ x k _ sample_secret_complete] table_settings_laws by simp
  with x show ?thesis by blast
qed

text \<open>The operator's documented default ports.\<close>

definition default_operator_ports :: "operator_ports \<Rightarrow> bool" where
  "default_operator_ports ops \<longleftrightarrow> http_number ops = HTTPPort \<and> tcp_number ops = TCPPort \<and>
     https_number ops = HTTPSPort \<and> tls_number ops = TCPSecurePort"

lemma exposedPorts_numbers:
  "default_operator_ports ops \<Longrightarrow> map sport_number (exposedPorts ops mode) = map snd (clientPorts mode)"
  by (simp add: default_operator_ports_def exposedPorts_def clientPorts_def servicePort_def)

lemma exposeTemplate_parts:
  "st_ports (exposeTemplate c svc mode) = exposedPorts (operator_ports_of c) mode"
  "st_name (exposeTemplate c svc mode) = ServiceTemplateName"
  by (auto simp: exposeTemplate_def Let_def split: option.splits)

text \<open>C38. The client Service of a built CHI carries exactly the ports the connection details name,
  and the mode is readable from it: \<open>appliedTLSRequired\<close>, which the network policies follow, holds
  of a CHI exactly when it was built in the required mode.\<close>

theorem applied_mode_readable:
  assumes "default_operator_ports (operator_ports_of c)" and "result (buildCHIWired c n wiring) w = Inr x"
  shows "(appliedTLSRequired x \<longleftrightarrow> tlsRequired c) \<and>
     (\<exists>ts. chi_templates (chi_spec_of x) = Some ts \<and>
        list_all (\<lambda>t. map sport_number (st_ports t) = map snd (clientPorts (tlsMode c))) (service_templates ts))"
proof -
  note nums = exposedPorts_numbers [OF assms(1)]
  obtain img settings user where x: "chi_spec_of x = chiSpec c n wiring img settings user"
    using buildCHIWired_result [OF assms(2)] by auto
  have req: "tlsRequired c \<Longrightarrow> tlsEnabled c" by (simp add: tlsRequired_def)
  have "map snd (clientPorts (tlsMode c)) = (if tlsRequired c then [] else [HTTPPort, TCPPort]) @
      (if tlsEnabled c then [HTTPSPort, TCPSecurePort] else [])"
    by (simp add: clientPorts_def)
  moreover have "list_ex (\<lambda>p. p = HTTPSPort \<or> p = TCPSecurePort) ports \<and> \<not> list_ex (\<lambda>p. p = HTTPPort \<or> p = TCPPort) ports
      \<longleftrightarrow> tlsRequired c"
    if "ports = (if tlsRequired c then [] else [HTTPPort, TCPPort]) @ (if tlsEnabled c then [HTTPSPort, TCPSecurePort] else [])"
    for ports
    using that req by (auto simp: HTTPSPort_def TCPSecurePort_def HTTPPort_def TCPPort_def)
  ultimately show ?thesis
    using req
    by (auto simp: x chiSpec_templates Let_def appliedTLSRequired_def exposeTemplate_parts nums split: option.splits if_splits)
qed

theorem applied_mode_readable_witness:
  "\<exists>x. result (buildCHIWired (sample_ctx (tls_on [])) 2 secure_wiring) empty_cluster = Inr x \<and> appliedTLSRequired x"
proof -
  obtain x where x: "result (buildCHIWired (sample_ctx (tls_on [])) 2 secure_wiring) empty_cluster = Inr x"
    using sample_builds_chi tls_on_configuration by meson
  have "default_operator_ports (operator_ports_of (sample_ctx (tls_on [])))"
    by (simp add: default_operator_ports_def default_ports_def constants)
  moreover have "tlsRequired (sample_ctx (tls_on []))"
    by (simp add: tlsRequired_def tlsEnabled_def tlsParameters_def tls_on_def constants equal_fold_def)
  ultimately show ?thesis using applied_mode_readable [OF _ x] x by simp
qed

end
