(* ===== verification/Rollout.thy ===== *)
theory Rollout
  imports Builders
begin

text \<open>
  \<^verbatim>\<open>rollout.go\<close>: the gate every change of a CHI or CHK passes. A change that follows from an edit
  of the Instance is applied at once; one the provider makes on its own waits for approval.
\<close>

section \<open>Rendered objects\<close>

datatype 's rendered = RCHI "'s chi" | RCHK "'s chk"

fun obj_of :: "'s rendered \<Rightarrow> 's obj" where
  "obj_of (RCHI x) = OCHI x"
| "obj_of (RCHK x) = OCHK x"

fun rendered_name :: "'s rendered \<Rightarrow> string" where
  "rendered_name (RCHI x) = chi_name x"
| "rendered_name (RCHK x) = chk_name x"

definition hashJSON :: "('s, 'w) ctx \<Rightarrow> err + string \<Rightarrow> err + string" where
  "hashJSON c json = (case json of Inl e \<Rightarrow> Inl e | Inr data \<Rightarrow> Inr (sha256Hex c data))"

fun specHash :: "('s, 'w) ctx \<Rightarrow> 's rendered \<Rightarrow> err + string" where
  "specHash c (RCHI x) = hashJSON c (chi_spec_json c (chi_spec_of x))"
| "specHash c (RCHK x) = hashJSON c (chk_spec_json c (chk_spec_of x))"

fun taskID :: "'s rendered \<Rightarrow> string option" where
  "taskID (RCHI x) = chi_task_id (chi_spec_of x)"
| "taskID (RCHK x) = chk_task_id (chk_spec_of x)"

definition taskIDPrefix :: string where "taskIDPrefix = ''openeverest-''"

fun setTaskID :: "string \<Rightarrow> 's rendered \<Rightarrow> 's rendered" where
  "setTaskID t (RCHI x) = RCHI (x\<lparr>chi_spec_of := (chi_spec_of x)\<lparr>chi_task_id := Some t\<rparr>\<rparr>)"
| "setTaskID t (RCHK x) = RCHK (x\<lparr>chk_spec_of := (chk_spec_of x)\<lparr>chk_task_id := Some t\<rparr>\<rparr>)"

definition stampTaskID :: "'s rendered \<Rightarrow> string \<Rightarrow> 's rendered" where
  "stampTaskID x spec = setTaskID (taskIDPrefix @ take 16 spec) x"

text \<open>\<^verbatim>\<open>c.Exists(live, name)\<close>: the read of the object that is applied next.\<close>

fun live_of :: "('s, 'w) ctx \<Rightarrow> 's rendered \<Rightarrow> ('s, 'w, api_error + 's rendered) act" where
  "live_of c (RCHI x) = bind (get_chi c (chi_name x)) (\<lambda>r. ret (map_sum id RCHI r))"
| "live_of c (RCHK x) = bind (get_chk c (chk_name x)) (\<lambda>r. ret (map_sum id RCHK r))"

section \<open>The gate\<close>

record rolloutGate =
  g_record :: labels
  g_inputs :: string
  g_token :: string
  g_approved :: "bool option"

definition specSuffix :: string where "specSuffix = ''.spec''"

definition inputsSuffix :: string where "inputsSuffix = ''.inputs-v3''"

definition targetKey :: string where "targetKey = ''rollout.target''"

lemmas record_keys = specSuffix_def inputsSuffix_def targetKey_def

definition inputsHash :: "('s, 'w) ctx \<Rightarrow> ('s, 'w, string) act" where
  "inputsHash c =
     bind (get_instance c (ctx_name c)) (\<lambda>r. case r of
       Inl e \<Rightarrow> throw (Errorf ''read stored Instance: %w'' [AErr (ApiErr e)])
     | Inr stored \<Rightarrow>
         bind (getOptional (credentialsSecretName (ctx_name c)) (get_secret c (credentialsSecretName (ctx_name c)))) (\<lambda>found.
           let credentials = (case found of None \<Rightarrow> [] | Some s \<Rightarrow> userCredentialsRevision s)
           in lift_result (hashJSON c (inputs_json c (inst_version stored, inst_topology stored,
                inst_parameters stored, inst_components stored, credentials)))))"

definition recordKey :: "string \<Rightarrow> bool" where
  "recordKey k = (has_suffix k specSuffix \<or> has_suffix k inputsSuffix \<or> k = targetKey)"

definition releaseName :: "('s, 'w) ctx \<Rightarrow> string" where
  "releaseName c =
     (case provider_spec_of c of
        Inr spec \<Rightarrow> if release_version spec \<noteq> [] then release_version spec else ''change''
      | Inl _ \<Rightarrow> ''change'')"

text \<open>The hash of each object in turn; the first error ends the loop.\<close>

fun specHashes :: "('s, 'w) ctx \<Rightarrow> 's rendered list \<Rightarrow> err + string" where
  "specHashes c [] = Inr []"
| "specHashes c (x # xs) =
     (case specHash c x of
        Inl e \<Rightarrow> Inl e
      | Inr h \<Rightarrow> (case specHashes c xs of Inl e \<Rightarrow> Inl e | Inr hs \<Rightarrow> Inr (h @ hs)))"

definition newRolloutGate :: "('s, 'w) ctx \<Rightarrow> 's rendered list \<Rightarrow> ('s, 'w, rolloutGate) act" where
  "newRolloutGate c objects =
     bind (get_secret c (rolloutStateName (ctx_name c))) (\<lambda>r.
       case (case r of Inr s \<Rightarrow> Inr (filter (\<lambda>(k, _). recordKey k) (secret_data s))
               | Inl NotFound \<Rightarrow> Inr []
               | Inl e \<Rightarrow> Inl (Errorf ''read rollout state: %w'' [AErr (ApiErr e)])) of
         Inl e \<Rightarrow> throw e
       | Inr state \<Rightarrow>
           bind (inputsHash c) (\<lambda>inputs.
           bind (lift_result (specHashes c objects)) (\<lambda>hashes.
           ret \<lparr>g_record = state, g_inputs = inputs,
                g_token = ''provider-'' @ releaseName c @ ''-'' @ take 8 (sha256Hex c hashes),
                g_approved = None\<rparr>)))"

definition save :: "('s, 'w) ctx \<Rightarrow> rolloutGate \<Rightarrow> ('s, 'w, unit) act" where
  "save c g =
     must (\<lambda>e. Errorf ''record rollout state: %w'' [AErr (ApiErr e)])
       (apply_obj c (OSecret \<lparr>secret_name = rolloutStateName (ctx_name c), secret_data = g_record g\<rparr>))"

definition maintenanceAction :: "rolloutGate \<Rightarrow> pending_action" where
  "maintenanceAction g = \<lparr>pending_token = g_token g,
     pending_description = ''Apply the provider's updated ClickHouse configuration (rolling restart)'',
     pending_severity = MaintenanceRollingRestart\<rparr>"

text \<open>May the change be applied without asking?\<close>

definition allowedAtOnce :: "rolloutGate \<Rightarrow> string \<Rightarrow> string \<Rightarrow> bool \<Rightarrow> bool" where
  "allowedAtOnce g key spec exists =
     (let recordedInputs = get0 (g_record g) (key @ inputsSuffix);
          recordedSpec = get0 (g_record g) (key @ specSuffix)
      in \<not> exists \<or> recordedSpec = [] \<or> recordedSpec = spec \<or>
         (recordedInputs \<noteq> [] \<and> recordedInputs \<noteq> g_inputs g) \<or>
         get0 (g_record g) targetKey = g_token g)"

definition askMaintenance :: "('s, 'w) ctx \<Rightarrow> rolloutGate \<Rightarrow> ('s, 'w, bool \<times> rolloutGate) act" where
  "askMaintenance c g =
     (case g_approved g of
        Some a \<Rightarrow> ret (a, g)
      | None \<Rightarrow> bind (request_maintenance c (maintenanceAction g)) (\<lambda>a. ret (a, g\<lparr>g_approved := Some a\<rparr>)))"

definition recorded :: "rolloutGate \<Rightarrow> string \<Rightarrow> string \<Rightarrow> rolloutGate" where
  "recorded g key spec =
     (let unchanged = (get0 (g_record g) (key @ specSuffix) = spec);
          r = put (key @ inputsSuffix) (g_inputs g) (put (key @ specSuffix) spec (g_record g))
      in g\<lparr>g_record := if unchanged then r else put targetKey (g_token g) r\<rparr>)"

definition stamped :: "rolloutGate \<Rightarrow> string \<Rightarrow> string \<Rightarrow> 's rendered option \<Rightarrow> 's rendered \<Rightarrow> 's rendered" where
  "stamped g key spec live x =
     (let recordedSpec = get0 (g_record g) (key @ specSuffix);
          changed = (recordedSpec \<noteq> spec \<and> recordedSpec \<noteq> [])
      in if live = None \<or> changed \<or> (case live of Some l \<Rightarrow> taskID l \<noteq> None | None \<Rightarrow> False)
         then stampTaskID x spec else x)"

text \<open>
  The ID an object carries, if any, is a function of the rest of its rendering: the start of its fingerprint.
\<close>

fun clearTaskID :: "'s rendered \<Rightarrow> 's rendered" where
  "clearTaskID (RCHI x) = RCHI (x\<lparr>chi_spec_of := (chi_spec_of x)\<lparr>chi_task_id := None\<rparr>\<rparr>)"
| "clearTaskID (RCHK x) = RCHK (x\<lparr>chk_spec_of := (chk_spec_of x)\<lparr>chk_task_id := None\<rparr>\<rparr>)"

definition task_names_rendering :: "('s, 'w) ctx \<Rightarrow> 's rendered \<Rightarrow> bool" where
  "task_names_rendering c y \<longleftrightarrow>
     (case taskID y of None \<Rightarrow> True
      | Some t \<Rightarrow> (case specHash c (clearTaskID y) of Inl _ \<Rightarrow> False | Inr h \<Rightarrow> t = taskIDPrefix @ take 16 h))"

lemma clear_unset: "taskID x = None \<Longrightarrow> clearTaskID x = x"
  by (cases x) simp_all

lemma stamped_names:
  assumes "taskID x = None" and "specHash c x = Inr spec"
  shows "task_names_rendering c (stamped g key spec live x)"
proof -
  have "clearTaskID (setTaskID t x) = clearTaskID x" "taskID (setTaskID t x) = Some t" for t by (cases x; simp)+
  then show ?thesis
    using assms by (simp add: task_names_rendering_def stamped_def stampTaskID_def Let_def clear_unset)
qed

text \<open>
  \<^verbatim>\<open>(*rolloutGate).apply\<close>; the gate the pointer refers to is returned with the answer.
\<close>

definition applyAllowed ::
    "('s, 'w) ctx \<Rightarrow> rolloutGate \<Rightarrow> 's rendered \<Rightarrow> string \<Rightarrow> string \<Rightarrow> 's rendered option \<Rightarrow>
       ('s, 'w, bool \<times> rolloutGate) act" where
  "applyAllowed c g x key spec live =
     andthen (must ApiErr (apply_obj c (obj_of (stamped g key spec live x))))
       (if get0 (g_record g) (key @ specSuffix) = spec \<and> get0 (g_record g) (key @ inputsSuffix) = g_inputs g
        then ret (True, g)
        else andthen (save c (recorded g key spec)) (ret (True, recorded g key spec)))"

definition gateApply ::
    "('s, 'w) ctx \<Rightarrow> rolloutGate \<Rightarrow> 's rendered \<Rightarrow> string \<Rightarrow> ('s, 'w, bool \<times> rolloutGate) act" where
  "gateApply c g x key =
     bind (lift_result (specHash c x)) (\<lambda>spec.
     bind (live_of c x) (\<lambda>r.
       case (case r of Inr l \<Rightarrow> Inr (Some l) | Inl NotFound \<Rightarrow> Inr None | Inl e \<Rightarrow> Inl e) of
         Inl e \<Rightarrow> throw (Errorf ''check %s: %w'' [AStr (rendered_name x), AErr (ApiErr e)])
       | Inr live \<Rightarrow>
           bind (if allowedAtOnce g key spec (live \<noteq> None) then ret (True, g) else askMaintenance c g)
             (\<lambda>(allowed, g1). if \<not> allowed then ret (False, g1) else applyAllowed c g1 x key spec live)))"

section \<open>The gate, step by step\<close>

fun is_request :: "'s event \<Rightarrow> bool" where
  "is_request (Requested a r) = True"
| "is_request _ = False"

lemma live_of_runs:
  "\<exists>r. result (live_of c x) w = Inr r"
  "e \<in> set (events (live_of c x) w) \<Longrightarrow> \<not> is_write e \<and> \<not> is_request e"
  by (cases x; auto simp: get_chi_def get_chk_def run_simps)+

text \<open>The object read, if the read allows the gate to go on.\<close>

definition live_read :: "('s, 'w) ctx \<Rightarrow> 's rendered \<Rightarrow> 'w \<Rightarrow> 's rendered option \<Rightarrow> bool" where
  "live_read c x w live \<longleftrightarrow>
     (case live of Some l \<Rightarrow> result (live_of c x) w = Inr (Inr l) | None \<Rightarrow> result (live_of c x) w = Inr (Inl NotFound))"

text \<open>Once the rendering is fingerprinted and the object read, \<open>gateDecide\<close> is the rest of \<open>gateApply\<close>.\<close>

definition gateDecide ::
    "('s, 'w) ctx \<Rightarrow> rolloutGate \<Rightarrow> 's rendered \<Rightarrow> string \<Rightarrow> string \<Rightarrow> 's rendered option \<Rightarrow>
       ('s, 'w, bool \<times> rolloutGate) act" where
  "gateDecide c g x key spec live =
     bind (if allowedAtOnce g key spec (live \<noteq> None) then ret (True, g) else askMaintenance c g)
       (\<lambda>(allowed, g1). if \<not> allowed then ret (False, g1) else applyAllowed c g1 x key spec live)"

lemma gateApply_decides:
  assumes "specHash c x = Inr spec" and "live_read c x w live"
  shows "result (gateApply c g x key) w = result (gateDecide c g x key spec live) (world (live_of c x) w)"
    and "events (gateApply c g x key) w =
      events (live_of c x) w @ events (gateDecide c g x key spec live) (world (live_of c x) w)"
  using assms
  by (auto simp: gateApply_def gateDecide_def live_read_def run_simps split: option.splits)

lemma gateApply_fails:
  assumes "\<not> (\<exists>spec live. specHash c x = Inr spec \<and> live_read c x w live)"
  shows "\<exists>e. result (gateApply c g x key) w = Inl e"
    and "e \<in> set (events (gateApply c g x key) w) \<Longrightarrow> \<not> is_write e \<and> \<not> is_request e"
proof -
  obtain r where r: "result (live_of c x) w = Inr r" using live_of_runs(1) [of c x w] by (elim exE)
  have "\<exists>err. result (gateApply c g x key) w = Inl err \<and>
      set (events (gateApply c g x key) w) \<subseteq> set (events (live_of c x) w)"
  proof (cases "specHash c x")
    case (Inl e)
    then show ?thesis by (simp add: gateApply_def run_simps)
  next
    case (Inr spec)
    with assms have "result (live_of c x) w \<noteq> Inr (Inl NotFound)" "\<And>l. result (live_of c x) w \<noteq> Inr (Inr l)"
      by (auto simp: live_read_def split: option.splits)
    with r obtain e where "r = Inl e" "e \<noteq> NotFound" by (cases r) auto
    with r Inr show ?thesis by (simp add: gateApply_def run_simps split: api_error.splits)
  qed
  then show "\<exists>e. result (gateApply c g x key) w = Inl e"
    "e \<in> set (events (gateApply c g x key) w) \<Longrightarrow> \<not> is_write e \<and> \<not> is_request e"
    using live_of_runs(2) [of e c x w] by auto
qed

lemma gateApply_Inr:
  assumes "result (gateApply c g x key) w = Inr out"
  obtains spec live where "specHash c x = Inr spec" and "live_read c x w live"
    and "result (gateDecide c g x key spec live) (world (live_of c x) w) = Inr out"
  using assms gateApply_fails(1) [of c x w g key] gateApply_decides(1) [of c x _ w _ g key] by (metis Inl_Inr_False)

lemma emits_applyAllowed_no_request: "emits (\<lambda>e. \<not> is_request e) (applyAllowed c g x key spec live)"
  unfolding applyAllowed_def save_def by (intro emits_rules) simp_all

text \<open>The answer to a request for maintenance, cached in the gate.\<close>

lemma askMaintenance_runs:
  "result (askMaintenance c g) w =
     (case g_approved g of Some a \<Rightarrow> Inr (a, g)
      | None \<Rightarrow> Inr (fst (api_request_maintenance c (maintenanceAction g) w),
          g\<lparr>g_approved := Some (fst (api_request_maintenance c (maintenanceAction g) w))\<rparr>))"
  "events (askMaintenance c g) w =
     (case g_approved g of Some a \<Rightarrow> []
      | None \<Rightarrow> [Requested (maintenanceAction g) (fst (api_request_maintenance c (maintenanceAction g) w))])"
  by (auto simp: askMaintenance_def request_maintenance_def run_simps split: option.splits)

text \<open>What a successful apply of an allowed change returns and has applied.\<close>

lemma applyAllowed_Inr:
  assumes "result (applyAllowed c g x key spec live) w = Inr (ok, g')"
  shows "ok \<and> Applied (obj_of (stamped g key spec live x)) None \<in> set (events (applyAllowed c g x key spec live) w) \<and>
     (if get0 (g_record g) (key @ specSuffix) = spec \<and> get0 (g_record g) (key @ inputsSuffix) = g_inputs g
      then g' = g
      else g' = recorded g key spec \<and>
        Applied (OSecret \<lparr>secret_name = rolloutStateName (ctx_name c), secret_data = g_record g'\<rparr>) None
          \<in> set (events (applyAllowed c g x key spec live) w))"
  using assms
  by (auto simp: applyAllowed_def save_def andthen_Inr in_events_andthen must_Inr apply_obj_def split: if_splits option.splits)

section \<open>Properties\<close>

text \<open>
  A change is the provider's own when the rendering differs from the recorded one, the recorded
  inputs do not show an edit, and its token is not the one last approved.
\<close>

definition provider_change :: "rolloutGate \<Rightarrow> string \<Rightarrow> string \<Rightarrow> bool" where
  "provider_change g key spec \<longleftrightarrow>
     get0 (g_record g) (key @ specSuffix) \<notin> {[], spec} \<and>
     get0 (g_record g) (key @ inputsSuffix) \<in> {[], g_inputs g} \<and>
     get0 (g_record g) targetKey \<noteq> g_token g"

lemma provider_change_not_allowed: "provider_change g key spec \<Longrightarrow> \<not> allowedAtOnce g key spec True"
  by (auto simp: provider_change_def allowedAtOnce_def)

text \<open>C7. A change the provider makes on its own to a running cluster is applied only with approval:
  every write is preceded by a granted request (or the gate's cached one); without it nothing is
  written, the gate reports the change as held and the record stays as it was.\<close>

theorem provider_change_needs_approval:
  assumes "specHash c x = Inr spec" and "result (live_of c x) w = Inr (Inr live)" and "provider_change g key spec"
  shows "\<exists>a. (g_approved g = Some a \<or> g_approved g = None \<and> Requested (maintenanceAction g) a \<in> set (events (gateApply c g x key) w)) \<and>
     (if a then guarded is_write (\<lambda>e. e = Requested (maintenanceAction g) True) (events (gateApply c g x key) w) \<or> g_approved g = Some True
      else (\<exists>g'. result (gateApply c g x key) w = Inr (False, g') \<and> g_record g' = g_record g) \<and>
           filter is_write (events (gateApply c g x key) w) = [])"
proof -
  from assms(2) have lr: "live_read c x w (Some live)" by (simp add: live_read_def)
  note run = gateApply_decides [OF assms(1) lr, of g key]
  let ?v = "world (live_of c x) w" and ?a = "fst (api_request_maintenance c (maintenanceAction g) (world (live_of c x) w))"
  have quiet: "filter is_write (events (live_of c x) w) = []"
    using live_of_runs(2) [of _ c x w] by (auto simp: filter_empty_conv)
  have d: "gateDecide c g x key spec (Some live) = bind (askMaintenance c g)
      (\<lambda>(allowed, g1). if \<not> allowed then ret (False, g1) else applyAllowed c g1 x key spec (Some live))"
    by (simp add: gateDecide_def provider_change_not_allowed [OF assms(3)])
  show ?thesis
  proof (cases "g_approved g")
    case (Some a)
    then show ?thesis
      by (intro exI [of _ a]) (auto simp: run d run_simps askMaintenance_runs quiet)
  next
    case None
    have "guarded is_write (\<lambda>e. e = Requested (maintenanceAction g) True) (events (live_of c x) w @ Requested (maintenanceAction g) True # es)" for es
      using quiet by (auto simp: guarded_append filter_empty_conv intro: guarded_none)
    with None show ?thesis
      by (intro exI [of _ ?a]) (auto simp: run d run_simps askMaintenance_runs quiet)
  qed
qed

text \<open>C20. A user's edit of the Instance is never held: when the recorded inputs differ from the
  current ones the gate asks nobody, applies the rendering and records it with the new inputs.\<close>

theorem user_edit_applied_at_once:
  assumes "specHash c x = Inr spec"
    and "get0 (g_record g) (key @ inputsSuffix) \<notin> {[], g_inputs g}"
    and "result (gateApply c g x key) w = Inr (ok, g')"
  shows "ok \<and> filter is_request (events (gateApply c g x key) w) = [] \<and>
     (\<exists>y. rendered_name y = rendered_name x \<and> Applied (obj_of y) None \<in> set (events (gateApply c g x key) w)) \<and>
     get0 (g_record g') (key @ specSuffix) = spec \<and> get0 (g_record g') (key @ inputsSuffix) = g_inputs g"
proof -
  obtain spec' live where s: "specHash c x = Inr spec'" and lr: "live_read c x w live"
    and d: "result (gateDecide c g x key spec' live) (world (live_of c x) w) = Inr (ok, g')"
    using assms(3) by (rule gateApply_Inr)
  with assms(1) have [simp]: "spec' = spec" by simp
  let ?v = "world (live_of c x) w"
  have "allowedAtOnce g key spec (live \<noteq> None)" using assms(2) by (simp add: allowedAtOnce_def Let_def)
  then have run: "result (gateDecide c g x key spec live) = result (applyAllowed c g x key spec live)"
    "events (gateDecide c g x key spec live) = events (applyAllowed c g x key spec live)"
    by (auto simp: gateDecide_def run_simps fun_eq_iff)
  have ok: "ok \<and> Applied (obj_of (stamped g key spec live x)) None \<in> set (events (applyAllowed c g x key spec live) ?v) \<and>
      g' = recorded g key spec"
    using applyAllowed_Inr [of c g x key spec live ?v ok g'] d assms(2) by (simp add: run split: if_splits)
  have noreq: "filter is_request (events (gateApply c g x key) w) = []"
    using live_of_runs(2) [of _ c x w] emitsD [OF emits_applyAllowed_no_request, of _ c g x key spec live ?v]
    by (auto simp: gateApply_decides(2) [OF assms(1) lr] run filter_empty_conv)
  have name: "rendered_name (stamped g key spec live x) = rendered_name x"
    by (cases x) (auto simp: stamped_def stampTaskID_def Let_def)
  have keys: "key @ specSuffix \<noteq> key @ inputsSuffix" by (simp add: record_keys)
  have tgt: "targetKey \<noteq> key @ specSuffix" "targetKey \<noteq> key @ inputsSuffix"
    by (auto simp: record_keys dest: arg_cong [where f = last])
  show ?thesis
    using ok noreq name keys tgt
    by (auto simp: gateApply_decides(2) [OF assms(1) lr] run recorded_def Let_def)
qed

text \<open>The objects of one reconcile, applied one after the other through one gate.\<close>

fun applyEach :: "('s, 'w) ctx \<Rightarrow> rolloutGate \<Rightarrow> ('s rendered \<times> string) list \<Rightarrow> ('s, 'w, rolloutGate) act" where
  "applyEach c g [] = ret g"
| "applyEach c g ((x, key) # xs) = bind (gateApply c g x key) (\<lambda>(_, g'). applyEach c g' xs)"

lemma applyAllowed_approved: "result (applyAllowed c g x key spec live) w = Inr (ok, g') \<Longrightarrow> g_approved g' = g_approved g"
  using applyAllowed_Inr [of c g x key spec live w ok g'] by (auto simp: recorded_def Let_def split: if_splits)

lemma no_request_in_applyAllowed [simp]: "filter is_request (events (applyAllowed c g x key spec live) w) = []"
  using emitsD [OF emits_applyAllowed_no_request] by (fastforce simp: filter_empty_conv)

lemma no_request_in_live [simp]: "filter is_request (events (live_of c x) w) = []"
  using live_of_runs(2) [of _ c x w] by (auto simp: filter_empty_conv)

lemma gateDecide_requests:
  "length (filter is_request (events (gateDecide c g x key spec live) w)) \<le> (if g_approved g = None then 1 else 0)"
  by (auto simp: gateDecide_def run_simps askMaintenance_runs split: option.splits)

lemma gateDecide_approved:
  "result (gateDecide c g x key spec live) w = Inr (ok, g') \<Longrightarrow>
     (if filter is_request (events (gateDecide c g x key spec live) w) = [] then g_approved g' = g_approved g
      else g_approved g' \<noteq> None)"
  by (auto simp: gateDecide_def bind_Inr events_bind askMaintenance_runs dest!: applyAllowed_approved split: option.splits if_splits)

lemma gateApply_requests:
  "length (filter is_request (events (gateApply c g x key) w)) \<le> (if g_approved g = None then 1 else 0)"
proof (cases "\<exists>spec live. specHash c x = Inr spec \<and> live_read c x w live")
  case True
  then show ?thesis using gateDecide_requests [of c g x key] by (auto simp: gateApply_decides)
next
  case False
  then have "filter is_request (events (gateApply c g x key) w) = []"
    using gateApply_fails(2) [OF False] by (auto simp: filter_empty_conv)
  then show ?thesis by simp
qed

lemma gateApply_approved:
  assumes "result (gateApply c g x key) w = Inr (ok, g')"
  shows "if filter is_request (events (gateApply c g x key) w) = [] then g_approved g' = g_approved g
     else g_approved g' \<noteq> None"
  using assms
proof (rule gateApply_Inr)
  fix spec live
  assume "specHash c x = Inr spec" "live_read c x w live"
    "result (gateDecide c g x key spec live) (world (live_of c x) w) = Inr (ok, g')"
  then show ?thesis using gateDecide_approved [of c g x key spec live] by (simp add: gateApply_decides)
qed

lemma applyEach_requests:
  "length (filter is_request (events (applyEach c g xs) w)) \<le> (if g_approved g = None then 1 else 0)"
proof (induction xs arbitrary: g w)
  case (Cons xk xs)
  obtain x key where xk: "xk = (x, key)" by (cases xk)
  show ?case
  proof (cases "result (gateApply c g x key) w")
    case (Inl e)
    then show ?thesis using gateApply_requests [of c g x key w] by (simp add: xk events_bind)
  next
    case (Inr out)
    then obtain ok g' where out: "result (gateApply c g x key) w = Inr (ok, g')" by (cases out) auto
    let ?w = "world (gateApply c g x key) w"
    have "length (filter is_request (events (applyEach c g' xs) ?w)) \<le> (if g_approved g' = None then 1 else 0)"
      by (rule Cons.IH)
    then show ?thesis
      using gateApply_requests [of c g x key w] gateApply_approved [OF out]
      by (auto simp: xk events_bind out split: if_splits)
  qed
qed simp

text \<open>However many objects one reconcile applies through its gate, whatever the answers and
  errors, the user is asked at most once.\<close>

lemma one_request_per_reconcile: "length (filter is_request (events (applyEach c g xs) w)) \<le> 1"
  using applyEach_requests [of c g xs w] by (auto split: if_splits)

text \<open>Reapplying a rendering is a no-op for the operator and the record: the next reconcile with
  the same inputs applies the very same object (task ID included) and writes nothing else.\<close>

lemma reapply_is_noop:
  assumes "result (gateApply c g x key) w = Inr (True, g')" and "taskID x = None"
    and "Applied (obj_of y) None \<in> set (events (gateApply c g x key) w)"
    and "g_record h = g_record g'" and "g_inputs h = g_inputs g"
    and "result (live_of c x) v = Inr (Inr live)" and "taskID live = taskID y"
  shows "\<exists>r. filter is_write (events (gateApply c h x key) v) = [Applied (obj_of y) r] \<and>
     filter is_request (events (gateApply c h x key) v) = [] \<and>
     (result (gateApply c h x key) v = Inr (True, h) \<or> (\<exists>e. r = Some e))"
proof -
  obtain spec live0 where s: "specHash c x = Inr spec" and lr: "live_read c x w live0"
    and d: "result (gateDecide c g x key spec live0) (world (live_of c x) w) = Inr (True, g')"
    using assms(1) by (rule gateApply_Inr)
  let ?w = "world (live_of c x) w"
  obtain g1 w1 where g1: "result (applyAllowed c g1 x key spec live0) w1 = Inr (True, g')"
    and rec: "g_record g1 = g_record g" "g_inputs g1 = g_inputs g"
    and ev: "\<And>e. is_write e \<Longrightarrow> e \<in> set (events (gateDecide c g x key spec live0) ?w) \<Longrightarrow>
          e \<in> set (events (applyAllowed c g1 x key spec live0) w1)"
    using d by (fastforce simp: gateDecide_def bind_Inr in_events_bind askMaintenance_runs split: if_splits option.splits)
  have st: "stamped g1 key spec live0 x = stamped g key spec live0 x"
    by (simp add: stamped_def rec)
  have "Applied (obj_of y) None \<in> set (events (applyAllowed c g1 x key spec live0) w1)"
    using assms(3) live_of_runs(2) [of "Applied (obj_of y) None" c x w] ev
    by (auto simp: gateApply_decides(2) [OF s lr])
  then have y: "y = stamped g key spec live0 x"
    by (cases y; cases "stamped g key spec live0 x")
      (auto simp: applyAllowed_def in_events_andthen save_def apply_obj_def st split: if_splits)
  have keys: "key @ specSuffix \<noteq> key @ inputsSuffix" "targetKey \<noteq> key @ specSuffix" "targetKey \<noteq> key @ inputsSuffix"
    by (auto simp: record_keys dest: arg_cong [where f = last])
  have settled: "get0 (g_record h) (key @ specSuffix) = spec \<and> get0 (g_record h) (key @ inputsSuffix) = g_inputs h"
    using applyAllowed_Inr [OF g1] keys rec assms(4,5)
    by (auto simp: recorded_def Let_def split: if_splits)
  have stamp: "stamped h key spec (Some live) x = y"
    using assms(2,7) settled y by (cases x) (auto simp: stamped_def stampTaskID_def Let_def)
  have lr2: "live_read c x v (Some live)" using assms(6) by (simp add: live_read_def)
  have run: "gateDecide c h x key spec (Some live) = applyAllowed c h x key spec (Some live)"
    using settled by (simp add: gateDecide_def allowedAtOnce_def Let_def bind_def ret_def)
  have quiet: "filter is_write (events (live_of c x) v) = []"
    using live_of_runs(2) [of _ c x v] by (auto simp: filter_empty_conv)
  show ?thesis
    using settled quiet
    by (auto simp: gateApply_decides [OF s lr2] run applyAllowed_def stamp andthen_run apply_obj_def
        split: option.splits)
qed

text \<open>What the gate saves, a later gate reads back: the keys it writes are those it keeps.\<close>

lemma recordKey_written: "recordKey (key @ specSuffix)" "recordKey (key @ inputsSuffix)" "recordKey targetKey"
  by (simp_all add: recordKey_def has_suffix_iff)

lemma put_keys: "P k \<Longrightarrow> list_all (\<lambda>(k, _). P k) m \<Longrightarrow> list_all (\<lambda>(k, _). P k) (put k v m)"
  by (induction m) auto

lemma recorded_keys:
  "list_all (\<lambda>(k, _). recordKey k) (g_record g) \<Longrightarrow> list_all (\<lambda>(k, _). recordKey k) (g_record (recorded g key spec))"
  by (simp add: recorded_def Let_def put_keys recordKey_written)

lemma newRolloutGate_reads:
  assumes "api_get_secret c (rolloutStateName (ctx_name c)) w = (Inr s, w')"
    and "list_all (\<lambda>(k, _). recordKey k) (secret_data s)" and "result (newRolloutGate c objects) w = Inr h"
  shows "g_record h = secret_data s \<and> g_approved h = None"
proof -
  have "filter (\<lambda>(k, _). recordKey k) (secret_data s) = secret_data s"
    using assms(2) by (auto simp: filter_id_conv list_all_iff)
  with assms(1,3) show ?thesis
    by (auto simp: newRolloutGate_def get_secret_def bind_Inr)
qed

text \<open>C17. An approved change made in steps is approved once: after a step is applied and recorded, a
  later reconcile whose gate reads that record back and leads to the same target (the same token)
  applies every further step of either object without asking.\<close>

theorem approval_covers_later_steps:
  assumes "result (gateApply c g x key) w = Inr (True, g')" and "list_all (\<lambda>(k, _). recordKey k) (g_record g)"
    and "specHash c x = Inr spec" and "get0 (g_record g) (key @ specSuffix) \<noteq> spec"
    and "api_get_secret c (rolloutStateName (ctx_name c)) v =
      (Inr \<lparr>secret_name = rolloutStateName (ctx_name c), secret_data = g_record g'\<rparr>, v')"
    and "result (newRolloutGate c objects) v = Inr h" and "g_token h = g_token g"
  shows "Applied (OSecret \<lparr>secret_name = rolloutStateName (ctx_name c), secret_data = g_record g'\<rparr>) None
       \<in> set (events (gateApply c g x key) w) \<and>
     filter is_request (events (gateApply c h x2 key2) w2) = [] \<and>
     result (gateApply c h x2 key2) w2 \<noteq> Inr (False, h2)"
proof -
  obtain spec' live0 where s: "specHash c x = Inr spec'" and lr: "live_read c x w live0"
    and d: "result (gateDecide c g x key spec' live0) (world (live_of c x) w) = Inr (True, g')"
    using assms(1) by (rule gateApply_Inr)
  from s assms(3) have [simp]: "spec' = spec" by simp
  let ?w = "world (live_of c x) w"
  let ?e = "Applied (OSecret \<lparr>secret_name = rolloutStateName (ctx_name c), secret_data = g_record g'\<rparr>) None"
  obtain g1 w1 where g1: "result (applyAllowed c g1 x key spec live0) w1 = Inr (True, g')"
    and rec: "g_record g1 = g_record g" "g_token g1 = g_token g"
    and ev: "\<And>e. e \<in> set (events (applyAllowed c g1 x key spec live0) w1) \<Longrightarrow>
          e \<in> set (events (gateDecide c g x key spec live0) ?w)"
    using d by (fastforce simp: gateDecide_def bind_Inr in_events_bind askMaintenance_runs split: if_splits option.splits)
  from applyAllowed_Inr [OF g1] assms(4) rec have g': "g' = recorded g1 key spec"
    and saved: "?e \<in> set (events (applyAllowed c g1 x key spec live0) w1)"
    by (auto split: if_splits)
  have target: "get0 (g_record g') targetKey = g_token g"
    using assms(4) rec by (simp add: g' recorded_def Let_def)
  have keys: "list_all (\<lambda>(k, _). recordKey k) (g_record g')"
    using recorded_keys [of g1 key spec] assms(2) rec by (simp add: g')
  have h: "get0 (g_record h) targetKey = g_token h"
    using newRolloutGate_reads [OF assms(5) _ assms(6)] keys target assms(7) by simp
  have dec: "gateDecide c h x2 key2 sp l = applyAllowed c h x2 key2 sp l" for sp l
    using h by (simp add: gateDecide_def allowedAtOnce_def Let_def bind_def ret_def)
  have "filter is_request (events (gateApply c h x2 key2) w2) = [] \<and> result (gateApply c h x2 key2) w2 \<noteq> Inr (False, h2)"
  proof (cases "\<exists>sp l. specHash c x2 = Inr sp \<and> live_read c x2 w2 l")
    case True
    then obtain sp l where r: "specHash c x2 = Inr sp" "live_read c x2 w2 l" by blast
    then show ?thesis
      using applyAllowed_Inr [of c h x2 key2 sp l "world (live_of c x2) w2" False h2]
      by (auto simp: gateApply_decides [OF r] dec)
  next
    case False
    then show ?thesis
      using gateApply_fails [OF False, where g = h and key = key2] by (auto simp: filter_empty_conv)
  qed
  moreover have "?e \<in> set (events (gateApply c g x key) w)"
    using ev [OF saved] by (simp add: gateApply_decides(2) [OF s lr])
  ultimately show ?thesis by blast
qed

section \<open>Instances\<close>

text \<open>A recorded, running CHI whose rendering a newer provider changes, with the Instance unchanged.\<close>

definition plain_rendered :: "setting table rendered" where
  "plain_rendered = RCHI plain_chi"

definition held_gate :: rolloutGate where
  "held_gate = \<lparr>g_record = [(''chi.spec'', ''old''), (''chi.inputs-v3'', ''in'')], g_inputs = ''in'',
     g_token = ''provider-0.3.0-12345678'', g_approved = None\<rparr>"

definition running_cluster :: cluster where
  "running_cluster = empty_cluster\<lparr>cl_chi := [(''db'', plain_chi)]\<rparr>"

lemma plain_hash: "specHash (sample_ctx p) plain_rendered = Inr (sha256Hex (sample_ctx p) ''chi'')"
  by (simp add: plain_rendered_def plain_chi_def hashJSON_def)

lemma plain_hash_value: "sha256Hex (sample_ctx p) ''chi'' \<noteq> ''old'' \<and> sha256Hex (sample_ctx p) ''chi'' \<noteq> []"
proof -
  have "length (sha256Hex (sample_ctx p) ''chi'') = 64"
    by (simp add: sha256Hex_def)
  then show ?thesis by auto
qed

lemma running_live: "result (live_of (sample_ctx p) plain_rendered) running_cluster = Inr (Inr plain_rendered)"
  by (simp add: plain_rendered_def plain_chi_def get_chi_def run_simps lookup_in_def running_cluster_def)

lemma held_change: "provider_change held_gate ''chi'' (sha256Hex (sample_ctx p) ''chi'')"
  using plain_hash_value [of p]
  by (auto simp: provider_change_def held_gate_def record_keys get0_def)

theorem provider_change_needs_approval_witness:
  "\<exists>a. Requested (maintenanceAction held_gate) a \<in>
     set (events (gateApply (sample_ctx sample_parameters) held_gate plain_rendered ''chi'') running_cluster)"
  using provider_change_needs_approval [OF plain_hash running_live held_change, of sample_parameters]
  by (auto simp: held_gate_def)

text \<open>The same gate after the user edits the Instance.\<close>

definition edited_gate :: rolloutGate where
  "edited_gate = held_gate\<lparr>g_inputs := ''in2''\<rparr>"

lemma edited_result:
  "\<exists>g'. result (gateApply (sample_ctx p) edited_gate plain_rendered ''chi'') running_cluster = Inr (True, g')"
proof -
  have lr: "live_read (sample_ctx p) plain_rendered running_cluster (Some plain_rendered)"
    by (simp add: live_read_def running_live)
  have at_once: "allowedAtOnce edited_gate ''chi'' spec True" for spec
    by (simp add: allowedAtOnce_def edited_gate_def held_gate_def record_keys get0_def)
  show ?thesis
    by (auto simp: gateApply_decides [OF plain_hash lr] gateDecide_def at_once run_simps applyAllowed_def save_def
        apply_obj_def)
qed

theorem user_edit_applied_at_once_witness:
  "\<exists>g'. result (gateApply (sample_ctx sample_parameters) edited_gate plain_rendered ''chi'') running_cluster = Inr (True, g') \<and>
     get0 (g_record g') ''chi.inputs-v3'' = ''in2''"
proof -
  obtain g' where g': "result (gateApply (sample_ctx sample_parameters) edited_gate plain_rendered ''chi'') running_cluster = Inr (True, g')"
    using edited_result by blast
  have "get0 (g_record edited_gate) (''chi'' @ inputsSuffix) \<notin> {[], g_inputs edited_gate}"
    by (simp add: edited_gate_def held_gate_def record_keys get0_def)
  from user_edit_applied_at_once [OF plain_hash this g'] g' show ?thesis
    by (auto simp: edited_gate_def record_keys)
qed

text \<open>The next reconcile, with the record of the edit and the same target.\<close>

theorem approval_covers_later_steps_witness:
  "\<exists>(g :: rolloutGate) h v. result (newRolloutGate (sample_ctx sample_parameters) []) v = Inr h \<and> g_token h = g_token g \<and>
     filter is_request (events (gateApply (sample_ctx sample_parameters) h plain_rendered ''chi'') v) = []"
proof -
  let ?c = "sample_ctx sample_parameters"
  define t where "t = ''provider-'' @ releaseName ?c @ ''-'' @ take 8 (sha256Hex ?c [])"
  let ?g = "edited_gate\<lparr>g_token := t\<rparr>"
  have lr: "live_read ?c plain_rendered running_cluster (Some plain_rendered)"
    by (simp add: live_read_def running_live)
  have at_once: "allowedAtOnce ?g ''chi'' spec True" for spec
    by (simp add: allowedAtOnce_def edited_gate_def held_gate_def record_keys get0_def)
  have "\<exists>g'. result (gateApply ?c ?g plain_rendered ''chi'') running_cluster = Inr (True, g')"
    by (auto simp: gateApply_decides [OF plain_hash lr] gateDecide_def at_once run_simps applyAllowed_def save_def
        apply_obj_def)
  then obtain g' where g': "result (gateApply ?c ?g plain_rendered ''chi'') running_cluster = Inr (True, g')" by blast
  let ?s = "\<lparr>secret_name = rolloutStateName ''db'', secret_data = g_record g'\<rparr>"
  let ?v = "empty_cluster\<lparr>cl_secrets := [(rolloutStateName ''db'', ?s)]\<rparr>"
  have read: "api_get_secret ?c (rolloutStateName (ctx_name ?c)) ?v =
      (Inr \<lparr>secret_name = rolloutStateName (ctx_name ?c), secret_data = g_record g'\<rparr>, ?v)"
    by (simp add: lookup_in_def)
  have apart: "credentialsSecretName ''db'' \<noteq> rolloutStateName ''db''"
    by (simp add: credentialsSecretName_def rolloutStateName_def constants)
  have gate: "\<exists>h. result (newRolloutGate ?c []) ?v = Inr h \<and> g_token h = g_token ?g"
    using apart by (simp add: newRolloutGate_def run_simps get_secret_def lookup_in_def inputsHash_def get_instance_def
        empty_cluster_def hashJSON_def t_def)
  then obtain h where h: "result (newRolloutGate ?c []) ?v = Inr h" "g_token h = g_token ?g" by blast
  have keys: "list_all (\<lambda>(k, _). recordKey k) (g_record ?g)"
    by (simp add: edited_gate_def held_gate_def recordKey_def record_keys has_suffix_def has_prefix_def)
  have changed: "get0 (g_record ?g) (''chi'' @ specSuffix) \<noteq> sha256Hex ?c ''chi''"
    using plain_hash_value [of sample_parameters] by (auto simp: edited_gate_def held_gate_def record_keys get0_def)
  show ?thesis
    using approval_covers_later_steps [OF g' keys plain_hash changed read h, of plain_rendered "''chi''" ?v] h
    by (intro exI [of _ ?g] exI [of _ h] exI [of _ ?v]) auto
qed

end
