(* ===== verification/Status_Report.thy ===== *)
theory Status_Report
  imports Keeper_Wiring Tls Connection
begin

text \<open>
  \<^verbatim>\<open>status.go\<close>: the phase an Instance reports, from the operator's view of its ClickHouse and
  Keeper installations. A standalone Instance has the former only.
\<close>

section \<open>Reported statuses\<close>

text \<open>
  \<^verbatim>\<open>controller.Status\<close>; \<open>None\<close> stands for the zero value of its connection details.
\<close>

record status =
  st_phase :: phase
  st_message :: string
  st_connection :: "connection_details option"

definition provisioning :: "string \<Rightarrow> status" where
  "provisioning message = \<lparr>st_phase = Provisioning, st_message = message, st_connection = None\<rparr>"

definition failed :: "string \<Rightarrow> status" where
  "failed message = \<lparr>st_phase = Failed, st_message = message, st_connection = None\<rparr>"

definition readyWith :: "connection_details \<Rightarrow> status" where
  "readyWith details = \<lparr>st_phase = Ready, st_message = [], st_connection = Some details\<rparr>"

section \<open>The operator's view\<close>

record installation =
  in_component :: string
  in_exists :: bool
  in_state :: op_state
  in_err :: string
  in_completedBefore :: bool
  in_hosts :: int
  in_hostsCompleted :: int

definition missing :: "string \<Rightarrow> installation" where
  "missing what = \<lparr>in_component = what, in_exists = False, in_state = StOther [], in_err = [],
     in_completedBefore = False, in_hosts = 0, in_hostsCompleted = 0\<rparr>"

definition observed :: "string \<Rightarrow> op_status option \<Rightarrow> string option \<Rightarrow> installation" where
  "observed what st task =
     (let i = (missing what)\<lparr>in_exists := True\<rparr>
      in case st of None \<Rightarrow> i
         | Some s \<Rightarrow>
             i\<lparr>in_state := (if os_state s = StCompleted \<and> \<not> rolledOut task (os_task_ids_completed s)
                            then StInProgress else os_state s),
               in_err := os_error s, in_completedBefore := os_task_ids_completed s \<noteq> [],
               in_hosts := os_hosts s, in_hostsCompleted := os_hosts_completed s\<rparr>)"

definition chiInstallation :: "'s chi \<Rightarrow> installation" where
  "chiInstallation x = observed ''ClickHouse'' (chi_status x) (chi_task_id (chi_spec_of x))"

definition chkInstallation :: "'s chk \<Rightarrow> installation" where
  "chkInstallation x = observed ''ClickHouse Keeper'' (chk_status x) (chk_task_id (chk_spec_of x))"

text \<open>\<^verbatim>\<open>(installation).status\<close>: \<open>None\<close> is \<^verbatim>\<open>done\<close>.\<close>

definition installationStatus :: "(string \<Rightarrow> status) \<Rightarrow> installation \<Rightarrow> status option" where
  "installationStatus inProgress i =
     (if \<not> in_exists i then Some (inProgress (''Creating '' @ in_component i))
      else if in_state i = StCompleted then None
      else if in_state i = StAborted then
        Some (failed (in_component i @ '': '' @
          (if in_err i = [] then ''the operator aborted the last change'' else in_err i)))
      else (let verb = (if in_completedBefore i then ''Updating'' else ''Creating'');
                base = verb @ '' '' @ in_component i
            in Some (inProgress (if in_hosts i > 0
                 then base @ '': '' @ itoa (in_hostsCompleted i) @ '' of '' @ itoa (in_hosts i) @ '' hosts ready''
                 else base))))"

section \<open>The Instance's status\<close>

definition inProgressStatus :: "installation \<Rightarrow> connection_details option \<Rightarrow> string \<Rightarrow> status" where
  "inProgressStatus clickhouse conn message =
     (if in_completedBefore clickhouse
      then \<lparr>st_phase = Updating, st_message = message, st_connection = conn\<rparr> else provisioning message)"

text \<open>\<open>keeperStatus\<close> is the part for the replicated topology.\<close>

definition keeperStatus :: "('s, 'w) ctx \<Rightarrow> (string \<Rightarrow> status) \<Rightarrow> ('s, 'w, status option) act" where
  "keeperStatus c inProgress =
     (if \<not> replicated c then ret None
      else bind (getOptional (keeperCRName (ctx_name c)) (get_chk c (keeperCRName (ctx_name c)))) (\<lambda>k.
        ret (installationStatus inProgress
          (case k of None \<Rightarrow> missing ''ClickHouse Keeper'' | Some x \<Rightarrow> chkInstallation x))))"

text \<open>
  With the CHI missing, \<open>clickhouse\<close> is not done, so the last step always has a CHI; the zero
  CHI of the source is unreachable there.
\<close>

definition readyStatus :: "('s, 'w) ctx \<Rightarrow> (string \<Rightarrow> status) \<Rightarrow> 's chi \<Rightarrow> ('s, 'w, status) act" where
  "readyStatus c inProgress current =
     bind (if tlsEnabled c then serverCertificateIssued c else ret True) (\<lambda>issued.
       if \<not> issued then ret (inProgress ''Waiting for the TLS certificate'')
       else bind (buildConnectionDetails c current) (\<lambda>details. ret (readyWith details)))"

definition clickhouseView :: "'s chi option \<Rightarrow> installation" where
  "clickhouseView found = (case found of None \<Rightarrow> missing ''ClickHouse'' | Some x \<Rightarrow> chiInstallation x)"

text \<open>The connection details of a cluster that serves already.\<close>

definition servingDetails :: "('s, 'w) ctx \<Rightarrow> 's chi option \<Rightarrow> ('s, 'w, connection_details option) act" where
  "servingDetails c found =
     (case found of
        Some x \<Rightarrow> if in_completedBefore (clickhouseView found)
                  then bind (buildConnectionDetails c x) (\<lambda>d. ret (Some d)) else ret None
      | None \<Rightarrow> ret None)"

definition statusFrom :: "('s, 'w) ctx \<Rightarrow> 's chi option \<Rightarrow> (string \<Rightarrow> status) \<Rightarrow> ('s, 'w, status) act" where
  "statusFrom c found inProgress =
     bind (keeperStatus c inProgress) (\<lambda>keeper.
       case keeper of
         Some st \<Rightarrow> ret st
       | None \<Rightarrow>
           (case installationStatus inProgress (clickhouseView found) of
              Some st \<Rightarrow> ret st
            | None \<Rightarrow>
                (case found of
                   Some x \<Rightarrow> readyStatus c inProgress x
                 | None \<Rightarrow> throw (LibErr ''unreachable: a missing installation is not done''))))"

definition Status :: "('s, 'w) ctx \<Rightarrow> ('s, 'w, status) act" where
  "Status c =
     bind (getOptional (ctx_name c) (get_chi c (ctx_name c))) (\<lambda>found.
     bind (servingDetails c found) (\<lambda>conn.
     statusFrom c found (inProgressStatus (clickhouseView found) conn)))"

section \<open>One view for both installations\<close>

text \<open>
  \<open>provider.go\<close> waits for a CHI and a CHK by the same rules \<open>status.go\<close> reports them by. The
  contract both sides keep: an installation is done exactly when the operator has completed its
  last task, aborted exactly when the operator says so, and neither otherwise.
\<close>

locale operator_view =
  fixes view :: "'x \<Rightarrow> installation" and st :: "'x \<Rightarrow> op_status option" and task :: "'x \<Rightarrow> string option"
  assumes view_exists: "in_exists (view x)"
    and view_done: "in_state (view x) = StCompleted \<longleftrightarrow> statusRolledOut (st x) (task x)"
    and view_aborted: "in_state (view x) = StAborted \<longleftrightarrow> (\<exists>s. st x = Some s \<and> os_state s = StAborted)"
    and view_before: "in_completedBefore (view x) \<longleftrightarrow> (\<exists>s. st x = Some s \<and> os_task_ids_completed s \<noteq> [])"
begin

lemma done_iff: "installationStatus f (view x) = None \<longleftrightarrow> statusRolledOut (st x) (task x)"
  by (auto simp: installationStatus_def view_exists view_done Let_def)

lemma aborted_failed:
  assumes "st x = Some s" and "os_state s = StAborted"
  shows "\<exists>m. installationStatus f (view x) = Some (failed m)"
proof -
  have "in_state (view x) = StAborted" using assms view_aborted by blast
  then show ?thesis by (auto simp: installationStatus_def view_exists)
qed

lemma not_done_progress:
  assumes "\<not> statusRolledOut (st x) (task x)" and "\<not> (\<exists>s. st x = Some s \<and> os_state s = StAborted)"
  shows "\<exists>m. installationStatus f (view x) = Some (f m)"
  using assms view_done view_aborted by (auto simp: installationStatus_def view_exists Let_def)

end

lemmas view_defs = observed_def missing_def statusRolledOut_def Let_def

interpretation chi_view: operator_view chiInstallation chi_status "\<lambda>x. chi_task_id (chi_spec_of x)"
  by unfold_locales (auto simp: chiInstallation_def view_defs split: option.splits)

interpretation chk_view: operator_view chkInstallation chk_status "\<lambda>x. chk_task_id (chk_spec_of x)"
  by unfold_locales (auto simp: chkInstallation_def view_defs split: option.splits)

section \<open>Lemmas\<close>

lemma inProgress_phase:
  "st_phase (inProgressStatus i conn m) = (if in_completedBefore i then Updating else Provisioning)"
  "in_completedBefore i \<Longrightarrow> st_connection (inProgressStatus i conn m) = conn"
  by (simp_all add: inProgressStatus_def provisioning_def)

lemma installationStatus_phase:
  "installationStatus f i = Some st \<Longrightarrow> (\<exists>m. st = f m) \<or> (\<exists>m. st = failed m \<and> in_exists i \<and> in_state i = StAborted)"
  by (auto simp: installationStatus_def Let_def split: if_splits)

lemma serverCertificateIssued_events [simp]:
  "events (serverCertificateIssued c) w = [GotSecret (serverSecretName (ctx_name c))
     (fst (api_get_secret c (serverSecretName (ctx_name c)) w))]"
  by (auto simp: serverCertificateIssued_def get_secret_def events_bind split: sum.splits api_error.splits)

lemma readyStatus_cases:
  assumes "result (readyStatus c f x) w = Inr st"
  shows "st = f ''Waiting for the TLS certificate'' \<or>
     (\<exists>d. st = readyWith d \<and> (tlsEnabled c \<longrightarrow> (\<exists>s. GotSecret (serverSecretName (ctx_name c)) (Inr s)
        \<in> set (events (readyStatus c f x) w) \<and> get0 (secret_data s) ''tls.crt'' \<noteq> [])))"
proof -
  from assms obtain issued where i: "result (if tlsEnabled c then serverCertificateIssued c else ret True) w = Inr issued"
    and rest: "result (if \<not> issued then ret (f ''Waiting for the TLS certificate'')
       else bind (buildConnectionDetails c x) (\<lambda>details. ret (readyWith details)))
         (world (if tlsEnabled c then serverCertificateIssued c else ret True) w) = Inr st"
    unfolding readyStatus_def bind_Inr by (elim exE conjE)
  have st: "issued \<Longrightarrow> \<exists>d. st = readyWith d" "\<not> issued \<Longrightarrow> st = f ''Waiting for the TLS certificate''"
    using rest by (auto simp: bind_Inr)
  show ?thesis
  proof (cases "issued \<and> tlsEnabled c")
    case True
    with i have "result (serverCertificateIssued c) w = Inr True" by simp
    then obtain s where "events (serverCertificateIssued c) w = [GotSecret (serverSecretName (ctx_name c)) (Inr s)]"
      "get0 (secret_data s) ''tls.crt'' \<noteq> []"
      by (rule serverCertificateIssued_ok)
    moreover from this(1) True have "GotSecret (serverSecretName (ctx_name c)) (Inr s) \<in> set (events (readyStatus c f x) w)"
      by (simp add: readyStatus_def in_events_bind del: serverCertificateIssued_events)
    ultimately show ?thesis using st True by blast
  next
    case False
    then show ?thesis using st by auto
  qed
qed

lemma keeperStatus_cases:
  assumes "result (keeperStatus c f) w = Inr out"
  shows "case out of
       Some st \<Rightarrow> (\<exists>m. st = f m) \<or> (\<exists>m k s. st = failed m \<and> replicated c \<and>
          GotCHK (keeperCRName (ctx_name c)) (Inr k) \<in> set (events (keeperStatus c f) w) \<and> chk_status k = Some s \<and> os_state s = StAborted)
     | None \<Rightarrow> replicated c \<longrightarrow> (\<exists>k. GotCHK (keeperCRName (ctx_name c)) (Inr k) \<in> set (events (keeperStatus c f) w) \<and>
          statusRolledOut (chk_status k) (chk_task_id (chk_spec_of k)))"
proof (cases "replicated c")
  case True
  let ?get = "getOptional (keeperCRName (ctx_name c)) (get_chk c (keeperCRName (ctx_name c)))"
  from assms True obtain k where k: "result ?get w = Inr k"
    and out: "out = installationStatus f (case k of None \<Rightarrow> missing ''ClickHouse Keeper'' | Some x \<Rightarrow> chkInstallation x)"
    by (auto simp: keeperStatus_def bind_Inr simp del: getOptional_simps)
  show ?thesis
  proof (cases k)
    case None
    with out show ?thesis by (simp add: installationStatus_def missing_def) blast
  next
    case (Some x)
    with k have "GotCHK (keeperCRName (ctx_name c)) (Inr x) \<in> set (events ?get w)"
      by (simp add: getOptional_Inr get_chk_def del: getOptional_simps(1))
    then have ev: "GotCHK (keeperCRName (ctx_name c)) (Inr x) \<in> set (events (keeperStatus c f) w)"
      using True by (simp add: keeperStatus_def in_events_bind del: getOptional_simps)
    show ?thesis
    proof (cases out)
      case None
      with out Some ev chk_view.done_iff [of f x] show ?thesis by auto
    next
      case (Some st)
      with out \<open>k = Some x\<close> have "installationStatus f (chkInstallation x) = Some st" by simp
      from installationStatus_phase [OF this] show ?thesis
        using ev True chk_view.view_aborted [of x] Some by auto
    qed
  qed
next
  case False
  with assms show ?thesis by (auto simp: keeperStatus_def)
qed

text \<open>A status that is returned is the one in progress, a failure the operator reports, or readiness.\<close>

lemma statusFrom_cases:
  assumes "result (statusFrom c found f) w = Inr st"
  shows "(\<exists>m. st = f m) \<or>
     (\<exists>m. st = failed m \<and>
        ((\<exists>x s. found = Some x \<and> chi_status x = Some s \<and> os_state s = StAborted) \<or>
         (\<exists>k s. GotCHK (keeperCRName (ctx_name c)) (Inr k) \<in> set (events (statusFrom c found f) w) \<and>
            chk_status k = Some s \<and> os_state s = StAborted))) \<or>
     (\<exists>d x. st = readyWith d \<and> found = Some x \<and> statusRolledOut (chi_status x) (chi_task_id (chi_spec_of x)) \<and>
        (replicated c \<longrightarrow> (\<exists>k. GotCHK (keeperCRName (ctx_name c)) (Inr k) \<in> set (events (statusFrom c found f) w) \<and>
           statusRolledOut (chk_status k) (chk_task_id (chk_spec_of k)))) \<and>
        (tlsEnabled c \<longrightarrow> (\<exists>s. GotSecret (serverSecretName (ctx_name c)) (Inr s) \<in> set (events (statusFrom c found f) w) \<and>
           get0 (secret_data s) ''tls.crt'' \<noteq> [])))"
proof -
  let ?E = "set (events (statusFrom c found f) w)"
  from assms obtain out where out: "result (keeperStatus c f) w = Inr out"
    by (auto simp: statusFrom_def bind_Inr)
  let ?w = "world (keeperStatus c f) w"
  have sub: "set (events (keeperStatus c f) w) \<subseteq> ?E"
    by (auto simp: statusFrom_def in_events_bind)
  show ?thesis
  proof (cases out)
    case (Some st')
    with assms out have "st = st'" by (simp add: statusFrom_def result_bind)
    with keeperStatus_cases [OF out] Some sub show ?thesis by auto
  next
    case None
    note keeper = keeperStatus_cases [OF out]
    show ?thesis
    proof (cases "installationStatus f (clickhouseView found)")
      case (Some st')
      with assms out None have st: "installationStatus f (clickhouseView found) = Some st"
        by (simp add: statusFrom_def result_bind)
      from installationStatus_phase [OF this] show ?thesis
        using chi_view.view_aborted
        by (cases found) (auto simp: clickhouseView_def missing_def)
    next
      case done_: None
      then obtain x where x: "found = Some x"
        by (cases found) (auto simp: clickhouseView_def missing_def installationStatus_def)
      then have rolled: "statusRolledOut (chi_status x) (chi_task_id (chi_spec_of x))"
        using done_ chi_view.done_iff [of f x] by (simp add: clickhouseView_def)
      have ready: "result (readyStatus c f x) ?w = Inr st"
        using assms out None done_ x by (simp add: statusFrom_def result_bind)
      have sub2: "set (events (readyStatus c f x) ?w) \<subseteq> ?E"
        using out None done_ x by (auto simp: statusFrom_def in_events_bind)
      from readyStatus_cases [OF ready] show ?thesis
      proof
        assume "\<exists>d. st = readyWith d \<and> (tlsEnabled c \<longrightarrow> (\<exists>s. GotSecret (serverSecretName (ctx_name c)) (Inr s)
          \<in> set (events (readyStatus c f x) ?w) \<and> get0 (secret_data s) ''tls.crt'' \<noteq> []))"
        then obtain d where d: "st = readyWith d" and tls: "tlsEnabled c \<longrightarrow> (\<exists>s. GotSecret (serverSecretName (ctx_name c)) (Inr s)
            \<in> ?E \<and> get0 (secret_data s) ''tls.crt'' \<noteq> [])"
          using sub2 by blast
        have "replicated c \<longrightarrow> (\<exists>k. GotCHK (keeperCRName (ctx_name c)) (Inr k) \<in> ?E \<and>
            statusRolledOut (chk_status k) (chk_task_id (chk_spec_of k)))"
          using keeper None sub by auto
        with d tls x rolled show ?thesis by blast
      qed blast
    qed
  qed
qed

lemma servingDetails_result:
  assumes "result (servingDetails c found) w = Inr conn"
  shows "conn \<noteq> None \<longleftrightarrow> in_completedBefore (clickhouseView found)"
  using assms
  by (cases found) (auto simp: servingDetails_def bind_Inr clickhouseView_def missing_def split: if_splits)

lemma Status_Inr:
  assumes "result (Status c) w = Inr st"
  obtains found conn w' where "result (getOptional (ctx_name c) (get_chi c (ctx_name c))) w = Inr found"
    and "conn \<noteq> None \<longleftrightarrow> in_completedBefore (clickhouseView found)"
    and "result (statusFrom c found (inProgressStatus (clickhouseView found) conn)) w' = Inr st"
    and "set (events (statusFrom c found (inProgressStatus (clickhouseView found) conn)) w') \<subseteq> set (events (Status c) w)"
proof -
  let ?get = "getOptional (ctx_name c) (get_chi c (ctx_name c))"
  from assms obtain found conn where f: "result ?get w = Inr found"
    and k: "result (servingDetails c found) (world ?get w) = Inr conn"
    and s: "result (statusFrom c found (inProgressStatus (clickhouseView found) conn))
      (world (servingDetails c found) (world ?get w)) = Inr st"
    unfolding Status_def bind_Inr by (elim exE conjE)
  have "set (events (statusFrom c found (inProgressStatus (clickhouseView found) conn))
      (world (servingDetails c found) (world ?get w))) \<subseteq> set (events (Status c) w)"
    using f k by (auto simp: Status_def in_events_bind simp del: getOptional_simps)
  with f servingDetails_result [OF k] s show ?thesis by (rule that)
qed

section \<open>Properties\<close>

text \<open>C18. An Instance is reported ready only when it is: the operator has rolled out the last change of
  ClickHouse and, in the replicated topology, of Keeper, and with TLS the server certificate is
  there; a ready Instance always reports its connection details.\<close>

theorem ready_means_rolled_out:
  assumes "result (Status c) w = Inr st" and "st_phase st = Ready"
  shows "st_connection st \<noteq> None \<and>
     (\<exists>x. GotCHI (ctx_name c) (Inr x) \<in> set (events (Status c) w) \<and>
        statusRolledOut (chi_status x) (chi_task_id (chi_spec_of x))) \<and>
     (replicated c \<longrightarrow> (\<exists>k. GotCHK (keeperCRName (ctx_name c)) (Inr k) \<in> set (events (Status c) w) \<and>
        statusRolledOut (chk_status k) (chk_task_id (chk_spec_of k)))) \<and>
     (tlsEnabled c \<longrightarrow> (\<exists>s. GotSecret (serverSecretName (ctx_name c)) (Inr s) \<in> set (events (Status c) w) \<and>
        get0 (secret_data s) ''tls.crt'' \<noteq> []))"
  using assms(1)
proof (rule Status_Inr)
  fix found conn w'
  assume got: "result (getOptional (ctx_name c) (get_chi c (ctx_name c))) w = Inr found"
    and from_: "result (statusFrom c found (inProgressStatus (clickhouseView found) conn)) w' = Inr st"
    and sub: "set (events (statusFrom c found (inProgressStatus (clickhouseView found) conn)) w') \<subseteq> set (events (Status c) w)"
  from statusFrom_cases [OF from_] assms(2) obtain d x where st: "st = readyWith d" and x: "found = Some x"
    and rolled: "statusRolledOut (chi_status x) (chi_task_id (chi_spec_of x))"
    and k: "replicated c \<longrightarrow> (\<exists>k. GotCHK (keeperCRName (ctx_name c)) (Inr k) \<in> set (events (Status c) w) \<and>
        statusRolledOut (chk_status k) (chk_task_id (chk_spec_of k)))"
    and t: "tlsEnabled c \<longrightarrow> (\<exists>s. GotSecret (serverSecretName (ctx_name c)) (Inr s) \<in> set (events (Status c) w) \<and>
        get0 (secret_data s) ''tls.crt'' \<noteq> [])"
    using sub by (auto simp: inProgress_phase failed_def split: if_splits)
  have "GotCHI (ctx_name c) (Inr x) \<in> set (events (Status c) w)"
    using got x by (auto simp: Status_def in_events_bind getOptional_Inr get_chi_def simp del: getOptional_simps(1))
  with st rolled k t show ?thesis by (auto simp: readyWith_def)
qed

text \<open>C24. The phase tells clients what to expect. Provisioning is only reported of a cluster the
  operator never finished; Updating only of one it did, with connection details; Failed only when
  the operator aborted the change of ClickHouse or Keeper; no other phase but Ready is reported.\<close>

theorem phases_are_truthful:
  assumes "result (Status c) w = Inr st"
  shows "\<exists>answer. GotCHI (ctx_name c) answer \<in> set (events (Status c) w) \<and>
     (let served = (case answer of Inr x \<Rightarrow> (case chi_status x of Some s \<Rightarrow> os_task_ids_completed s \<noteq> [] | None \<Rightarrow> False) | Inl _ \<Rightarrow> False)
      in case st_phase st of
           Provisioning \<Rightarrow> \<not> served
         | Updating \<Rightarrow> served \<and> st_connection st \<noteq> None
         | Failed \<Rightarrow> (\<exists>x s. answer = Inr x \<and> chi_status x = Some s \<and> os_state s = StAborted) \<or>
             (\<exists>k s. GotCHK (keeperCRName (ctx_name c)) (Inr k) \<in> set (events (Status c) w) \<and>
                chk_status k = Some s \<and> os_state s = StAborted)
         | Ready \<Rightarrow> st_connection st \<noteq> None
         | OtherPhase p \<Rightarrow> False)"
    (is "\<exists>answer. _ \<and> ?truthful answer")
  using assms
proof (rule Status_Inr)
  fix found conn w'
  assume got: "result (getOptional (ctx_name c) (get_chi c (ctx_name c))) w = Inr found"
    and conn: "conn \<noteq> None \<longleftrightarrow> in_completedBefore (clickhouseView found)"
    and from_: "result (statusFrom c found (inProgressStatus (clickhouseView found) conn)) w' = Inr st"
    and sub: "set (events (statusFrom c found (inProgressStatus (clickhouseView found) conn)) w') \<subseteq> set (events (Status c) w)"
  define answer where "answer = fst (api_get_chi c (ctx_name c) w)"
  have ev: "GotCHI (ctx_name c) answer \<in> set (events (Status c) w)"
    by (simp add: Status_def in_events_bind get_chi_def answer_def)
  have found: "found = (case answer of Inr x \<Rightarrow> Some x | Inl _ \<Rightarrow> None)"
    using got by (auto simp: get_chi_def answer_def split: sum.splits api_error.splits)
  have served: "in_completedBefore (clickhouseView found) =
      (case answer of Inr x \<Rightarrow> (case chi_status x of Some s \<Rightarrow> os_task_ids_completed s \<noteq> [] | None \<Rightarrow> False) | Inl _ \<Rightarrow> False)"
    by (auto simp: found clickhouseView_def missing_def chi_view.view_before split: sum.splits option.splits)
  show ?thesis
  proof (intro exI [of _ answer] conjI ev)
    from statusFrom_cases [OF from_] show "?truthful answer"
    proof (elim disjE exE conjE)
      fix m assume "st = inProgressStatus (clickhouseView found) conn m"
      then show ?thesis using conn served by (auto simp: Let_def inProgress_phase split: phase.splits)
    next
      fix m x s assume "st = failed m" "found = Some x" "chi_status x = Some s" "os_state s = StAborted"
      then show ?thesis using found by (auto simp: Let_def failed_def split: sum.splits)
    next
      fix m k s assume "st = failed m" "chk_status k = Some s" "os_state s = StAborted"
        "GotCHK (keeperCRName (ctx_name c)) (Inr k) \<in> set (events (statusFrom c found (inProgressStatus (clickhouseView found) conn)) w')"
      then show ?thesis using sub by (auto simp: Let_def failed_def)
    next
      fix d assume "st = readyWith d"
      then show ?thesis by (simp add: Let_def readyWith_def)
    qed
  qed
qed

text \<open>A replicated cluster that the operator has rolled out.\<close>

definition completed_status :: op_status where
  "completed_status = \<lparr>os_state = StCompleted, os_error = [], os_task_ids_completed = [''t''], os_hosts = 2,
     os_hosts_completed = 2, os_endpoint = ''clickhouse-db.ns.svc''\<rparr>"

definition ready_cluster :: cluster where
  "ready_cluster = empty_cluster\<lparr>cl_chi := [(''db'', plain_chi\<lparr>chi_status := Some completed_status\<rparr>)],
     cl_chk := [(''db-keeper'', \<lparr>chk_name = ''db-keeper'',
       chk_spec_of = \<lparr>chk_task_id = None, chk_configuration = None, chk_templates = None\<rparr>,
       chk_status = Some completed_status\<rparr>)]\<rparr>"

lemma ready_cluster_reads:
  "result (getOptional ''db'' (get_chi (sample_ctx p) ''db'')) ready_cluster =
     Inr (Some (plain_chi\<lparr>chi_status := Some completed_status\<rparr>))"
  "\<exists>k. result (getOptional ''db-keeper'' (get_chk (sample_ctx p) ''db-keeper'')) ready_cluster = Inr (Some k) \<and>
     statusRolledOut (chk_status k) (chk_task_id (chk_spec_of k))"
  "world (get_chi (sample_ctx p) n) ready_cluster = ready_cluster"
  by (simp_all add: get_chi_def get_chk_def lookup_in_def ready_cluster_def statusRolledOut_def completed_status_def rolledOut_def)

lemma reads_keep_world [simp]:
  "world (get_secret (sample_ctx p) n) w = w" "world (get_service (sample_ctx p) n) w = w"
  "world (get_chi (sample_ctx p) n) w = w" "world (get_chk (sample_ctx p) n) w = w"
  by (simp_all add: get_secret_def get_service_def get_chi_def get_chk_def lookup_in_def split: option.splits)

lemma ready_status: "\<exists>st. result (Status (sample_ctx sample_parameters)) ready_cluster = Inr st \<and> st_phase st = Ready"
proof -
  let ?c = "sample_ctx sample_parameters" and ?x = "plain_chi\<lparr>chi_status := Some completed_status\<rparr>"
  have tls: "\<not> tlsEnabled ?c" by (simp add: tlsEnabled_def tlsParameters_def sample_parameters_def)
  obtain d where d: "result (buildConnectionDetails ?c ?x) ready_cluster = Inr d"
    using buildConnectionDetails_result [of ?c ?x ready_cluster] by blast
  have cred: "world (readCredentials ?c) v = v" for v
    by (simp add: readCredentials_def run_simps Let_def split: sum.splits)
  have w: "world (buildConnectionDetails ?c ?x) ready_cluster = ready_cluster"
    using readCredentials_result [of ?c ready_cluster]
    by (auto simp: buildConnectionDetails_def run_simps tls cred split: sum.splits)
  have done_: "installationStatus f (chiInstallation ?x) = None" for f
    by (simp add: chi_view.done_iff statusRolledOut_def completed_status_def rolledOut_def plain_chi_def)
  obtain k where k: "result (getOptional ''db-keeper'' (get_chk ?c ''db-keeper'')) ready_cluster = Inr (Some k)"
    "statusRolledOut (chk_status k) (chk_task_id (chk_spec_of k))"
    using ready_cluster_reads(2) by blast
  then have keeper: "result (keeperStatus ?c f) ready_cluster = Inr None" "world (keeperStatus ?c f) ready_cluster = ready_cluster" for f
    by (simp_all add: keeperStatus_def keeperCRName_def run_simps chk_view.done_iff del: getOptional_simps(1) split: sum.splits)
  have before: "in_completedBefore (chiInstallation ?x)"
    by (simp add: chi_view.view_before completed_status_def)
  have serving: "result (servingDetails ?c (Some ?x)) ready_cluster = Inr (Some d)"
    "world (servingDetails ?c (Some ?x)) ready_cluster = ready_cluster"
    using before by (simp_all add: servingDetails_def clickhouseView_def run_simps d w)
  show ?thesis
    using ready_cluster_reads(1) [of sample_parameters] serving keeper done_ d
    by (simp add: Status_def statusFrom_def readyStatus_def run_simps tls clickhouseView_def readyWith_def del: getOptional_simps(1))
qed

theorem ready_means_rolled_out_witness:
  "\<exists>st. result (Status (sample_ctx sample_parameters)) ready_cluster = Inr st \<and> st_phase st = Ready \<and> st_connection st \<noteq> None"
  using ready_status ready_means_rolled_out [of "sample_ctx sample_parameters" ready_cluster] by blast

theorem phases_are_truthful_witness:
  "\<exists>st answer. result (Status (sample_ctx sample_parameters)) ready_cluster = Inr st \<and>
     GotCHI ''db'' answer \<in> set (events (Status (sample_ctx sample_parameters)) ready_cluster)"
proof -
  obtain st where "result (Status (sample_ctx sample_parameters)) ready_cluster = Inr st"
    using ready_status by blast
  with phases_are_truthful [OF this] show ?thesis by auto
qed

end
