(* ===== verification/Monitoring.thy ===== *)
theory Monitoring
  imports Parameters Names Store
begin

text \<open>
  \<^verbatim>\<open>monitoring.go\<close>: the Prometheus PodMonitor of an Instance. Clusters without the
  prometheus-operator's kinds still reconcile.
\<close>

definition buildPodMonitor :: "('s, 'w) ctx \<Rightarrow> pod_monitor" where
  "buildPodMonitor c =
     \<lparr>pm_name = podMonitorName (ctx_name c), pm_selector = [(LabelCHIName, ctx_name c)],
      pm_endpoints = [(MetricsPortName, MetricsPath)]\<rparr>"

definition deletePodMonitor :: "('s, 'w) ctx \<Rightarrow> ('s, 'w, unit) act" where
  "deletePodMonitor c =
     bind (delete_obj c KPodMonitor (podMonitorName (ctx_name c))) (\<lambda>r. case r of
       None \<Rightarrow> ret ()
     | Some NoMatch \<Rightarrow> ret ()
     | Some e \<Rightarrow> throw (Errorf ''delete PodMonitor: %w'' [AErr (ApiErr e)]))"

definition reconcilePodMonitor :: "('s, 'w) ctx \<Rightarrow> ('s, 'w, unit) act" where
  "reconcilePodMonitor c =
     (if podMonitorEnabled c then
        bind (apply_obj c (OPodMonitor (buildPodMonitor c))) (\<lambda>r. case r of
          None \<Rightarrow> ret ()
        | Some NoMatch \<Rightarrow> ret ()
        | Some e \<Rightarrow> throw (Errorf ''apply PodMonitor: %w'' [AErr (ApiErr e)]))
      else deletePodMonitor c)"

text \<open>The only call is on the PodMonitor, and a missing kind is not an error.\<close>

lemma reconcilePodMonitor_events:
  "events (reconcilePodMonitor c) w =
     (if podMonitorEnabled c
      then [Applied (OPodMonitor (buildPodMonitor c)) (fst (api_apply c (OPodMonitor (buildPodMonitor c)) w))]
      else [Deleted KPodMonitor (podMonitorName (ctx_name c))
              (fst (api_delete c KPodMonitor (podMonitorName (ctx_name c)) w))])"
  by (auto simp: reconcilePodMonitor_def deletePodMonitor_def apply_obj_def delete_obj_def events_bind
      split: option.splits api_error.splits)

lemma reconcilePodMonitor_missing_kind:
  "podMonitorEnabled c \<Longrightarrow> fst (api_apply c (OPodMonitor (buildPodMonitor c)) w) = Some NoMatch \<Longrightarrow>
     result (reconcilePodMonitor c) w = Inr ()"
  by (simp add: reconcilePodMonitor_def apply_obj_def result_bind)

lemma emits_deletePodMonitor [emits_rules]:
  "(\<And>r. P (Deleted KPodMonitor (podMonitorName (ctx_name c)) r)) \<Longrightarrow> emits P (deletePodMonitor c)"
  unfolding deletePodMonitor_def by (intro emits_rules)

lemma emits_reconcilePodMonitor [emits_rules]:
  "(\<And>r. P (Applied (OPodMonitor (buildPodMonitor c)) r)) \<Longrightarrow>
     (\<And>r. P (Deleted KPodMonitor (podMonitorName (ctx_name c)) r)) \<Longrightarrow> emits P (reconcilePodMonitor c)"
  unfolding reconcilePodMonitor_def by (intro emits_rules)

end
