(* ===== verification/Keeper_Migration.thy ===== *)
theory Keeper_Migration
  imports Keeper_Wiring
begin

text \<open>
  The Keeper TLS switch as a protocol between the provider, the operator and the pods. The
  provider applies what \<^verbatim>\<open>syncReplicated\<close> applies (the step's Keeper ports, then, once Keeper reads
  as rolled out, the step's ClickHouse port); the operator rolls pods at its own pace, so while a
  change rolls some nodes run an older configuration than the applied one. TLS can be switched at
  any time and a reconcile can stop between its two applies. The safety property is the one the
  source states, that ClickHouse never loses Keeper. It holds as long as no change carries the task
  ID of one the operator has finished before, and the ends of this theory show that it fails
  without that: the IDs \<^verbatim>\<open>stampTaskID\<close> derives from a rendering return when the rendering does.
\<close>

section \<open>States and steps\<close>

text \<open>
  \<open>keeper_running\<close> and \<open>clients_running\<close> over-approximate what pods run: the port pairs some
  Keeper node may serve, the Keeper ports some ClickHouse pod may connect to. What the operator
  reports is kept as the code reads it: whether the status says Completed, and the finished task
  IDs. \<open>planned\<close> is the ClickHouse port of a reconcile that has applied Keeper and not yet
  ClickHouse.
\<close>

record migration =
  keeper_exists :: bool
  keeper_applied :: "bool \<times> bool"
  keeper_task :: "string option"
  keeper_running :: "(bool \<times> bool) set"
  keeper_completed :: bool
  keeper_finished :: "string set"
  clients_exist :: bool
  clients_applied :: int
  clients_task :: "string option"
  clients_running :: "int set"
  clients_completed :: bool
  clients_finished :: "string set"
  planned :: "int option"

text \<open>\<^verbatim>\<open>rolledOut\<close>, on the set of the finished tasks.\<close>

definition task_finished :: "string option \<Rightarrow> string set \<Rightarrow> bool" where
  "task_finished task finished = (case task of None \<Rightarrow> True | Some t \<Rightarrow> t \<in> finished)"

definition keeper_done :: "migration \<Rightarrow> bool" where
  "keeper_done m = (keeper_exists m \<and> keeper_completed m \<and> task_finished (keeper_task m) (keeper_finished m))"

definition clients_done :: "migration \<Rightarrow> bool" where
  "clients_done m = (clients_exist m \<and> clients_completed m \<and> task_finished (clients_task m) (clients_finished m))"

definition view :: "migration \<Rightarrow> keeperState" where
  "view m =
     \<lparr>chkExists = keeper_exists m, chkRolledOut = keeper_done m,
      chkSecure = keeper_exists m \<and> fst (keeper_applied m),
      chkPlaintext = keeper_exists m \<and> snd (keeper_applied m),
      chiExists = clients_exist m, chiRolledOut = clients_done m,
      chiPort = (if clients_exist m then clients_applied m else - 1)\<rparr>"

text \<open>Applying leaves the status alone: it reads as before until the operator picks the change up.\<close>

definition apply_keeper :: "bool \<times> bool \<Rightarrow> string option \<Rightarrow> migration \<Rightarrow> migration" where
  "apply_keeper ports task m = m\<lparr>keeper_exists := True, keeper_applied := ports, keeper_task := task,
     keeper_running := insert ports (keeper_running m)\<rparr>"

definition apply_clients :: "int \<Rightarrow> string option \<Rightarrow> migration \<Rightarrow> migration" where
  "apply_clients port task m = m\<lparr>clients_exist := True, clients_applied := port, clients_task := task,
     clients_running := insert port (clients_running m), planned := None\<rparr>"

definition finish :: "string option \<Rightarrow> string set \<Rightarrow> string set" where
  "finish task finished = (case task of None \<Rightarrow> finished | Some t \<Rightarrow> insert t finished)"

text \<open>
  One rule per action. \<open>K\<close> and \<open>C\<close> say which task IDs an applied CHK and CHI may carry. The gate may
  hold Keeper's change for approval (\<open>plan_held\<close>); the model covers this once ClickHouse is wired to
  Keeper. The operator finishes the applied change, or an earlier one it was at, starts over, and
  drops old entries from its list.
\<close>

inductive migrate ::
    "(migration \<Rightarrow> bool \<times> bool \<Rightarrow> string option \<Rightarrow> bool) \<Rightarrow> (migration \<Rightarrow> int \<Rightarrow> string option \<Rightarrow> bool) \<Rightarrow>
       migration \<Rightarrow> migration \<Rightarrow> bool" for K C where
  plan: "step = fst (nextKeeperWiring tls (view m)) \<Longrightarrow> K m (wiringPorts step) task \<Longrightarrow>
    migrate K C m ((apply_keeper (wiringPorts step) task m)\<lparr>planned := Some (kw_port step)\<rparr>)"
| plan_held: "step = fst (nextKeeperWiring tls (view m)) \<Longrightarrow>
    keeper_exists m \<Longrightarrow> clients_exist m \<Longrightarrow> 0 \<le> clients_applied m \<Longrightarrow>
    migrate K C m (m\<lparr>planned := Some (kw_port step)\<rparr>)"
| wire: "planned m = Some port \<Longrightarrow> keeper_done m \<Longrightarrow> C m port task \<Longrightarrow> migrate K C m (apply_clients port task m)"
| stop: "migrate K C m (m\<lparr>planned := None\<rparr>)"
| keeper_rolled: "keeper_exists m \<Longrightarrow> migrate K C m (m\<lparr>keeper_running := {keeper_applied m},
    keeper_completed := True, keeper_finished := finish (keeper_task m) (keeper_finished m)\<rparr>)"
| keeper_earlier: "keeper_task m \<noteq> Some t \<Longrightarrow>
    migrate K C m (m\<lparr>keeper_completed := True, keeper_finished := insert t (keeper_finished m)\<rparr>)"
| keeper_restarts: "migrate K C m (m\<lparr>keeper_completed := False\<rparr>)"
| keeper_forgets: "migrate K C m (m\<lparr>keeper_finished := keeper_finished m - {t}\<rparr>)"
| clients_rolled: "clients_exist m \<Longrightarrow> migrate K C m (m\<lparr>clients_running := {clients_applied m},
    clients_completed := True, clients_finished := finish (clients_task m) (clients_finished m)\<rparr>)"
| clients_earlier: "clients_task m \<noteq> Some t \<Longrightarrow>
    migrate K C m (m\<lparr>clients_completed := True, clients_finished := insert t (clients_finished m)\<rparr>)"
| clients_restart: "migrate K C m (m\<lparr>clients_completed := False\<rparr>)"
| clients_forget: "migrate K C m (m\<lparr>clients_finished := clients_finished m - {t}\<rparr>)"

inductive_cases migrateE: "migrate K C m m'"

text \<open>A new Instance, a standalone cluster that becomes replicated, and a plaintext cluster an earlier
  provider has rolled out, without task IDs.\<close>

definition new_cluster :: migration where
  "new_cluster = \<lparr>keeper_exists = False, keeper_applied = (False, False), keeper_task = None, keeper_running = {},
     keeper_completed = False, keeper_finished = {}, clients_exist = False, clients_applied = - 1, clients_task = None,
     clients_running = {}, clients_completed = False, clients_finished = {}, planned = None\<rparr>"

definition standalone_cluster :: migration where
  "standalone_cluster = new_cluster\<lparr>clients_exist := True, clients_running := {- 1}, clients_completed := True\<rparr>"

definition earlier_cluster :: migration where
  "earlier_cluster = new_cluster\<lparr>keeper_exists := True, keeper_applied := (False, True), keeper_running := {(False, True)},
     keeper_completed := True, clients_exist := True, clients_applied := 0, clients_running := {0}, clients_completed := True\<rparr>"

inductive reachable ::
    "(migration \<Rightarrow> bool \<times> bool \<Rightarrow> string option \<Rightarrow> bool) \<Rightarrow> (migration \<Rightarrow> int \<Rightarrow> string option \<Rightarrow> bool) \<Rightarrow>
       migration \<Rightarrow> bool" for K C where
  new: "reachable K C new_cluster"
| standalone: "reachable K C standalone_cluster"
| earlier: "reachable K C earlier_cluster"
| step: "reachable K C m \<Longrightarrow> migrate K C m m' \<Longrightarrow> reachable K C m'"

section \<open>ClickHouse never loses Keeper\<close>

definition connected :: "migration \<Rightarrow> bool" where
  "connected m \<longleftrightarrow>
     (\<forall>port \<in> clients_running m. \<forall>ports \<in> keeper_running m. 0 \<le> port \<longrightarrow> served port ports)"

text \<open>Task IDs that can be waited for: nothing changes, or the ID was not finished before.\<close>

definition keeper_awaited :: "migration \<Rightarrow> bool \<times> bool \<Rightarrow> string option \<Rightarrow> bool" where
  "keeper_awaited m ports task \<longleftrightarrow>
     (keeper_exists m \<and> ports = keeper_applied m \<and> task = keeper_task m) \<or> \<not> task_finished task (keeper_finished m)"

definition clients_awaited :: "migration \<Rightarrow> int \<Rightarrow> string option \<Rightarrow> bool" where
  "clients_awaited m port task \<longleftrightarrow>
     (clients_exist m \<and> port = clients_applied m \<and> task = clients_task m) \<or> \<not> task_finished task (clients_finished m)"

text \<open>
  The strengthened invariant: what is applied may be running and is all that runs once its task is
  finished; a wired ClickHouse has a Keeper; a planned port is served by what is applied.
\<close>

definition keeper_inv :: "migration \<Rightarrow> bool" where
  "keeper_inv m \<longleftrightarrow> (keeper_exists m \<longrightarrow> keeper_applied m \<in> keeper_running m \<and>
     (task_finished (keeper_task m) (keeper_finished m) \<longrightarrow> keeper_running m = {keeper_applied m}))"

definition clients_inv :: "migration \<Rightarrow> bool" where
  "clients_inv m \<longleftrightarrow>
     (clients_exist m \<longrightarrow> clients_applied m \<in> clients_running m \<and>
        (task_finished (clients_task m) (clients_finished m) \<longrightarrow> clients_running m = {clients_applied m})) \<and>
     (\<not> clients_exist m \<longrightarrow> clients_running m = {})"

definition wired_inv :: "migration \<Rightarrow> bool" where
  "wired_inv m \<longleftrightarrow>
     (\<forall>port \<in> clients_running m. 0 \<le> port \<longrightarrow> keeper_exists m \<and> 0 \<le> clients_applied m) \<and>
     (\<forall>port. planned m = Some port \<longrightarrow> 0 \<le> port \<and> keeper_exists m \<and> served port (keeper_applied m))"

definition migration_inv :: "migration \<Rightarrow> bool" where
  "migration_inv m \<longleftrightarrow> connected m \<and> keeper_inv m \<and> clients_inv m \<and> wired_inv m"

lemmas inv_defs = migration_inv_def connected_def keeper_inv_def clients_inv_def wired_inv_def

text \<open>What a part of the invariant does not look at.\<close>

lemma inv_frames [simp]:
  "clients_inv (apply_keeper ports task m) = clients_inv m" "keeper_inv (apply_clients port task m) = keeper_inv m"
  "connected (m\<lparr>planned := p\<rparr>) = connected m" "keeper_inv (m\<lparr>planned := p\<rparr>) = keeper_inv m"
  "clients_inv (m\<lparr>planned := p\<rparr>) = clients_inv m"
  by (simp_all add: inv_defs apply_keeper_def apply_clients_def)

lemma inv_initial: "migration_inv new_cluster" "migration_inv standalone_cluster" "migration_inv earlier_cluster"
  by (simp_all add: inv_defs standalone_cluster_def new_cluster_def earlier_cluster_def served_def KeeperSecurePort_def)

lemma view_simps [simp]:
  "chiExists (view m) = clients_exist m"
  "clients_exist m \<Longrightarrow> chiPort (view m) = clients_applied m"
  "chiRolledOut (view m) = clients_done m"
  "keeper_exists m \<Longrightarrow> statePorts (view m) = keeper_applied m"
  by (simp_all add: view_def statePorts_def)

text \<open>Every port a ClickHouse pod may use is served by the step's Keeper ports.\<close>

lemma step_serves_running:
  assumes inv: "migration_inv m" and p: "port \<in> clients_running m" "0 \<le> port"
  shows "served port (wiringPorts (fst (nextKeeperWiring tls (view m))))"
proof (rule next_wiring.keeps_used)
  from inv p have ex: "clients_exist m" and k: "keeper_exists m" and ap: "0 \<le> clients_applied m"
    by (auto simp: inv_defs)
  from ex show "chiExists (view m)" by simp
  from ex ap show "0 \<le> chiPort (view m)" by simp
  show "0 \<le> port" by (rule p(2))
  show "port = chiPort (view m) \<or> \<not> chiRolledOut (view m)"
    using inv p ex by (auto simp: inv_defs clients_done_def)
  show "served port (statePorts (view m))"
    using inv p k by (auto simp: inv_defs)
qed

text \<open>Applying what is applied already changes nothing.\<close>

lemma apply_same:
  "keeper_exists m \<Longrightarrow> keeper_applied m \<in> keeper_running m \<Longrightarrow> apply_keeper (keeper_applied m) (keeper_task m) m = m"
  "clients_exist m \<Longrightarrow> clients_applied m \<in> clients_running m \<Longrightarrow>
     apply_clients (clients_applied m) (clients_task m) m = m\<lparr>planned := None\<rparr>"
  by (cases m; simp add: apply_keeper_def apply_clients_def insert_absorb)+

lemma inv_plan:
  assumes inv: "migration_inv m" and step: "step = fst (nextKeeperWiring tls (view m))"
    and task: "keeper_awaited m (wiringPorts step) task"
  shows "migration_inv ((apply_keeper (wiringPorts step) task m)\<lparr>planned := Some (kw_port step)\<rparr>)"
proof -
  have run: "served port (wiringPorts step)" if "port \<in> clients_running m" "0 \<le> port" for port
    using step_serves_running [OF inv that] step by simp
  have own: "0 \<le> kw_port step" "served (kw_port step) (wiringPorts step)"
    unfolding step by (rule next_wiring.step_port_nonneg next_wiring.step_serves_itself)+
  show ?thesis
  proof (cases "task_finished task (keeper_finished m)")
    case True
    with task have same: "keeper_exists m" "keeper_applied m = wiringPorts step" "keeper_task m = task"
      by (auto simp: keeper_awaited_def)
    moreover from inv same have "keeper_applied m \<in> keeper_running m" by (simp add: inv_defs)
    ultimately have "apply_keeper (wiringPorts step) task m = m" using apply_same(1) [of m] by simp
    with inv own same show ?thesis by (simp add: migration_inv_def) (simp add: wired_inv_def)
  next
    case False
    let ?m = "(apply_keeper (wiringPorts step) task m)\<lparr>planned := Some (kw_port step)\<rparr>"
    have "connected ?m" "keeper_inv ?m"
      using inv run False by (auto simp: migration_inv_def connected_def keeper_inv_def apply_keeper_def)
    moreover have "wired_inv ?m"
      using inv own by (simp add: migration_inv_def wired_inv_def apply_keeper_def)
    ultimately show ?thesis using inv by (simp add: migration_inv_def)
  qed
qed

lemma inv_plan_held:
  assumes inv: "migration_inv m" and step: "step = fst (nextKeeperWiring tls (view m))"
    and wired: "keeper_exists m" "clients_exist m" "0 \<le> clients_applied m"
  shows "migration_inv (m\<lparr>planned := Some (kw_port step)\<rparr>)"
proof -
  from inv wired have "served (clients_applied m) (keeper_applied m)"
    by (auto simp: inv_defs)
  with wired have "served (kw_port step) (keeper_applied m)"
    using next_wiring.port_served_before [of "view m" tls] step by simp
  moreover have "0 \<le> kw_port step"
    unfolding step by (rule next_wiring.step_port_nonneg)
  ultimately show ?thesis
    using inv wired by (simp add: inv_defs)
qed

lemma inv_wire:
  assumes inv: "migration_inv m" and port: "planned m = Some port" and "keeper_done m" and task: "clients_awaited m port task"
  shows "migration_inv (apply_clients port task m)"
proof -
  from assms have "keeper_running m = {keeper_applied m}" "served port (keeper_applied m)" "0 \<le> port"
    "keeper_exists m"
    by (auto simp: inv_defs keeper_done_def)
  note keeper = this
  show ?thesis
  proof (cases "task_finished task (clients_finished m)")
    case True
    with task have same: "clients_exist m" "clients_applied m = port" "clients_task m = task"
      by (auto simp: clients_awaited_def)
    moreover from inv same have "clients_applied m \<in> clients_running m" by (simp add: inv_defs)
    ultimately have "apply_clients port task m = m\<lparr>planned := None\<rparr>" using apply_same(2) [of m] by simp
    with inv show ?thesis by (simp add: migration_inv_def) (simp add: wired_inv_def)
  next
    case False
    let ?m = "apply_clients port task m"
    have "connected ?m" "wired_inv ?m"
      using inv keeper by (auto simp: migration_inv_def connected_def wired_inv_def apply_clients_def)
    moreover have "clients_inv ?m"
      using False by (simp add: clients_inv_def apply_clients_def)
    ultimately show ?thesis using inv by (simp add: migration_inv_def)
  qed
qed

lemma finish_other: "task \<noteq> Some t \<Longrightarrow> task_finished task (insert t finished) = task_finished task finished"
  by (auto simp: task_finished_def split: option.splits)

lemma forget_finished: "task_finished task (finished - {t}) \<Longrightarrow> task_finished task finished"
  by (auto simp: task_finished_def split: option.splits)

lemma inv_operator:
  assumes "migration_inv m"
  shows "migration_inv (m\<lparr>planned := None\<rparr>)"
    and "keeper_exists m \<Longrightarrow> migration_inv (m\<lparr>keeper_running := {keeper_applied m}, keeper_completed := True, keeper_finished := f\<rparr>)"
    and "keeper_task m \<noteq> Some t \<Longrightarrow>
      migration_inv (m\<lparr>keeper_completed := True, keeper_finished := insert t (keeper_finished m)\<rparr>)"
    and "migration_inv (m\<lparr>keeper_completed := False\<rparr>)"
    and "migration_inv (m\<lparr>keeper_finished := keeper_finished m - {t}\<rparr>)"
    and "clients_exist m \<Longrightarrow>
      migration_inv (m\<lparr>clients_running := {clients_applied m}, clients_completed := True, clients_finished := f\<rparr>)"
    and "clients_task m \<noteq> Some t \<Longrightarrow>
      migration_inv (m\<lparr>clients_completed := True, clients_finished := insert t (clients_finished m)\<rparr>)"
    and "migration_inv (m\<lparr>clients_completed := False\<rparr>)"
    and "migration_inv (m\<lparr>clients_finished := clients_finished m - {t}\<rparr>)"
  using assms by (auto simp: inv_defs finish_other dest: forget_finished)

lemma migrate_inv: "migrate keeper_awaited clients_awaited m m' \<Longrightarrow> migration_inv m \<Longrightarrow> migration_inv m'"
  by (erule migrateE) (auto intro: inv_plan inv_plan_held inv_wire inv_operator simp del: view_simps)

lemma reachable_inv: "reachable keeper_awaited clients_awaited m \<Longrightarrow> migration_inv m"
  by (induction rule: reachable.induct) (auto intro: inv_initial migrate_inv)

text \<open>C1. In every state the provider and the operator can reach together, whatever the interleaving and
  however often TLS is switched, as long as no change carries a task ID the operator has finished before,
  every Keeper port that a ClickHouse pod may be connected to is served by every configuration a Keeper
  node may be running.\<close>

theorem clickhouse_never_loses_keeper:
  assumes "reachable keeper_awaited clients_awaited m" and "port \<in> clients_running m" and "0 \<le> port"
    and "ports \<in> keeper_running m"
  shows "served port ports"
  using reachable_inv [OF assms(1)] assms(2-) by (auto simp: migration_inv_def connected_def)

text \<open>A run: a new Instance with TLS, Keeper applied and rolled out, then ClickHouse applied.\<close>

definition wired_cluster :: migration where
  "wired_cluster = new_cluster\<lparr>keeper_exists := True, keeper_applied := (True, False), keeper_task := Some ''k'',
     keeper_running := {(True, False)}, keeper_completed := True, keeper_finished := {''k''}, clients_exist := True,
     clients_applied := 2281, clients_task := Some ''c'', clients_running := {2281}\<rparr>"

lemma wired_reachable: "reachable keeper_awaited clients_awaited wired_cluster"
proof -
  let ?M = "migrate keeper_awaited clients_awaited"
  define m1 where "m1 = (apply_keeper (wiringPorts (fst (nextKeeperWiring True (view new_cluster)))) (Some ''k'') new_cluster)
    \<lparr>planned := Some (kw_port (fst (nextKeeperWiring True (view new_cluster))))\<rparr>"
  define m2 where "m2 = m1\<lparr>keeper_running := {keeper_applied m1}, keeper_completed := True,
    keeper_finished := finish (keeper_task m1) (keeper_finished m1)\<rparr>"
  have "?M new_cluster m1"
    unfolding m1_def by (rule migrate.plan) (simp_all add: keeper_awaited_def task_finished_def new_cluster_def)
  moreover have m1: "m1 = new_cluster\<lparr>keeper_exists := True, keeper_applied := (True, False), keeper_task := Some ''k'',
      keeper_running := {(True, False)}, planned := Some 2281\<rparr>"
    by (simp add: m1_def apply_keeper_def new_cluster_def view_def wiring_defs)
  then have "?M m1 m2" unfolding m2_def by (intro migrate.keeper_rolled) simp
  moreover have "?M m2 (apply_clients 2281 (Some ''c'') m2)"
    by (rule migrate.wire)
      (simp_all add: m2_def m1 keeper_done_def clients_awaited_def task_finished_def finish_def new_cluster_def)
  moreover have "apply_clients 2281 (Some ''c'') m2 = wired_cluster"
    by (simp add: m2_def m1 apply_clients_def new_cluster_def wired_cluster_def finish_def)
  ultimately show ?thesis by (metis reachable.intros)
qed

theorem clickhouse_never_loses_keeper_witness:
  "reachable keeper_awaited clients_awaited wired_cluster \<and> 2281 \<in> clients_running wired_cluster \<and> served 2281 (True, False)"
  using clickhouse_never_loses_keeper [OF wired_reachable, of 2281 "(True, False)"] wired_reachable
  by (simp add: wired_cluster_def)

section \<open>A switch ends\<close>

text \<open>
  One reconcile with TLS fixed, rolled out before the next: the step's Keeper ports when Keeper
  does not serve exactly them yet (the reconcile then waits for Keeper), else ClickHouse's port.
\<close>

definition rollKeeper :: "bool \<Rightarrow> keeperState \<Rightarrow> keeperState" where
  "rollKeeper tls s = s\<lparr>chkExists := True, chkRolledOut := True,
     chkSecure := kw_secure (fst (nextKeeperWiring tls s)),
     chkPlaintext := kw_plaintext (fst (nextKeeperWiring tls s))\<rparr>"

definition rollClients :: "bool \<Rightarrow> keeperState \<Rightarrow> keeperState" where
  "rollClients tls s = s\<lparr>chiExists := True, chiRolledOut := True,
     chiPort := kw_port (fst (nextKeeperWiring tls s))\<rparr>"

definition keeperReady :: "bool \<Rightarrow> keeperState \<Rightarrow> bool" where
  "keeperReady tls s \<longleftrightarrow> chkExists s \<and> chkRolledOut s \<and> statePorts s = wiringPorts (fst (nextKeeperWiring tls s))"

definition reconcileKeeper :: "bool \<Rightarrow> keeperState \<Rightarrow> keeperState" where
  "reconcileKeeper tls s = (if keeperReady tls s then rollClients tls s else rollKeeper tls s)"

definition settledOn :: "bool \<Rightarrow> keeperState \<Rightarrow> bool" where
  "settledOn tls s \<longleftrightarrow> chkExists s \<and> chkRolledOut s \<and> chiExists s \<and> chiRolledOut s \<and>
     statePorts s = (tls, \<not> tls) \<and> fst (nextKeeperWiring tls s) = snd (nextKeeperWiring tls s) \<and>
     chiPort s = kw_port (snd (nextKeeperWiring tls s))"

text \<open>The last step is due: ClickHouse uses the target port, and Keeper serves it.\<close>

definition movedOn :: "bool \<Rightarrow> keeperState \<Rightarrow> bool" where
  "movedOn tls s \<longleftrightarrow> chkExists s \<and> chkRolledOut s \<and> chiExists s \<and> chiRolledOut s \<and>
     chiPort s = kw_port (targetWiring tls s) \<and> served (chiPort s) (statePorts s)"

lemma keeper_ready: "keeperReady tls (rollKeeper tls s)"
  by (cases s) (auto simp: keeperReady_def rollKeeper_def wiring_defs split: if_splits)

lemma clients_moved: "keeperReady tls s \<Longrightarrow> movedOn tls (rollClients tls s)"
  by (cases s) (auto simp: keeperReady_def rollClients_def movedOn_def wiring_defs split: if_splits)

lemma moved_plan: "movedOn tls s \<Longrightarrow> nextKeeperWiring tls s = (targetWiring tls s, targetWiring tls s)"
  by (auto simp: movedOn_def wiring_defs split: if_splits)

lemma settled_alt: "settledOn tls s \<longleftrightarrow> movedOn tls s \<and> statePorts s = (tls, \<not> tls)"
proof
  assume h: "settledOn tls s"
  then show "movedOn tls s \<and> statePorts s = (tls, \<not> tls)"
    by (auto simp: settledOn_def movedOn_def wiring_defs)
next
  assume h: "movedOn tls s \<and> statePorts s = (tls, \<not> tls)"
  then have "nextKeeperWiring tls s = (targetWiring tls s, targetWiring tls s)"
    by (simp add: moved_plan)
  with h show "settledOn tls s" by (simp add: settledOn_def movedOn_def)
qed

lemma wiringPorts_target: "wiringPorts (targetWiring tls s) = (tls, \<not> tls)"
  by (simp add: wiring_defs)

lemma settled_stays:
  assumes "settledOn tls s"
  shows "reconcileKeeper tls s = s"
proof -
  from assms have "keeperReady tls s"
    using wiringPorts_target [of tls s]
    by (auto simp: settled_alt keeperReady_def movedOn_def moved_plan)
  with assms show ?thesis
    by (simp add: reconcileKeeper_def rollClients_def settledOn_def)
qed

lemma moved_settles:
  assumes m: "movedOn tls s"
  shows "settledOn tls (reconcileKeeper tls s)"
proof (cases "keeperReady tls s")
  case True
  with m have "settledOn tls s"
    using wiringPorts_target [of tls s] by (simp add: settled_alt keeperReady_def moved_plan)
  then show ?thesis by (simp add: settled_stays)
next
  case False
  let ?t = "rollKeeper tls s"
  from m have ports: "statePorts ?t = (tls, \<not> tls)"
    using wiringPorts_target [of tls s]
    by (simp add: rollKeeper_def moved_plan statePorts_def wiringPorts_def)
  have "targetWiring tls ?t = targetWiring tls s"
    using m by (auto simp: rollKeeper_def moved_plan movedOn_def wiring_defs)
  with m ports have "movedOn tls ?t"
    by (auto simp: movedOn_def rollKeeper_def wiring_defs)
  with ports False show ?thesis
    by (simp add: reconcileKeeper_def settled_alt)
qed

text \<open>C6. However far a switch has come and whatever was applied before, three reconciles, each
  rolled out by the operator, bring Keeper and ClickHouse to the wiring TLS calls for: Keeper
  serves exactly the one client port and ClickHouse uses it.\<close>

theorem keeper_switch_converges: "settledOn tls (reconcileKeeper tls (reconcileKeeper tls (reconcileKeeper tls s)))"
proof (cases "keeperReady tls s")
  case True
  then have "settledOn tls (reconcileKeeper tls (reconcileKeeper tls s))"
    by (simp add: reconcileKeeper_def [of tls s] clients_moved moved_settles)
  then show ?thesis by (simp add: settled_stays)
next
  case False
  then have "reconcileKeeper tls (reconcileKeeper tls s) = rollClients tls (rollKeeper tls s)"
    by (simp add: reconcileKeeper_def keeper_ready)
  then show ?thesis by (simp add: keeper_ready clients_moved moved_settles)
qed

section \<open>Task IDs that return\<close>

text \<open>
  The IDs the provider stamps name the rendering: \<open>f\<close> of Keeper's ports, \<open>g\<close> of TLS and ClickHouse's
  port, when nothing else changes. Whatever the two functions are, a switch back to a rendering the
  operator has finished before reads as rolled out while the status still says Completed.
\<close>

definition named_keeper :: "(bool \<times> bool \<Rightarrow> string) \<Rightarrow> migration \<Rightarrow> bool \<times> bool \<Rightarrow> string option \<Rightarrow> bool" where
  "named_keeper f m ports task \<longleftrightarrow> task = Some (f ports)"

definition named_clients :: "(bool \<Rightarrow> int \<Rightarrow> string) \<Rightarrow> migration \<Rightarrow> int \<Rightarrow> string option \<Rightarrow> bool" where
  "named_clients g m port task \<longleftrightarrow> (\<exists>tls. task = Some (g tls port))"

text \<open>A cluster without task IDs and without a record of it: what is applied next carries none either.\<close>

definition unnamed_keeper :: "migration \<Rightarrow> bool \<times> bool \<Rightarrow> string option \<Rightarrow> bool" where
  "unnamed_keeper m ports task \<longleftrightarrow> keeper_exists m \<and> task = keeper_task m"

datatype action = Plan bool "string option" | Wire "string option" | Roll_Keeper | Roll_Clients

fun perform :: "action \<Rightarrow> migration \<Rightarrow> migration" where
  "perform (Plan tls task) m =
     (let step = fst (nextKeeperWiring tls (view m))
      in (apply_keeper (wiringPorts step) task m)\<lparr>planned := Some (kw_port step)\<rparr>)"
| "perform (Wire task) m = apply_clients (the (planned m)) task m"
| "perform Roll_Keeper m = m\<lparr>keeper_running := {keeper_applied m}, keeper_completed := True,
     keeper_finished := finish (keeper_task m) (keeper_finished m)\<rparr>"
| "perform Roll_Clients m = m\<lparr>clients_running := {clients_applied m}, clients_completed := True,
     clients_finished := finish (clients_task m) (clients_finished m)\<rparr>"

text \<open>What an action needs: the applied CHK and CHI carry the IDs allowed, and the wait for Keeper ends.\<close>

fun possible :: "(migration \<Rightarrow> bool \<times> bool \<Rightarrow> string option \<Rightarrow> bool) \<Rightarrow> (migration \<Rightarrow> int \<Rightarrow> string option \<Rightarrow> bool) \<Rightarrow>
    action \<Rightarrow> migration \<Rightarrow> bool" where
  "possible K C (Plan tls task) m = K m (wiringPorts (fst (nextKeeperWiring tls (view m)))) task"
| "possible K C (Wire task) m = (planned m \<noteq> None \<and> keeper_done m \<and> C m (the (planned m)) task)"
| "possible K C Roll_Keeper m = keeper_exists m"
| "possible K C Roll_Clients m = clients_exist m"

primrec run :: "(migration \<Rightarrow> bool \<times> bool \<Rightarrow> string option \<Rightarrow> bool) \<Rightarrow> (migration \<Rightarrow> int \<Rightarrow> string option \<Rightarrow> bool) \<Rightarrow>
    action list \<Rightarrow> migration \<Rightarrow> migration option" where
  "run K C [] m = Some m"
| "run K C (a # as) m = (if possible K C a m then run K C as (perform a m) else None)"

lemma perform_migrates: "possible K C a m \<Longrightarrow> migrate K C m (perform a m)"
  by (cases a) (auto simp: Let_def intro: migrate.intros)

lemma run_reachable: "run K C as m = Some m' \<Longrightarrow> reachable K C m \<Longrightarrow> reachable K C m'"
  by (induction as arbitrary: m) (auto intro: reachable.step perform_migrates split: if_splits)

definition lost :: "migration \<Rightarrow> bool" where
  "lost m \<longleftrightarrow> (\<exists>port \<in> clients_running m. \<exists>ports \<in> keeper_running m. 0 \<le> port \<and> \<not> served port ports)"

lemmas run_defs = run.simps possible.simps perform.simps view_def keeper_done_def clients_done_def task_finished_def finish_def
  apply_keeper_def apply_clients_def named_keeper_def named_clients_def unnamed_keeper_def new_cluster_def earlier_cluster_def
  wiring_defs

text \<open>TLS on, off and on again: the operator is slow to pick up the CHK that opens the second port.\<close>

definition on_off_on :: "(bool \<times> bool \<Rightarrow> string) \<Rightarrow> (bool \<Rightarrow> int \<Rightarrow> string) \<Rightarrow> action list" where
  "on_off_on f g =
     [Plan True (Some (f (True, False))), Roll_Keeper, Wire (Some (g True 2281)), Roll_Clients,
      Plan False (Some (f (True, True))), Roll_Keeper, Plan False (Some (f (True, True))), Wire (Some (g False 2181)), Roll_Clients,
      Plan False (Some (f (False, True))), Roll_Keeper,
      Plan True (Some (f (True, True))), Plan True (Some (f (True, True))), Wire (Some (g True 2281))]"

lemma returning_run: "\<exists>m. run (named_keeper f) (named_clients g) (on_off_on f g) new_cluster = Some m \<and> lost m"
  by (simp add: on_off_on_def run_defs lost_def) blast

text \<open>TLS turned on in a cluster an earlier provider rolled out.\<close>

lemma unnamed_run:
  "\<exists>m. run unnamed_keeper clients_awaited [Plan True None, Plan True None, Wire (Some ''c'')] earlier_cluster = Some m \<and> lost m"
  by (simp add: run_defs lost_def clients_awaited_def)


end
