(* ===== verification/Reconcile.thy ===== *)
theory Reconcile
  imports Rollout Status_Report Monitoring Keeper_Migration
begin

text \<open>
  \<^verbatim>\<open>provider.go\<close>, the reconcile: credentials, certificates, Keeper and ClickHouse are brought to what
  the Instance asks for, in an order the properties below state; while the operator works, the
  status is published.
\<close>

section \<open>Waiting for the operator\<close>

definition waitForCHI :: "'s chi \<Rightarrow> err + unit" where
  "waitForCHI x =
     (case chi_status x of
        None \<Rightarrow> Inl (Wait ''waiting for Altinity operator to initialize CHI'' [] 15)
      | Some s \<Rightarrow>
          (case os_state s of
             StCompleted \<Rightarrow>
               if \<not> rolledOut (chi_task_id (chi_spec_of x)) (os_task_ids_completed s)
               then Inl (Wait ''waiting for Altinity operator to pick up the ClickHouseInstallation change'' [] 15)
               else Inr ()
           | StAborted \<Rightarrow> Inl (Wait (''ClickHouseInstallation aborted: '' @ os_error s) [] 30)
           | _ \<Rightarrow> Inl (Wait ''waiting for Altinity operator to complete CHI provisioning'' [] 15)))"

definition waitForCHK :: "'s chk \<Rightarrow> err + unit" where
  "waitForCHK x =
     (case chk_status x of
        None \<Rightarrow> Inl (Wait ''waiting for Keeper to initialize'' [] 15)
      | Some s \<Rightarrow>
          (case os_state s of
             StCompleted \<Rightarrow>
               if \<not> rolledOut (chk_task_id (chk_spec_of x)) (os_task_ids_completed s)
               then Inl (Wait ''waiting for Altinity operator to pick up the Keeper change'' [] 15)
               else Inr ()
           | StAborted \<Rightarrow> Inl (Wait (''ClickHouseKeeperInstallation aborted: '' @ os_error s) [] 30)
           | _ \<Rightarrow> Inl (Wait ''waiting for Keeper to complete provisioning'' [] 15)))"

section \<open>Applying\<close>

definition applyAndWaitForCHI :: "('s, 'w) ctx \<Rightarrow> rolloutGate \<Rightarrow> 's chi \<Rightarrow> ('s, 'w, unit) act" where
  "applyAndWaitForCHI c g x =
     bind (wrap_err (\<lambda>e. Errorf ''apply ClickHouseInstallation: %w'' [AErr e]) (gateApply c g (RCHI x) ''chi'')) (\<lambda>_.
     bind (get_chi c (ctx_name c)) (\<lambda>r. case r of
       Inl e \<Rightarrow> throw (Wait ''waiting for Altinity operator to provision ClickHouseInstallation'' [] 15)
     | Inr current \<Rightarrow>
         andthen (reconcilePlaintextPolicy c current)
        (andthen (lift_result (waitForCHI current))
           (if \<not> tlsEnabled c then cleanupTLS c current else ret ()))))"

definition syncStandalone :: "('s, 'w) ctx \<Rightarrow> ('s, 'w, unit) act" where
  "syncStandalone c =
     bind (wrap_err (\<lambda>e. Errorf ''build ClickHouseInstallation: %w'' [AErr e]) (buildCHI c 1)) (\<lambda>x.
     bind (newRolloutGate c [RCHI x]) (\<lambda>g. applyAndWaitForCHI c g x))"

text \<open>The part of \<open>syncReplicated\<close> that renders, and the part that applies.\<close>

definition buildPair :: "('s, 'w) ctx \<Rightarrow> keeperWiring \<Rightarrow> ('s, 'w, 's chk \<times> 's chi) act" where
  "buildPair c wiring =
     bind (wrap_err (\<lambda>e. Errorf ''build ClickHouseKeeperInstallation: %w'' [AErr e]) (buildCHKWired c wiring)) (\<lambda>k.
     bind (wrap_err (\<lambda>e. Errorf ''build ClickHouseInstallation: %w'' [AErr e])
       (buildCHIWired c (replicasCount c) wiring)) (\<lambda>x. ret (k, x)))"

definition applyPair :: "('s, 'w) ctx \<Rightarrow> rolloutGate \<Rightarrow> 's chk \<Rightarrow> 's chi \<Rightarrow> ('s, 'w, unit) act" where
  "applyPair c g keeper clickhouse =
     bind (wrap_err (\<lambda>e. Errorf ''apply ClickHouseKeeperInstallation: %w'' [AErr e]) (gateApply c g (RCHK keeper) ''chk''))
       (\<lambda>(_, g1).
     bind (get_chk c (keeperCRName (ctx_name c))) (\<lambda>r. case r of
       Inl e \<Rightarrow> throw (Wait ''waiting for Keeper to initialize'' [] 15)
     | Inr current \<Rightarrow>
         andthen (lift_result (waitForCHK current)) (applyAndWaitForCHI c g1 clickhouse)))"

text \<open>The plan, the objects of its next step, and the gate for the objects it leads to.\<close>

definition preparePair ::
    "('s, 'w) ctx \<Rightarrow> ('s, 'w, keeperWiring \<times> keeperWiring \<times> 's chk \<times> 's chi \<times> rolloutGate) act" where
  "preparePair c =
     bind (planKeeperWiring c) (\<lambda>(step, target).
     bind (buildPair c step) (\<lambda>(desiredCHK, desiredCHI).
     bind (buildPair c target) (\<lambda>(targetCHK, targetCHI).
     bind (newRolloutGate c [RCHK targetCHK, RCHI targetCHI]) (\<lambda>g.
     ret (step, target, desiredCHK, desiredCHI, g)))))"

definition syncReplicated :: "('s, 'w) ctx \<Rightarrow> ('s, 'w, unit) act" where
  "syncReplicated c =
     bind (preparePair c) (\<lambda>(step, target, desiredCHK, desiredCHI, g).
     andthen (applyPair c g desiredCHK desiredCHI)
       (if step \<noteq> target
        then throw (Wait ''switching ClickHouse and Keeper to the new Keeper ports'' [] 5)
        else ret ()))"

definition sync :: "('s, 'w) ctx \<Rightarrow> ('s, 'w, unit) act" where
  "sync c =
     bind (wrap_err (\<lambda>e. Errorf ''ensure credentials: %w'' [AErr e]) (ensureCredentials c)) (\<lambda>_.
     andthen (if tlsEnabled c then ensureTLS c else ret ())
     (bind (attempt (if replicated c then syncReplicated c else syncStandalone c)) (\<lambda>syncErr.
     andthen (reconcilePodMonitor c) (lift_result syncErr))))"

section \<open>Publishing the status\<close>

text \<open>The Instance with the pending actions and their condition, and whether either changed.\<close>

definition setPendingMaintenance :: "('s, 'w) ctx \<Rightarrow> inst \<Rightarrow> ('s, 'w, bool \<times> inst) act" where
  "setPendingMaintenance c i =
     bind (pending_maintenance c) (\<lambda>pending.
       let names = maintenance_names_of c;
           changed = (\<not> same_pending c (inst_pending i) pending);
           i1 = i\<lparr>inst_pending := pending\<rparr>;
           held = \<lparr>cond_type = condition_maintenance_pending names, cond_status = True,
             cond_reason = reason_awaiting_approval names,
             cond_message = itoa (int (length pending)) @ '' action(s) require approval to proceed'',
             cond_generation = inst_generation i\<rparr>;
           free = held\<lparr>cond_status := False, cond_reason := reason_no_actions_pending names,
             cond_message := ''No disruptive actions are held''\<rparr>
       in if pending = [] \<and> find (\<lambda>x. cond_type x = condition_maintenance_pending names) (inst_conditions i) = None
          then ret (changed, i1)
          else (let (set, conditions) = set_condition c (if pending = [] then free else held) (inst_conditions i)
                in ret (changed \<or> set, i1\<lparr>inst_conditions := conditions\<rparr>)))"

definition reportStatus :: "('s, 'w) ctx \<Rightarrow> status \<Rightarrow> ('s, 'w, unit) act" where
  "reportStatus c st =
     (let i = ctx_instance c;
          (phase, message) = to_instance_status c (st_phase st, st_message st);
          changed = (inst_phase i \<noteq> phase \<or> inst_message i \<noteq> message);
          i1 = i\<lparr>inst_phase := phase, inst_message := message\<rparr>
      in bind (maintenance_requested c) (\<lambda>requested.
         bind (if requested then setPendingMaintenance c i1 else ret (False, i1)) (\<lambda>(pendingChanged, i2).
           if changed \<or> pendingChanged then bind (update_status c i2) (\<lambda>_. ret ()) else ret ())))"

definition Sync :: "('s, 'w) ctx \<Rightarrow> ('s, 'w, unit) act" where
  "Sync c =
     bind (attempt (sync c)) (\<lambda>r. case r of
       Inr _ \<Rightarrow> ret ()
     | Inl e \<Rightarrow>
         andthen (if is_wait e
             then bind (attempt (Status c)) (\<lambda>st. case st of Inl _ \<Rightarrow> ret () | Inr s \<Rightarrow> reportStatus c s)
             else ret ())
           (throw e))"

section \<open>Lemmas\<close>

lemma waitForCHI_ok: "waitForCHI x = Inr u \<longleftrightarrow> statusRolledOut (chi_status x) (chi_task_id (chi_spec_of x))"
  by (auto simp: waitForCHI_def statusRolledOut_def split: option.splits op_state.splits)

lemma waitForCHK_ok: "waitForCHK x = Inr u \<longleftrightarrow> statusRolledOut (chk_status x) (chk_task_id (chk_spec_of x))"
  by (auto simp: waitForCHK_def statusRolledOut_def split: option.splits op_state.splits)

text \<open>C34. Waiting and reporting agree, though they are coded apart: of the same object, a reconcile stops waiting
  exactly when the reported status is done, what it returns until then is a request to wait, and the
  status it waits with is Failed exactly when the operator aborted the change.\<close>

theorem waiting_agrees_with_status:
  "(waitForCHI x = Inr () \<longleftrightarrow> installationStatus f (chiInstallation x) = None) \<and>
   (waitForCHK k = Inr () \<longleftrightarrow> installationStatus f (chkInstallation k) = None) \<and>
   (case waitForCHI x of Inl e \<Rightarrow> is_wait e | Inr _ \<Rightarrow> True) \<and> (case waitForCHK k of Inl e \<Rightarrow> is_wait e | Inr _ \<Rightarrow> True) \<and>
   (map_option st_phase (installationStatus provisioning (chiInstallation x)) = Some Failed \<longleftrightarrow>
      map_option os_state (chi_status x) = Some StAborted) \<and>
   (map_option st_phase (installationStatus provisioning (chkInstallation k)) = Some Failed \<longleftrightarrow>
      map_option os_state (chk_status k) = Some StAborted)"
proof (intro conjI)
  show "waitForCHI x = Inr () \<longleftrightarrow> installationStatus f (chiInstallation x) = None"
    "waitForCHK k = Inr () \<longleftrightarrow> installationStatus f (chkInstallation k) = None"
    by (simp_all add: waitForCHI_ok waitForCHK_ok chi_view.done_iff chk_view.done_iff)
  show "case waitForCHI x of Inl e \<Rightarrow> is_wait e | Inr _ \<Rightarrow> True" "case waitForCHK k of Inl e \<Rightarrow> is_wait e | Inr _ \<Rightarrow> True"
    by (simp_all add: waitForCHI_def waitForCHK_def split: option.splits op_state.splits)
  show "map_option st_phase (installationStatus provisioning (chiInstallation x)) = Some Failed \<longleftrightarrow>
      map_option os_state (chi_status x) = Some StAborted"
    by (auto simp: installationStatus_def chiInstallation_def observed_def missing_def Let_def failed_def provisioning_def split: option.splits if_splits)
  show "map_option st_phase (installationStatus provisioning (chkInstallation k)) = Some Failed \<longleftrightarrow>
      map_option os_state (chk_status k) = Some StAborted"
    by (auto simp: installationStatus_def chkInstallation_def observed_def missing_def Let_def failed_def provisioning_def split: option.splits if_splits)
qed

fun applies_chi :: "'s event \<Rightarrow> bool" where
  "applies_chi (Applied (OCHI x) r) = True"
| "applies_chi _ = False"

fun applies_chk :: "'s event \<Rightarrow> bool" where
  "applies_chk (Applied (OCHK x) r) = True"
| "applies_chk _ = False"

lemma emits_inputsHash [emits_rules]:
  "(\<And>n r. P (GotInstance n r)) \<Longrightarrow> (\<And>n r. P (GotSecret n r)) \<Longrightarrow> emits P (inputsHash c)"
  unfolding inputsHash_def Let_def by (intro emits_rules)

lemma emits_newRolloutGate [emits_rules]:
  "(\<And>n r. P (GotInstance n r)) \<Longrightarrow> (\<And>n r. P (GotSecret n r)) \<Longrightarrow> emits P (newRolloutGate c xs)"
  unfolding newRolloutGate_def by (intro emits_rules)

lemma emits_live_of [emits_rules]:
  "(\<And>n r. P (GotCHI n r)) \<Longrightarrow> (\<And>n r. P (GotCHK n r)) \<Longrightarrow> emits P (live_of c x)"
  by (cases x) (auto intro!: emits_rules)

text \<open>What applying a CHK, or a CHI, can call.\<close>

lemma stamped_kind:
  "obj_of (stamped g key spec live (RCHK k)) = OCHK y \<or> (\<exists>z. obj_of (stamped g key spec live (RCHK k)) = OCHK z)"
  "\<exists>z. obj_of (stamped g key spec live (RCHI x)) = OCHI z"
  by (simp_all add: stamped_def stampTaskID_def Let_def)

lemma emits_gateApply [emits_rules]:
  assumes "\<And>n r. P (GotCHI n r)" and "\<And>n r. P (GotCHK n r)" and "\<And>a r. P (Requested a r)"
    and "\<And>s r. P (Applied (OSecret s) r)"
    and "\<And>g key spec live r. specHash c x = Inr spec \<Longrightarrow> P (Applied (obj_of (stamped g key spec live x)) r)"
  shows "emits P (gateApply c g x key)"
proof (cases "specHash c x")
  case (Inl e)
  then show ?thesis by (simp add: gateApply_def emits_def run_simps)
next
  case (Inr spec)
  have "emits P (bind (lift_result (Inr spec)) f) = emits P (f spec)" for f :: "string \<Rightarrow> ('a, 'b, bool \<times> rolloutGate) act"
    by (simp add: emits_def run_simps)
  then show ?thesis
    unfolding gateApply_def askMaintenance_def applyAllowed_def save_def Inr
    using assms Inr by (simp only:) (intro emits_rules; simp)
qed

lemma emits_buildPair [emits_rules]:
  "(\<And>n r. P (GotSecret n r)) \<Longrightarrow> (\<And>n r. P (GotCHK n r)) \<Longrightarrow> emits P (buildPair c w)"
  unfolding buildPair_def by (intro emits_rules)

lemma emits_serverSecretMounted [emits_rules]: "(\<And>s r. P (ListedPods s r)) \<Longrightarrow> emits P (serverSecretMounted c)"
  unfolding serverSecretMounted_def by (intro emits_rules)

lemma emits_cleanupTLS [emits_rules]:
  "(\<And>n r. P (GotCHK n r)) \<Longrightarrow> (\<And>n r. P (GotSecret n r)) \<Longrightarrow> (\<And>s r. P (ListedPods s r)) \<Longrightarrow>
     (\<And>k n r. (k, n) \<in> set (tlsResources (ctx_name c)) \<Longrightarrow> P (Deleted k n r)) \<Longrightarrow> emits P (cleanupTLS c x)"
  unfolding cleanupTLS_def deleteTLSResources_def Let_def by (intro emits_rules)

text \<open>The calls made after Keeper is seen ready change no CHK, those before ClickHouse is applied no CHI.\<close>

lemma chi_not_chk: "emits (\<lambda>e. \<not> applies_chk e) (gateApply c g (RCHI x) key)"
proof (intro emits_gateApply; simp?)
  fix g key spec live r
  obtain z where "obj_of (stamped g key spec live (RCHI x)) = OCHI z" using stamped_kind(2) by blast
  then show "\<not> applies_chk (Applied (obj_of (stamped g key spec live (RCHI x))) r)" by simp
qed

lemma chk_not_chi: "emits (\<lambda>e. \<not> applies_chi e) (gateApply c g (RCHK k) key)"
proof (intro emits_gateApply; simp?)
  fix g key spec live r
  obtain z where "obj_of (stamped g key spec live (RCHK k)) = OCHK z" using stamped_kind(1) by blast
  then show "\<not> applies_chi (Applied (obj_of (stamped g key spec live (RCHK k))) r)" by simp
qed

lemma emits_reconcilePlaintextPolicy [emits_rules]:
  "(\<And>n r. P (GotPolicy n r)) \<Longrightarrow> (\<And>n r. P (Deleted KPolicy n r)) \<Longrightarrow> (\<And>np r. P (Applied (OPolicy np) r)) \<Longrightarrow>
     emits P (reconcilePlaintextPolicy c x)"
  unfolding reconcilePlaintextPolicy_def Let_def by (intro emits_rules)

lemma applyAndWait_not_chk: "emits (\<lambda>e. \<not> applies_chk e) (applyAndWaitForCHI c g x)"
  unfolding applyAndWaitForCHI_def by (intro emits_rules chi_not_chk; simp)

text \<open>The events of \<open>applyPair\<close>: Keeper's, one read of it, then ClickHouse's if Keeper is ready.\<close>

lemma applyPair_events:
  obtains us answer vs where "events (applyPair c g keeper clickhouse) w = us @ answer @ vs"
    and "filter applies_chi us = []"
    and "answer = [] \<and> vs = [] \<or> (\<exists>r. answer = [GotCHK (keeperCRName (ctx_name c)) r] \<and> filter applies_chk vs = [] \<and>
      (vs = [] \<or> (\<exists>k. r = Inr k \<and> statusRolledOut (chk_status k) (chk_task_id (chk_spec_of k)))))"
proof -
  let ?gate = "wrap_err (\<lambda>e. Errorf ''apply ClickHouseKeeperInstallation: %w'' [AErr e]) (gateApply c g (RCHK keeper) ''chk'')"
  let ?w = "world ?gate w" and ?n = "keeperCRName (ctx_name c)"
  have us: "filter applies_chi (events ?gate w) = []"
    by (auto simp: filter_empty_conv dest: emitsD [OF chk_not_chi])
  show ?thesis
  proof (cases "result ?gate w")
    case (Inl e)
    then have "events (applyPair c g keeper clickhouse) w = events ?gate w @ [] @ []"
      by (simp add: applyPair_def events_bind del: wrap_err_simps)
    then show ?thesis using us by (rule that) simp
  next
    case (Inr out)
    obtain ok g1 where out: "result ?gate w = Inr (ok, g1)" using Inr by (cases out) auto
    let ?r = "fst (api_get_chk c ?n ?w)"
    define vs where "vs = (case ?r of Inl e \<Rightarrow> [] | Inr current \<Rightarrow>
        events (andthen (lift_result (waitForCHK current)) (applyAndWaitForCHI c g1 clickhouse)) (snd (api_get_chk c ?n ?w)))"
    have "events (applyPair c g keeper clickhouse) w = events ?gate w @ [GotCHK ?n ?r] @ vs"
      by (simp add: applyPair_def events_bind out get_chk_def vs_def del: wrap_err_simps split: sum.splits)
    moreover have "filter applies_chk vs = []"
    proof (cases ?r)
      case (Inr k)
      then show ?thesis
        by (cases "waitForCHK k")
          (auto simp: vs_def filter_empty_conv andthen_run dest: emitsD [OF applyAndWait_not_chk])
    qed (simp add: vs_def)
    moreover have "vs = [] \<or> (\<exists>k. ?r = Inr k \<and> statusRolledOut (chk_status k) (chk_task_id (chk_spec_of k)))"
    proof (cases ?r)
      case (Inr k)
      then show ?thesis
        by (cases "waitForCHK k") (auto simp: vs_def andthen_run dest: waitForCHK_ok [THEN iffD1])
    qed (simp add: vs_def)
    ultimately show ?thesis using us by (intro that [of "events ?gate w" "[GotCHK ?n ?r]" vs]) auto
  qed
qed

lemma preparePair_reads: "emits (\<lambda>e. \<not> is_write e) (preparePair c)"
  unfolding preparePair_def by (intro emits_rules; simp)

lemma buildPair_Inr:
  "result (buildPair c wiring) w = Inr (k, x) \<Longrightarrow>
     \<exists>v1 v2. result (buildCHKWired c wiring) v1 = Inr k \<and> result (buildCHIWired c (replicasCount c) wiring) v2 = Inr x"
  by (auto simp: buildPair_def returns simp del: wrap_err_simps)

lemma preparePair_Inr:
  assumes "result (preparePair c) w = Inr (step, target, keeper, clickhouse, g)"
  shows "result (planKeeperWiring c) w = Inr (step, target) \<and>
     (\<exists>v1 v2. result (buildCHKWired c step) v1 = Inr keeper \<and>
        result (buildCHIWired c (replicasCount c) step) v2 = Inr clickhouse)"
  using assms by (auto simp: preparePair_def bind_Inr dest: buildPair_Inr)

text \<open>The writes of \<open>syncReplicated\<close> are those of \<open>applyPair\<close> on what was rendered for the step.\<close>

lemma syncReplicated_events:
  "events (syncReplicated c) w =
     (case result (preparePair c) w of
        Inl e \<Rightarrow> events (preparePair c) w
      | Inr (step, target, keeper, clickhouse, g) \<Rightarrow>
          events (preparePair c) w @ events (applyPair c g keeper clickhouse) (world (preparePair c) w))"
  by (auto simp: syncReplicated_def events_bind andthen_run split: sum.splits prod.splits)

lemma prepare_applies_nothing:
  "e \<in> set (events (preparePair c) w) \<Longrightarrow> \<not> applies_chi e \<and> \<not> applies_chk e"
  using emitsD [OF preparePair_reads, of e c w] by (cases e) auto

section \<open>Properties\<close>

text \<open>C2. ClickHouse is never applied before Keeper is ready for it: whenever a reconcile applies a CHI,
  it has read, after its last change to the CHK, a CHK the operator reports rolled out.\<close>

theorem keeper_ready_before_clickhouse:
  assumes "Applied (OCHI x) r \<in> set (events (syncReplicated c) w)"
  shows "\<exists>us k vs. events (syncReplicated c) w = us @ GotCHK (keeperCRName (ctx_name c)) (Inr k) # vs \<and>
     statusRolledOut (chk_status k) (chk_task_id (chk_spec_of k)) \<and>
     filter applies_chi us = [] \<and> filter applies_chk vs = []"
proof (cases "result (preparePair c) w")
  case (Inl e)
  with assms prepare_applies_nothing [of "Applied (OCHI x) r" c w] show ?thesis by (simp add: syncReplicated_events)
next
  case (Inr out)
  obtain step target keeper clickhouse g where out: "out = (step, target, keeper, clickhouse, g)"
    by (cases out)
  let ?v = "world (preparePair c) w"
  have pre: "filter applies_chi (events (preparePair c) w) = []"
    using prepare_applies_nothing [of _ c w] by (auto simp: filter_empty_conv)
  have evs: "events (syncReplicated c) w = events (preparePair c) w @ events (applyPair c g keeper clickhouse) ?v"
    using Inr out by (simp add: syncReplicated_events)
  obtain us answer vs where pair: "events (applyPair c g keeper clickhouse) ?v = us @ answer @ vs"
    and us: "filter applies_chi us = []"
    and rest: "answer = [] \<and> vs = [] \<or> (\<exists>r. answer = [GotCHK (keeperCRName (ctx_name c)) r] \<and> filter applies_chk vs = [] \<and>
      (vs = [] \<or> (\<exists>k. r = Inr k \<and> statusRolledOut (chk_status k) (chk_task_id (chk_spec_of k)))))"
    by (rule applyPair_events)
  have "Applied (OCHI x) r \<notin> set us \<union> set (events (preparePair c) w)"
    using us pre by (auto simp: filter_empty_conv)
  with assms evs pair have "Applied (OCHI x) r \<in> set (answer @ vs)" by auto
  with rest obtain k where "answer = [GotCHK (keeperCRName (ctx_name c)) (Inr k)]" "filter applies_chk vs = []"
    "statusRolledOut (chk_status k) (chk_task_id (chk_spec_of k))"
    by auto
  then show ?thesis
    using evs pair us pre by (intro exI [of _ "events (preparePair c) w @ us"] exI [of _ k] exI [of _ vs]) auto
qed

lemma stamped_ports:
  "obj_of (stamped g key spec live (RCHK k)) = OCHK y \<Longrightarrow> chkPorts y = chkPorts k"
  "obj_of (stamped g key spec live (RCHI x)) = OCHI z \<Longrightarrow> chiKeeperPort z = chiKeeperPort x"
  by (auto simp: stamped_def stampTaskID_def Let_def chkPorts_def chiKeeperPort_def split: if_splits)

lemma stamped_other_kind:
  "obj_of (stamped g key spec live (RCHK k)) \<noteq> OCHI z" "obj_of (stamped g key spec live (RCHI x)) \<noteq> OCHK y"
  by (simp_all add: stamped_def stampTaskID_def Let_def)

lemma stamped_names_kind:
  "specHash c (RCHK k) = Inr spec \<Longrightarrow> taskID (RCHK k) = None \<Longrightarrow> obj_of (stamped g key spec live (RCHK k)) = OCHK y \<Longrightarrow>
     task_names_rendering c (RCHK y)"
  "specHash c (RCHI x) = Inr spec \<Longrightarrow> taskID (RCHI x) = None \<Longrightarrow> obj_of (stamped g key spec live (RCHI x)) = OCHI z \<Longrightarrow>
     task_names_rendering c (RCHI z)"
  using stamped_names [of "RCHK k" c spec g key live] stamped_names [of "RCHI x" c spec g key live]
  by (cases "stamped g key spec live (RCHK k)"; cases "stamped g key spec live (RCHI x)"; simp)+

lemma applyPair_ports:
  assumes "chk_task_id (chk_spec_of k) = None" and "chi_task_id (chi_spec_of x) = None"
  shows "emits (\<lambda>e. (\<forall>y r. e = Applied (OCHK y) r \<longrightarrow> chkPorts y = chkPorts k \<and> task_names_rendering c (RCHK y)) \<and>
              (\<forall>z r. e = Applied (OCHI z) r \<longrightarrow> chiKeeperPort z = chiKeeperPort x \<and> task_names_rendering c (RCHI z)))
    (applyPair c g k x)"
  using assms unfolding applyPair_def applyAndWaitForCHI_def
  by (intro emits_rules; simp add: stamped_ports stamped_other_kind stamped_names_kind)

text \<open>What a built CHK and CHI carry of the wiring they were built for.\<close>

lemma built_ports:
  "result (buildCHKWired c wiring) v = Inr k \<Longrightarrow> chkPorts k = wiringPorts wiring"
  "1 < n \<Longrightarrow> result (buildCHIWired c n wiring) v = Inr x \<Longrightarrow> chiKeeperPort x = kw_port wiring"
proof -
  assume "result (buildCHKWired c wiring) v = Inr k"
  from buildCHKWired_result [OF this] show "chkPorts k = wiringPorts wiring"
    by (auto simp: chkPorts_def chkCluster_def wiringPorts_def)
next
  assume n: "1 < n" and built: "result (buildCHIWired c n wiring) v = Inr x"
  obtain img settings user where x: "chi_spec_of x = chiSpec c n wiring img settings user"
    using buildCHIWired_result [OF built] by auto
  with n chiSpec_configuration [of c n wiring img settings user] obtain conf where
    "chi_configuration (chi_spec_of x) = Some conf" "chi_zookeeper conf = Some (keeperZookeeper c (kw_port wiring))"
    by auto
  then show "chiKeeperPort x = kw_port wiring" by (rule chiKeeperPort_keeperZookeeper)
qed

text \<open>Of the objects \<open>syncReplicated\<close> applies: the step's ports, and task IDs that name the rendering.\<close>

lemma applied_ports:
  assumes plan: "result (planKeeperWiring c) w = Inr (step, target)"
  shows "Applied (OCHK y) r \<in> set (events (syncReplicated c) w) \<Longrightarrow> chkPorts y = wiringPorts step \<and> task_names_rendering c (RCHK y)"
    and "Applied (OCHI z) r \<in> set (events (syncReplicated c) w) \<Longrightarrow> chiKeeperPort z = kw_port step \<and> task_names_rendering c (RCHI z)"
proof -
  have "(\<forall>y r. e = Applied (OCHK y) r \<longrightarrow> chkPorts y = wiringPorts step \<and> task_names_rendering c (RCHK y)) \<and>
      (\<forall>z r. e = Applied (OCHI z) r \<longrightarrow> chiKeeperPort z = kw_port step \<and> task_names_rendering c (RCHI z))"
    if e: "e \<in> set (events (syncReplicated c) w)" "applies_chi e \<or> applies_chk e" for e
  proof (cases "result (preparePair c) w")
    case (Inl err)
    with e prepare_applies_nothing [of e c w] show ?thesis by (simp add: syncReplicated_events)
  next
    case (Inr out)
    then obtain s t k x g where out: "result (preparePair c) w = Inr (s, t, k, x, g)" by (cases out) auto
    then have ev: "e \<in> set (events (applyPair c g k x) (world (preparePair c) w))"
      using e prepare_applies_nothing [of e c w] by (auto simp: syncReplicated_events)
    obtain v1 v2 where b: "result (buildCHKWired c step) v1 = Inr k"
      "result (buildCHIWired c (replicasCount c) step) v2 = Inr x"
      using preparePair_Inr [OF out] plan by auto
    have ports: "chkPorts k = wiringPorts step" "chiKeeperPort x = kw_port step"
      using built_ports(1) [OF b(1)] built_ports(2) [OF _ b(2)] replicasCount_ge2 [of c] by simp_all
    have "chk_task_id (chk_spec_of k) = None" "chi_task_id (chi_spec_of x) = None"
      using buildCHKWired_result [OF b(1)] buildCHIWired_result [OF b(2)] by auto
    from emitsD [OF applyPair_ports [OF this] ev] show ?thesis unfolding ports .
  qed
  note applied = this
  show "Applied (OCHK y) r \<in> set (events (syncReplicated c) w) \<Longrightarrow> chkPorts y = wiringPorts step \<and> task_names_rendering c (RCHK y)"
    using applied [of "Applied (OCHK y) r"] by simp
  show "Applied (OCHI z) r \<in> set (events (syncReplicated c) w) \<Longrightarrow> chiKeeperPort z = kw_port step \<and> task_names_rendering c (RCHI z)"
    using applied [of "Applied (OCHI z) r"] by simp
qed

lemma planKeeperWiring_Inr:
  assumes "result (getOptional (keeperCRName (ctx_name c)) (get_chk c (keeperCRName (ctx_name c)))) w = Inr k"
    and "result (getOptional (ctx_name c) (get_chi c (ctx_name c))) (world (get_chk c (keeperCRName (ctx_name c))) w) = Inr i"
  shows "result (planKeeperWiring c) w = Inr (nextKeeperWiring (tlsEnabled c) (stateOf k i))"
  using assms by (simp add: planKeeperWiring_def liveKeeperState_def result_bind del: getOptional_simps(1))

text \<open>C5. The reconcile takes the steps of the migration model: from a state the model's view of which is
  what was read, the CHK that is applied is the model's planning step, with the task ID it carries, and a CHI that
  is applied uses the port that step plans. The task IDs of both, if any, name their rendering.\<close>

theorem reconcile_takes_model_steps:
  assumes "result (getOptional (keeperCRName (ctx_name c)) (get_chk c (keeperCRName (ctx_name c)))) w = Inr k"
    and "result (getOptional (ctx_name c) (get_chi c (ctx_name c))) (world (get_chk c (keeperCRName (ctx_name c))) w) = Inr i"
    and "view m = stateOf k i" and "Applied (OCHK y) r \<in> set (events (syncReplicated c) w)"
    and "K m (chkPorts y) (chk_task_id (chk_spec_of y))"
  shows "task_names_rendering c (RCHK y) \<and>
     (\<exists>port. migrate K C m ((apply_keeper (chkPorts y) (chk_task_id (chk_spec_of y)) m)\<lparr>planned := Some port\<rparr>) \<and>
        (\<forall>x r'. Applied (OCHI x) r' \<in> set (events (syncReplicated c) w) \<longrightarrow>
           chiKeeperPort x = port \<and> task_names_rendering c (RCHI x)))"
proof -
  let ?step = "fst (nextKeeperWiring (tlsEnabled c) (view m))"
  have plan: "result (planKeeperWiring c) w = Inr (?step, snd (nextKeeperWiring (tlsEnabled c) (view m)))"
    using planKeeperWiring_Inr [OF assms(1,2)] assms(3) by simp
  have y: "chkPorts y = wiringPorts ?step" "task_names_rendering c (RCHK y)" using applied_ports(1) [OF plan assms(4)] by simp_all
  then have "migrate K C m ((apply_keeper (chkPorts y) (chk_task_id (chk_spec_of y)) m)\<lparr>planned := Some (kw_port ?step)\<rparr>)"
    using migrate.plan [of ?step "tlsEnabled c" m K "chk_task_id (chk_spec_of y)" C] assms(5) by simp
  then show ?thesis using applied_ports(2) [OF plan] y by blast
qed

section \<open>Instances\<close>

text \<open>The first change the gate sees of an object goes through, and is stored with its record.\<close>

lemma sample_hash: "\<exists>h. specHash (sample_ctx p) x = Inr h \<and> h \<noteq> []"
proof -
  have "length (sha256Hex (sample_ctx p) d) = 64" for d by (simp add: sha256Hex_def)
  then have "sha256Hex (sample_ctx p) d \<noteq> []" for d by (metis length_0_conv zero_neq_numeral)
  then show ?thesis by (cases x) (simp_all add: hashJSON_def)
qed

lemma sample_live:
  "\<exists>live. live_read (sample_ctx p) x w live \<and> world (live_of (sample_ctx p) x) w = w \<and>
     (\<forall>l. result (live_of (sample_ctx p) x) w = Inr (Inr l) \<longrightarrow> live = Some l)"
proof -
  obtain r where r: "result (live_of (sample_ctx p) x) w = Inr r" "r = Inl NotFound \<or> (\<exists>l. r = Inr l)"
    by (cases x; auto simp: get_chi_def get_chk_def run_simps lookup_in_def split: option.splits)
  moreover have "world (live_of (sample_ctx p) x) w = w"
    by (cases x; simp add: get_chi_def get_chk_def run_simps lookup_in_def split: option.splits)
  ultimately show ?thesis by (auto simp: live_read_def intro: exI [of _ None] exI [of _ "Some l" for l])
qed

lemma first_change:
  assumes "get0 (g_record g) (key @ specSuffix) = []"
  obtains spec live where "specHash (sample_ctx p) x = Inr spec" and "live_read (sample_ctx p) x w live"
    and "result (gateApply (sample_ctx p) g x key) w = Inr (True, recorded g key spec)"
    and "Applied (obj_of (stamped g key spec live x)) None \<in> set (events (gateApply (sample_ctx p) g x key) w)"
    and "world (gateApply (sample_ctx p) g x key) w =
      store_obj (OSecret \<lparr>secret_name = rolloutStateName ''db'', secret_data = g_record (recorded g key spec)\<rparr>)
        (store_obj (obj_of (stamped g key spec live x)) w)"
proof -
  obtain spec where spec: "specHash (sample_ctx p) x = Inr spec" "spec \<noteq> []" using sample_hash by blast
  obtain live where live: "live_read (sample_ctx p) x w live" "world (live_of (sample_ctx p) x) w = w"
    using sample_live by blast
  have once: "allowedAtOnce g key spec b" for b using assms by (simp add: allowedAtOnce_def Let_def)
  have apply_run: "result (applyAllowed (sample_ctx p) g x key spec live) w = Inr (True, recorded g key spec)"
    "Applied (obj_of (stamped g key spec live x)) None \<in> set (events (applyAllowed (sample_ctx p) g x key spec live) w)"
    "world (applyAllowed (sample_ctx p) g x key spec live) w =
      store_obj (OSecret \<lparr>secret_name = rolloutStateName ''db'', secret_data = g_record (recorded g key spec)\<rparr>)
        (store_obj (obj_of (stamped g key spec live x)) w)"
    using assms spec(2) by (simp_all add: applyAllowed_def save_def run_simps apply_obj_def)
  have "world (gateApply (sample_ctx p) g x key) w = world (applyAllowed (sample_ctx p) g x key spec live) w"
    using live spec(1) by (cases live) (simp_all add: gateApply_def run_simps live_read_def once)
  then show ?thesis
    using that spec(1) live apply_run gateApply_decides [OF spec(1) live(1), of g key]
    by (simp add: gateDecide_def once run_simps)
qed

text \<open>Preparing on the sample cluster always succeeds and changes nothing.\<close>

lemma sample_hashes: "\<exists>h. specHashes (sample_ctx p) xs = Inr h"
proof (induction xs)
  case (Cons x xs)
  then show ?case using sample_hash [of p x] by auto
qed simp

lemma sample_keeps_hash [total_rules]: "keeps (inputsHash (sample_ctx p))" "succeeds (inputsHash (sample_ctx p))"
proof -
  show "keeps (inputsHash (sample_ctx p))"
    unfolding inputsHash_def Let_def by (intro total_rules)
  show "succeeds (inputsHash (sample_ctx p))"
    unfolding succeeds_def
  proof
    fix w
    obtain i where i: "result (get_instance (sample_ctx p) ''db'') w = Inr (Inr i)"
      by (cases "cl_instance w") (simp_all add: get_instance_def)
    obtain s where s: "result (getOptional (credentialsSecretName ''db'') (get_secret (sample_ctx p) (credentialsSecretName ''db'')))
        (world (get_instance (sample_ctx p) ''db'') w) = Inr s"
      using succeedsD [OF sample_optional_reads(3)] by blast
    show "\<exists>a. result (inputsHash (sample_ctx p)) w = Inr a"
      by (simp add: inputsHash_def result_bind i s hashJSON_def Let_def del: getOptional_simps(1))
  qed
qed

lemma sample_gate:
  assumes "map_of (cl_secrets w) (rolloutStateName ''db'') = None"
  shows "\<exists>g. result (newRolloutGate (sample_ctx p) xs) w = Inr g \<and> g_record g = []"
  using assms succeedsD [OF sample_keeps_hash(2), of p w] sample_hashes [of p xs]
  by (auto simp: newRolloutGate_def result_bind get_secret_def lookup_in_def)

lemma keeps_case_api_error [total_rules]:
  "keeps m \<Longrightarrow> keeps n \<Longrightarrow> (\<And>s. keeps (f s)) \<Longrightarrow>
     keeps (case e of NotFound \<Rightarrow> m | NoMatch \<Rightarrow> n | OtherApi s \<Rightarrow> f s)"
  by (cases e) auto

lemma sample_keeps_builds [total_rules]:
  "keeps (buildCHKWired (sample_ctx p) k)" "keeps (buildCHIWired (sample_ctx p) n k)" "keeps (planKeeperWiring (sample_ctx p))"
  unfolding buildCHKWired_def buildCHIWired_def resolveKeeperStorage_def credentialsForCHI_def planKeeperWiring_def
    liveKeeperState_def Let_def
  by (intro total_rules; simp)+

lemma sample_builds [total_rules]:
  "succeeds (buildCHKWired (sample_ctx p) k)"
  "par_configuration p = [] \<Longrightarrow> succeeds (buildCHIWired (sample_ctx p) n k)"
  "succeeds (planKeeperWiring (sample_ctx p))"
proof -
  show "succeeds (buildCHKWired (sample_ctx p) k)" using sample_builds_chk by (simp add: succeeds_def)
  show "succeeds (buildCHIWired (sample_ctx p) n k)" if "par_configuration p = []"
    using sample_builds_chi [OF that] by (simp add: succeeds_def)
  show "succeeds (planKeeperWiring (sample_ctx p))"
    unfolding planKeeperWiring_def liveKeeperState_def by (intro total_rules)
qed

lemma sample_prepares:
  assumes "par_configuration p = []" and "map_of (cl_secrets w) (rolloutStateName ''db'') = None"
  obtains s t k x g where "result (preparePair (sample_ctx p)) w = Inr (s, t, k, x, g)"
    and "world (preparePair (sample_ctx p)) w = w" and "g_record g = []"
    and "chk_name k = ''db-keeper'' \<and> chk_task_id (chk_spec_of k) = None" and "chi_name x = ''db''"
proof -
  let ?c = "sample_ctx p"
  have pair: "succeeds (buildPair ?c k)" "keeps (buildPair ?c k)" for k
    unfolding buildPair_def using assms(1) by (intro total_rules; simp)+
  obtain st tg where plan: "result (planKeeperWiring ?c) w = Inr (st, tg)"
    using succeedsD [OF sample_builds(3)] by force
  obtain k x where kx: "result (buildPair ?c st) w = Inr (k, x)" using succeedsD [OF pair(1)] by force
  obtain k' x' where kx': "result (buildPair ?c tg) w = Inr (k', x')" using succeedsD [OF pair(1)] by force
  obtain g where g: "result (newRolloutGate ?c [RCHK k', RCHI x']) w = Inr g" "g_record g = []"
    using sample_gate [OF assms(2)] by blast
  have gw: "world (newRolloutGate ?c [RCHK k', RCHI x']) w = w"
    using assms(2) by (simp add: newRolloutGate_def world_bind get_secret_def lookup_in_def keepsD [OF sample_keeps_hash(1)]
      split: sum.splits)
  have "result (preparePair ?c) w = Inr (st, tg, k, x, g)" "world (preparePair ?c) w = w"
    by (simp_all add: preparePair_def run_simps plan kx kx' g gw keepsD [OF pair(2)] keepsD [OF sample_keeps_builds(3)])
  moreover have "chk_name k = ''db-keeper'' \<and> chk_task_id (chk_spec_of k) = None" "chi_name x = ''db''"
    using buildPair_Inr [OF kx] by (auto dest!: buildCHKWired_result buildCHIWired_result simp: keeperCRName_def)
  ultimately show ?thesis using that g(2) by blast
qed

text \<open>A reconcile of the sample cluster applies the CHK, and on the ready cluster the CHI after it.\<close>

lemma sample_applies_chk:
  assumes "par_configuration p = []" and "map_of (cl_secrets w) (rolloutStateName ''db'') = None"
  shows "\<exists>y. Applied (OCHK y) None \<in> set (events (syncReplicated (sample_ctx p)) w)"
proof -
  obtain s t k x g where prep: "result (preparePair (sample_ctx p)) w = Inr (s, t, k, x, g)"
    "world (preparePair (sample_ctx p)) w = w" "g_record g = []"
    by (rule sample_prepares [OF assms])
  then have "get0 (g_record g) (''chk'' @ specSuffix) = []" by (simp add: get0_def)
  then obtain spec live where "Applied (obj_of (stamped g ''chk'' spec live (RCHK k))) None
      \<in> set (events (gateApply (sample_ctx p) g (RCHK k) ''chk'') w)"
    by (rule first_change [where p = p and x = "RCHK k" and w = w])
  moreover obtain y where "obj_of (stamped g ''chk'' spec live (RCHK k)) = OCHK y" using stamped_kind(1) by blast
  ultimately show ?thesis by (auto simp: syncReplicated_events prep applyPair_def in_events)
qed

lemma ready_applies_chi:
  "\<exists>x. Applied (OCHI x) None \<in> set (events (syncReplicated (sample_ctx sample_parameters)) ready_cluster)"
proof -
  let ?c = "sample_ctx sample_parameters" and ?w = ready_cluster
  have fresh: "map_of (cl_secrets ?w) (rolloutStateName ''db'') = None"
    by (simp add: ready_cluster_def empty_cluster_def)
  obtain s t k x g where prep: "result (preparePair ?c) ?w = Inr (s, t, k, x, g)" "world (preparePair ?c) ?w = ?w"
    "g_record g = []" "chk_name k = ''db-keeper''" "chk_task_id (chk_spec_of k) = None"
    using sample_prepares [OF tls_on_configuration(2), of ?w] fresh by metis
  then have "get0 (g_record g) (''chk'' @ specSuffix) = []" by (simp add: get0_def)
  then obtain spec live where live: "live_read ?c (RCHK k) ?w live"
    and run: "result (gateApply ?c g (RCHK k) ''chk'') ?w = Inr (True, recorded g ''chk'' spec)"
      "world (gateApply ?c g (RCHK k) ''chk'') ?w =
        store_obj (OSecret \<lparr>secret_name = rolloutStateName ''db'', secret_data = g_record (recorded g ''chk'' spec)\<rparr>)
          (store_obj (obj_of (stamped g ''chk'' spec live (RCHK k))) ?w)"
    by (rule first_change [where p = sample_parameters and x = "RCHK k" and w = ready_cluster])
  have "\<exists>l. live = Some l \<and> taskID l = None"
    using live prep(4)
    by (auto simp: live_read_def ready_cluster_def get_chk_def run_simps lookup_in_def split: option.splits)
  then have unstamped: "stamped g ''chk'' spec live (RCHK k) = RCHK k"
    using prep(3) by (auto simp: stamped_def get0_def)
  let ?v = "world (gateApply ?c g (RCHK k) ''chk'') ?w" and ?g = "recorded g ''chk'' spec"
  let ?k = "k\<lparr>chk_status := Some completed_status\<rparr>"
  have before: "Option.bind (map_of (cl_chk ready_cluster) ''db-keeper'') chk_status = Some completed_status"
    by (simp add: ready_cluster_def)
  have stored: "map_of (cl_chk ?v) ''db-keeper'' = Some ?k"
    using prep(4) by (simp add: run(2) unstamped before)
  have waited: "waitForCHK ?k = Inr ()"
    using prep(5) by (simp add: waitForCHK_ok statusRolledOut_def rolledOut_def completed_status_def)
  have "get0 (g_record ?g) (''chi'' @ specSuffix) = []"
    using prep(3) by (simp add: recorded_def Let_def get0_def record_keys)
  then obtain spec' live' where "Applied (obj_of (stamped ?g ''chi'' spec' live' (RCHI x))) None
      \<in> set (events (gateApply ?c ?g (RCHI x) ''chi'') ?v)"
    by (rule first_change [where p = sample_parameters and x = "RCHI x" and w = ?v])
  moreover obtain z where "obj_of (stamped ?g ''chi'' spec' live' (RCHI x)) = OCHI z" using stamped_kind(2) by blast
  ultimately have "Applied (OCHI z) None \<in> set (events (applyPair ?c g k x) ?w)"
    using stored waited
    by (auto simp: applyPair_def applyAndWaitForCHI_def in_events run(1) get_chk_def keeperCRName_def lookup_in_def)
  then show ?thesis by (auto simp: syncReplicated_events prep)
qed

theorem keeper_ready_before_clickhouse_witness:
  "\<exists>us k vs. events (syncReplicated (sample_ctx sample_parameters)) ready_cluster = us @ GotCHK ''db-keeper'' (Inr k) # vs \<and>
     statusRolledOut (chk_status k) (chk_task_id (chk_spec_of k))"
proof -
  obtain x where "Applied (OCHI x) None \<in> set (events (syncReplicated (sample_ctx sample_parameters)) ready_cluster)"
    using ready_applies_chi by blast
  from keeper_ready_before_clickhouse [OF this] show ?thesis by (auto simp: keeperCRName_def)
qed

theorem reconcile_takes_model_steps_witness:
  "\<exists>y port. migrate (\<lambda>_ _ _. True) clients_awaited new_cluster
       ((apply_keeper (chkPorts y) (chk_task_id (chk_spec_of y)) new_cluster)\<lparr>planned := Some port\<rparr>) \<and>
     Applied (OCHK y) None \<in> set (events (syncReplicated (sample_ctx sample_parameters)) empty_cluster)"
proof -
  let ?c = "sample_ctx sample_parameters"
  obtain y where y: "Applied (OCHK (y :: setting table chk)) None \<in> set (events (syncReplicated ?c) empty_cluster)"
    using sample_applies_chk [of sample_parameters empty_cluster] by (auto simp: empty_cluster_def)
  have k: "result (getOptional (keeperCRName (ctx_name ?c)) (get_chk ?c (keeperCRName (ctx_name ?c)))) empty_cluster = Inr None"
    by (simp add: get_chk_def lookup_in_def empty_cluster_def)
  have i: "result (getOptional (ctx_name ?c) (get_chi ?c (ctx_name ?c))) (world (get_chk ?c (keeperCRName (ctx_name ?c))) empty_cluster) = Inr None"
    by (simp add: get_chi_def get_chk_def lookup_in_def empty_cluster_def)
  have "view new_cluster = stateOf None None"
    by (simp add: view_def new_cluster_def stateOf_def keeper_done_def clients_done_def)
  from reconcile_takes_model_steps [OF k i this y, of "\<lambda>_ _ _. True" clients_awaited] y show ?thesis by blast
qed

end
