(* ===== verification/Reconcile_Order.thy ===== *)
theory Reconcile_Order
  imports Reconcile
begin

text \<open>
  The whole reconcile of \<^verbatim>\<open>provider.go\<close> (\<open>sync\<close> and \<open>Sync\<close>): what is prepared before the operator's
  objects are touched, and what is published while it waits.
\<close>

section \<open>Which calls the preparation makes\<close>

lemma emits_generatePassword [emits_rules]: "(\<And>n r. P (Randomised n r)) \<Longrightarrow> emits P (generatePassword c n)"
  unfolding generatePassword_def by (intro emits_rules)

lemma emits_generateMissing [emits_rules]: "(\<And>n r. P (Randomised n r)) \<Longrightarrow> emits P (generateMissing c keys data b)"
  by (induction keys arbitrary: data b) (auto intro!: emits_rules)

lemma emits_completeCredentials [emits_rules]:
  "(\<And>n r. P (Randomised n r)) \<Longrightarrow> (\<And>s r. P (Applied (OSecret s) r)) \<Longrightarrow> emits P (completeCredentials c old data)"
  unfolding completeCredentials_def Let_def by (intro emits_rules)

lemma emits_ensureCredentials [emits_rules]:
  "(\<And>n r. P (GotSecret n r)) \<Longrightarrow> (\<And>n r. P (Randomised n r)) \<Longrightarrow> (\<And>s r. P (Applied (OSecret s) r)) \<Longrightarrow>
     emits P (ensureCredentials c)"
  unfolding ensureCredentials_def seedCredentials_def by (intro emits_rules)

lemma emits_ensureTLS [emits_rules]:
  "(\<And>n r. P (GotSecret n r)) \<Longrightarrow> (\<And>n r. P (GotService n r)) \<Longrightarrow> (\<And>x r. P (Applied (OIssuer x) r)) \<Longrightarrow>
     (\<And>x r. P (Applied (OCertificate x) r)) \<Longrightarrow> (\<And>k n r. k \<noteq> KPod \<Longrightarrow> P (Deleted k n r)) \<Longrightarrow> emits P (ensureTLS c)"
  unfolding ensureTLS_def ensureIssuer_def ensureServerCertificate_def externalAddresses_def serverCertificateIssued_def
    deleteCAChain_def Let_def
  by (intro emits_rules) (auto simp: caChain_def)

lemma emits_applyAndWaitForCHI [emits_rules]:
  assumes "\<And>a r. P (Requested a r)" and "\<And>s r. P (Applied (OSecret s) r)"
    and "\<And>y r. P (Applied (OCHI y) r)" and "\<And>n r. P (GotCHI n r)" and "\<And>n r. P (GotCHK n r)"
    and "\<And>n r. P (GotSecret n r)" and "\<And>n r. P (GotPolicy n r)" and "\<And>s r. P (ListedPods s r)"
    and "\<And>x r. P (Applied (OPolicy x) r)" and "\<And>k n r. k \<noteq> KPod \<Longrightarrow> P (Deleted k n r)"
  shows "emits P (applyAndWaitForCHI c g x)"
proof -
  have "P (Applied (obj_of (stamped g' key spec live (RCHI x))) r)" for g' key spec live r
    using stamped_kind(2) [of g' key spec live x] assms(3) by (elim exE) simp
  then show ?thesis
    unfolding applyAndWaitForCHI_def using assms
    by (intro emits_rules) (auto simp: tlsResources_def caChain_def)
qed

section \<open>What is prepared\<close>

abbreviation applies_cluster :: "'s event \<Rightarrow> bool" where
  "applies_cluster e \<equiv> applies_chi e \<or> applies_chk e"

definition prepared :: "('s, 'w) ctx \<Rightarrow> ('s, 'w, unit) act" where
  "prepared c =
     bind (wrap_err (\<lambda>e. Errorf ''ensure credentials: %w'' [AErr e]) (ensureCredentials c)) (\<lambda>_.
     if tlsEnabled c then ensureTLS c else ret ())"

lemma sync_prepared:
  "sync c = andthen (prepared c)
     (bind (attempt (if replicated c then syncReplicated c else syncStandalone c)) (\<lambda>syncErr.
      andthen (reconcilePodMonitor c) (lift_result syncErr)))"
  by (simp add: sync_def prepared_def andthen_def bind_assoc)

lemma prepared_quiet: "e \<in> set (events (prepared c) w) \<Longrightarrow> \<not> applies_cluster e"
proof -
  have "emits (\<lambda>e. \<not> applies_cluster e) (prepared c)"
    unfolding prepared_def by (intro emits_rules; simp)
  then show "e \<in> set (events (prepared c) w) \<Longrightarrow> \<not> applies_cluster e" by (rule emitsD)
qed

lemma completeCredentials_stored:
  "result (completeCredentials c old data) w = Inr s \<Longrightarrow>
     old = Some s \<or> Applied (OSecret s) None \<in> set (events (completeCredentials c old data) w)"
  by (auto simp: completeCredentials_def Let_def bind_Inr andthen_Inr must_Inr in_events apply_obj_def
      split: if_splits option.splits)

lemma ensureCredentials_stored:
  assumes "result (ensureCredentials c) w = Inr s"
  shows "GotSecret (credentialsSecretName (ctx_name c)) (Inr s) \<in> set (events (ensureCredentials c) w) \<or>
     Applied (OSecret s) None \<in> set (events (ensureCredentials c) w)"
  using assms
  by (auto simp: ensureCredentials_def bind_Inr in_events get_secret_def
      split: sum.splits api_error.splits dest!: completeCredentials_stored)

lemma prepared_ok:
  assumes "full_random c" and "result (prepared c) w = Inr ()"
  shows "\<exists>s. credentials_complete c (secret_data s) \<and>
     (GotSecret (credentialsSecretName (ctx_name c)) (Inr s) \<in> set (events (prepared c) w) \<or>
      Applied (OSecret s) None \<in> set (events (prepared c) w)) \<and>
     (tlsEnabled c \<longrightarrow> (\<exists>t. GotSecret (serverSecretName (ctx_name c)) (Inr t) \<in> set (events (prepared c) w) \<and>
        get0 (secret_data t) ''tls.crt'' \<noteq> []))"
proof -
  let ?m = "wrap_err (\<lambda>e. Errorf ''ensure credentials: %w'' [AErr e]) (ensureCredentials c)"
  obtain s where s: "result (ensureCredentials c) w = Inr s"
    and tls: "result (if tlsEnabled c then ensureTLS c else ret ()) (world ?m w) = Inr ()"
    using assms(2) by (auto simp: prepared_def bind_Inr wrap_err_Inr simp del: wrap_err_simps)
  have ev: "set (events (prepared c) w) = set (events (ensureCredentials c) w) \<union>
      set (events (if tlsEnabled c then ensureTLS c else ret ()) (world (ensureCredentials c) w))"
    by (simp add: prepared_def events_bind s)
  have "\<exists>t. GotSecret (serverSecretName (ctx_name c)) (Inr t) \<in> set (events (ensureTLS c) (world (ensureCredentials c) w)) \<and>
      get0 (secret_data t) ''tls.crt'' \<noteq> []" if "tlsEnabled c"
    using ensureTLS_ok [of c "world (ensureCredentials c) w"] tls that by auto
  then show ?thesis
    using ensureCredentials_ok [OF assms(1) s] ensureCredentials_stored [OF s] ev by (intro exI [of _ s]) auto
qed

text \<open>C10. Nothing of the cluster is applied before what it refers to exists: when a reconcile applies a CHI
  or a CHK, the complete credentials Secret is stored, and with TLS on the server certificate's Secret
  has been read with a certificate in it.\<close>

theorem sync_prepares_first:
  assumes "full_random c" and "e \<in> set (events (sync c) w)" and "applies_chi e \<or> applies_chk e"
  shows "\<exists>us vs s. events (sync c) w = us @ vs \<and> e \<in> set vs \<and> filter (\<lambda>e. applies_chi e \<or> applies_chk e) us = [] \<and>
     credentials_complete c (secret_data s) \<and>
     (GotSecret (credentialsSecretName (ctx_name c)) (Inr s) \<in> set us \<or> Applied (OSecret s) None \<in> set us) \<and>
     (tlsEnabled c \<longrightarrow> (\<exists>t. GotSecret (serverSecretName (ctx_name c)) (Inr t) \<in> set us \<and>
        get0 (secret_data t) ''tls.crt'' \<noteq> []))"
proof -
  let ?rest = "bind (attempt (if replicated c then syncReplicated c else syncStandalone c)) (\<lambda>syncErr.
      andthen (reconcilePodMonitor c) (lift_result syncErr))"
  have not_early: "e \<notin> set (events (prepared c) w)" using prepared_quiet [of e c w] assms(3) by blast
  have "result (prepared c) w = Inr ()"
    using assms(2) not_early by (simp add: sync_prepared in_events_andthen)
  moreover from this have ev: "events (sync c) w = events (prepared c) w @ events ?rest (world (prepared c) w)"
    by (simp add: sync_prepared andthen_run)
  moreover have "e \<in> set (events ?rest (world (prepared c) w))" using assms(2) not_early ev by auto
  moreover have "filter (\<lambda>e. applies_chi e \<or> applies_chk e) (events (prepared c) w) = []"
    using prepared_quiet [of _ c w] by (auto simp: filter_empty_conv)
  ultimately show ?thesis
    using prepared_ok [OF assms(1)]
    by (intro exI [of _ "events (prepared c) w"] exI [of _ "events ?rest (world (prepared c) w)"]) auto
qed

section \<open>What is published\<close>

fun publishes :: "'s event \<Rightarrow> bool" where
  "publishes (StatusUpdated i r) = True"
| "publishes _ = False"

lemma emits_applyPair [emits_rules]:
  assumes "\<And>a r. P (Requested a r)" and "\<And>n r. P (GotCHI n r)" and "\<And>n r. P (GotCHK n r)"
    and "\<And>n r. P (GotSecret n r)" and "\<And>n r. P (GotPolicy n r)" and "\<And>s r. P (ListedPods s r)"
    and "\<And>y r. P (Applied y r)" and "\<And>k n r. k \<noteq> KPod \<Longrightarrow> P (Deleted k n r)"
  shows "emits P (applyPair c g k x)"
  unfolding applyPair_def using assms by (intro emits_rules)

lemma sync_publishes_nothing: "emits (\<lambda>e. \<not> publishes e) (sync c)"
  unfolding sync_def syncReplicated_def syncStandalone_def preparePair_def buildCHI_def
  by (intro emits_rules; simp)

lemma emits_Status_reads: "emits (\<lambda>e. \<not> publishes e) (Status c)"
  unfolding Status_def servingDetails_def statusFrom_def keeperStatus_def readyStatus_def buildConnectionDetails_def
    readCredentials_def serverCertificateIssued_def readCACert_def Let_def
  by (intro emits_rules; simp)

text \<open>\<open>reportStatus\<close> updates the stored Instance only with the phase and message it was given.\<close>

lemma setPendingMaintenance_runs:
  "\<exists>changed i'. result (setPendingMaintenance c i) w = Inr (changed, i') \<and> inst_phase i' = inst_phase i \<and>
     inst_message i' = inst_message i"
  "emits (\<lambda>e. \<not> publishes e) (setPendingMaintenance c i)"
  subgoal by (auto simp: setPendingMaintenance_def pending_maintenance_def run_simps Let_def split: prod.splits)
  subgoal unfolding setPendingMaintenance_def Let_def by (intro emits_rules; simp)
  done

lemma reportStatus_runs:
  assumes "to_instance_status c (st_phase st, st_message st) = (phase, message)"
  shows "result (reportStatus c st) w = Inr ()"
    and "StatusUpdated i r \<in> set (events (reportStatus c st) w) \<Longrightarrow> inst_phase i = phase \<and> inst_message i = message"
    and "(inst_phase (ctx_instance c), inst_message (ctx_instance c)) \<noteq> (phase, message) \<Longrightarrow>
      \<exists>i r. StatusUpdated i r \<in> set (events (reportStatus c st) w)"
proof -
  let ?i = "(ctx_instance c)\<lparr>inst_phase := phase, inst_message := message\<rparr>"
  let ?changed = "inst_phase (ctx_instance c) \<noteq> phase \<or> inst_message (ctx_instance c) \<noteq> message"
  define pending where "pending = (\<lambda>requested. if requested then setPendingMaintenance c ?i else ret (False, ?i))"
  define rest where "rest = (\<lambda>(pendingChanged, i2).
      if ?changed \<or> pendingChanged then bind (update_status c i2) (\<lambda>_. ret ()) else ret ())"
  have report: "reportStatus c st = bind (maintenance_requested c) (\<lambda>requested. bind (pending requested) rest)"
    using assms by (simp add: reportStatus_def pending_def rest_def Let_def)
  let ?q = "fst (api_maintenance_requested c w)" and ?v = "snd (api_maintenance_requested c w)"
  obtain b i2 where p: "result (pending ?q) ?v = Inr (b, i2)" "inst_phase i2 = phase" "inst_message i2 = message"
    using setPendingMaintenance_runs(1) [of c ?i ?v] by (cases ?q) (auto simp: pending_def)
  have quiet: "\<not> publishes e" if "e \<in> set (events (pending ?q) ?v)" for e
    using that emitsD [OF setPendingMaintenance_runs(2), of e c ?i ?v] by (auto simp: pending_def split: if_splits)
  have ev: "events (reportStatus c st) w = AskedRequested ?q # events (pending ?q) ?v @ events (rest (b, i2)) (world (pending ?q) ?v)"
    by (simp add: report maintenance_requested_def run_simps p)
  have rest_ev: "events (rest (b, i2)) u = (if ?changed \<or> b then [StatusUpdated i2 (fst (api_update_status c i2 u))] else [])"
    for u
    by (simp add: rest_def update_status_def run_simps)
  show "result (reportStatus c st) w = Inr ()"
    by (simp add: report maintenance_requested_def run_simps p) (simp add: rest_def update_status_def run_simps)
  show "inst_phase i = phase \<and> inst_message i = message" if "StatusUpdated i r \<in> set (events (reportStatus c st) w)"
    using that p(2,3) quiet [of "StatusUpdated i r"] by (auto simp: ev rest_ev split: if_splits)
  show "\<exists>i r. StatusUpdated i r \<in> set (events (reportStatus c st) w)"
    if "(inst_phase (ctx_instance c), inst_message (ctx_instance c)) \<noteq> (phase, message)"
    using that by (auto simp: ev rest_ev)
qed

text \<open>What \<open>Sync\<close> does after \<open>sync\<close>.\<close>

definition reporting :: "('s, 'w) ctx \<Rightarrow> err \<Rightarrow> ('s, 'w, unit) act" where
  "reporting c e =
     (if is_wait e
      then bind (attempt (Status c)) (\<lambda>st. case st of Inl _ \<Rightarrow> ret () | Inr s \<Rightarrow> reportStatus c s)
      else ret ())"

lemma reporting_result: "result (reporting c e) w = Inr ()"
proof -
  have "result (reportStatus c st) v = Inr ()" for st v
    by (rule reportStatus_runs(1) [OF surjective_pairing])
  then show ?thesis by (simp add: reporting_def run_simps split: sum.splits)
qed

lemma Sync_runs:
  "result (Sync c) w = result (sync c) w"
  "events (Sync c) w = (case result (sync c) w of
     Inr _ \<Rightarrow> events (sync c) w
   | Inl e \<Rightarrow> events (sync c) w @ events (reporting c e) (world (sync c) w))"
  using reporting_result [of c]
  by (auto simp: Sync_def run_simps reporting_def [symmetric] split: sum.splits)

text \<open>C25. While the operator works the Instance says so: \<open>Sync\<close> returns what \<open>sync\<close> returns; when that is
  a wait, everything it publishes is the phase and message \<open>Status\<close> reports in the state \<open>sync\<close> left, and it
  does publish them if the Instance does not have them yet; on any other outcome it publishes nothing.\<close>

theorem waiting_publishes_status:
  shows "result (Sync c) w = result (sync c) w \<and>
     (case result (sync c) w of
        Inl e \<Rightarrow>
          if is_wait e then
            (case result (Status c) (world (sync c) w) of
               Inl _ \<Rightarrow> filter publishes (events (Sync c) w) = []
             | Inr st \<Rightarrow> (let (phase, message) = to_instance_status c (st_phase st, st_message st) in
                 (\<forall>i r. StatusUpdated i r \<in> set (events (Sync c) w) \<longrightarrow> inst_phase i = phase \<and> inst_message i = message) \<and>
                 ((inst_phase (ctx_instance c), inst_message (ctx_instance c)) \<noteq> (phase, message) \<longrightarrow>
                    (\<exists>i r. StatusUpdated i r \<in> set (events (Sync c) w)))))
          else filter publishes (events (Sync c) w) = []
      | Inr _ \<Rightarrow> filter publishes (events (Sync c) w) = [])"
proof -
  have quiet: "\<not> publishes e" if "e \<in> set (events (sync c) v)" for e v
    using emitsD [OF sync_publishes_nothing that] .
  have none: "filter publishes (events (sync c) w) = []" using quiet by (auto simp: filter_empty_conv)
  show ?thesis
  proof (cases "result (sync c) w")
    case (Inr u)
    then show ?thesis using none by (simp add: Sync_runs)
  next
    case (Inl e)
    let ?v = "world (sync c) w"
    show ?thesis
    proof (cases "is_wait e")
      case False
      with Inl none show ?thesis by (simp add: Sync_runs reporting_def)
    next
      case True
      have reads: "filter publishes (events (Status c) ?v) = []"
        using emitsD [OF emits_Status_reads, of _ c ?v] by (auto simp: filter_empty_conv)
      show ?thesis
      proof (cases "result (Status c) ?v")
        case st: (Inl x)
        with Inl True none reads show ?thesis by (simp add: Sync_runs reporting_def run_simps)
      next
        case st: (Inr st)
        obtain phase message where to: "to_instance_status c (st_phase st, st_message st) = (phase, message)"
          by (cases "to_instance_status c (st_phase st, st_message st)")
        have ev: "events (Sync c) w = events (sync c) w @ events (Status c) ?v @ events (reportStatus c st) (world (Status c) ?v)"
          using Inl True st by (simp add: Sync_runs reporting_def run_simps)
        have only: "StatusUpdated i r \<in> set (events (Sync c) w) \<longleftrightarrow>
            StatusUpdated i r \<in> set (events (reportStatus c st) (world (Status c) ?v))" for i r
          using quiet [of "StatusUpdated i r" w] emitsD [OF emits_Status_reads, of "StatusUpdated i r" c ?v] by (auto simp: ev)
        show ?thesis
          using Inl True st reportStatus_runs(2) [OF to, of _ _ "world (Status c) ?v"]
            reportStatus_runs(3) [OF to, of "world (Status c) ?v"]
          by (simp add: Sync_runs(1) to only)
      qed
    qed
  qed
qed

section \<open>Instances\<close>

text \<open>The first reconcile of the sample Instance whose credentials exist: the CHK is applied, and waited for.\<close>

lemma holding_prepared:
  "result (prepared (sample_ctx sample_parameters)) (holding sample_secret) = Inr ()"
  "world (prepared (sample_ctx sample_parameters)) (holding sample_secret) = holding sample_secret"
proof -
  have run: "result (ensureCredentials (sample_ctx sample_parameters)) (holding sample_secret) = Inr sample_secret"
    "world (ensureCredentials (sample_ctx sample_parameters)) (holding sample_secret) = holding sample_secret"
    by (simp_all add: ensureCredentials_def run_simps get_secret_def completeCredentials_noop [OF sample_secret_complete])
  have "\<not> tlsEnabled (sample_ctx sample_parameters)"
    by (simp add: tlsEnabled_def tlsParameters_def sample_parameters_def)
  with run show "result (prepared (sample_ctx sample_parameters)) (holding sample_secret) = Inr ()"
    "world (prepared (sample_ctx sample_parameters)) (holding sample_secret) = holding sample_secret"
    by (simp_all add: prepared_def run_simps)
qed

lemma holding_fresh: "map_of (cl_secrets (holding sample_secret)) (rolloutStateName ''db'') = None"
  by (simp add: holding_def rolloutStateName_def constants)

lemma sample_replicated: "replicated (sample_ctx p)"
  by (simp add: replicated_def sample_instance_def constants)

lemma first_reconcile_applies_chk:
  "\<exists>y. Applied (OCHK y) None \<in> set (events (sync (sample_ctx sample_parameters)) (holding sample_secret))"
  using sample_applies_chk [OF tls_on_configuration(2) holding_fresh]
  by (auto simp: sync_prepared in_events holding_prepared sample_replicated)

theorem sync_prepares_first_witness:
  "\<exists>y us vs (s :: secret). events (sync (sample_ctx sample_parameters)) (holding sample_secret) = us @ vs \<and>
     Applied (OCHK y) None \<in> set vs \<and> credentials_complete (sample_ctx sample_parameters) (secret_data s)"
proof -
  let ?c = "sample_ctx sample_parameters"
  obtain y where y: "Applied (OCHK y) None \<in> set (events (sync ?c) (holding sample_secret))"
    using first_reconcile_applies_chk by (elim exE)
  show ?thesis
    using sync_prepares_first [OF sample_full_random y, simplified] by blast
qed

lemma first_reconcile_waits:
  obtains k v where "result (syncReplicated (sample_ctx sample_parameters)) (holding sample_secret) =
      Inl (Wait ''waiting for Keeper to initialize'' [] 15)"
    and "world (syncReplicated (sample_ctx sample_parameters)) (holding sample_secret) = v"
    and "cl_chi v = []" and "cl_chk v = [(''db-keeper'', k)]" and "chk_status k = None"
proof -
  let ?c = "sample_ctx sample_parameters" and ?w = "holding sample_secret"
  have empty: "cl_chi ?w = []" "cl_chk ?w = []" by (simp_all add: holding_def empty_cluster_def)
  obtain s t k x g where prep: "result (preparePair ?c) ?w = Inr (s, t, k, x, g)" "world (preparePair ?c) ?w = ?w"
    "g_record g = []" "chk_name k = ''db-keeper''"
    using sample_prepares [OF tls_on_configuration(2) holding_fresh] by metis
  then have "get0 (g_record g) (''chk'' @ specSuffix) = []" by (simp add: get0_def)
  then obtain spec live where run: "result (gateApply ?c g (RCHK k) ''chk'') ?w = Inr (True, recorded g ''chk'' spec)"
    "world (gateApply ?c g (RCHK k) ''chk'') ?w =
      store_obj (OSecret \<lparr>secret_name = rolloutStateName ''db'', secret_data = g_record (recorded g ''chk'' spec)\<rparr>)
        (store_obj (obj_of (stamped g ''chk'' spec live (RCHK k))) ?w)"
    by (rule first_change [where p = sample_parameters and x = "RCHK k" and w = ?w])
  have "\<exists>z. obj_of (stamped g ''chk'' spec live (RCHK k)) = OCHK z \<and> chk_name z = ''db-keeper''"
    using prep(4) by (simp add: stamped_def stampTaskID_def Let_def)
  then obtain z where z: "obj_of (stamped g ''chk'' spec live (RCHK k)) = OCHK z" "chk_name z = ''db-keeper''" by blast
  let ?v = "world (gateApply ?c g (RCHK k) ''chk'') ?w" and ?z = "z\<lparr>chk_status := None\<rparr>"
  have v: "cl_chi ?v = []" "cl_chk ?v = [(''db-keeper'', ?z)]"
    using empty by (simp_all add: run(2) z)
  have "result (applyPair ?c g k x) ?w = Inl (Wait ''waiting for Keeper to initialize'' [] 15)"
    "world (applyPair ?c g k x) ?w = ?v"
    by (simp_all add: applyPair_def run_simps run(1) get_chk_def keeperCRName_def lookup_in_def v(2) waitForCHK_def)
  then have "result (syncReplicated ?c) ?w = Inl (Wait ''waiting for Keeper to initialize'' [] 15)"
    "world (syncReplicated ?c) ?w = ?v"
    by (simp_all add: syncReplicated_def run_simps prep(1,2))
  with v show ?thesis by (intro that) auto
qed

lemma first_status:
  assumes "cl_chi v = []" and "cl_chk v = [(''db-keeper'', k)]" and "chk_status k = None"
  shows "result (Status (sample_ctx p)) v = Inr (provisioning ''Creating ClickHouse Keeper'')"
  using assms
  by (simp add: Status_def run_simps get_chi_def get_chk_def lookup_in_def servingDetails_def statusFrom_def
      keeperStatus_def sample_replicated keeperCRName_def chkInstallation_def observed_def missing_def
      installationStatus_def inProgressStatus_def clickhouseView_def Let_def)

theorem waiting_publishes_status_witness:
  "\<exists>i r. StatusUpdated i r \<in> set (events (Sync (sample_ctx sample_parameters)) (holding sample_secret)) \<and>
     inst_phase i = Provisioning \<and> inst_message i = ''Creating ClickHouse Keeper''"
proof -
  let ?c = "sample_ctx sample_parameters" and ?w = "holding sample_secret"
  obtain k v where rep: "result (syncReplicated ?c) ?w = Inl (Wait ''waiting for Keeper to initialize'' [] 15)"
    "world (syncReplicated ?c) ?w = v" and v: "cl_chi v = []" "cl_chk v = [(''db-keeper'', k)]" "chk_status k = None"
    by (rule first_reconcile_waits)
  have monitor: "result (reconcilePodMonitor ?c) v = Inr ()"
    "cl_chi (world (reconcilePodMonitor ?c) v) = cl_chi v" "cl_chk (world (reconcilePodMonitor ?c) v) = cl_chk v"
    by (simp_all add: reconcilePodMonitor_def deletePodMonitor_def run_simps apply_obj_def delete_obj_def)
  have sync: "result (sync ?c) ?w = Inl (Wait ''waiting for Keeper to initialize'' [] 15)"
    "world (sync ?c) ?w = world (reconcilePodMonitor ?c) v"
    by (simp_all add: sync_prepared run_simps holding_prepared sample_replicated rep monitor)
  have "result (Status ?c) (world (sync ?c) ?w) = Inr (provisioning ''Creating ClickHouse Keeper'')"
    using v by (simp add: sync first_status monitor)
  with waiting_publishes_status [of ?c ?w] sync show ?thesis
    by (auto simp: provisioning_def sample_instance_def)
qed

end
