(* ===== verification/Teardown.thy ===== *)
theory Teardown
  imports Reconcile_Order
begin

text \<open>
  \<^verbatim>\<open>provider.go\<close>, \<^verbatim>\<open>Cleanup\<close>: the deletion of an Instance. The reclaim policy is brought to
  where the operator reads it, ClickHouse goes before Keeper, and the volumes go last, if the
  policy says so.
\<close>

section \<open>The reclaim policy\<close>

text \<open>The JSON patch: a test of the template's name, then its reclaim policy; \<open>i\<close> is the first index.\<close>

definition templatePath :: "nat \<Rightarrow> string" where
  "templatePath i = ''/spec/templates/volumeClaimTemplates/'' @ itoa (int i)"

fun reclaimOps :: "string \<Rightarrow> nat \<Rightarrow> volume_claim_template list \<Rightarrow> patch_op list" where
  "reclaimOps policy i [] = []"
| "reclaimOps policy i (v # vs) =
     (if vct_reclaim_policy v = policy then reclaimOps policy (Suc i) vs
      else PatchTest (templatePath i @ ''/name'') (vct_name v) #
           PatchAdd (templatePath i @ ''/reclaimPolicy'') policy # reclaimOps policy (Suc i) vs)"

text \<open>\<open>read\<close> is the \<^verbatim>\<open>Get\<close> of the object with \<^verbatim>\<open>templates()\<close>, the templates of what it read.\<close>

definition patchVolumeClaimTemplates ::
    "('s, 'w) ctx \<Rightarrow> kind \<Rightarrow> string \<Rightarrow> string \<Rightarrow> ('s, 'w, api_error + templates option) act \<Rightarrow> ('s, 'w, unit) act" where
  "patchVolumeClaimTemplates c k name policy read =
     bind read (\<lambda>r. case r of
       Inl e \<Rightarrow> (case e of
           NotFound \<Rightarrow> ret ()
         | _ \<Rightarrow> throw (Errorf ''get %T %s: %w'' [AStr (kind_type k), AStr name, AErr (ApiErr e)]))
     | Inr ts \<Rightarrow>
         (case ts of
            None \<Rightarrow> ret ()
          | Some t \<Rightarrow>
              (let ops = reclaimOps policy 0 (volume_claim_templates t)
               in if ops = [] then ret ()
                  else must (\<lambda>e. Errorf ''set reclaim policy on %T %s: %w'' [AStr (kind_type k), AStr name, AErr (ApiErr e)])
                    (json_patch c k name ops))))"

definition labelPVCs :: "('s, 'w) ctx \<Rightarrow> string \<times> string \<Rightarrow> string \<Rightarrow> string \<Rightarrow> ('s, 'w, unit) act" where
  "labelPVCs c selector key policy =
     bind (list_pvcs c selector) (\<lambda>r. case r of
       Inl e \<Rightarrow> throw (Errorf ''list PVCs: %w'' [AErr (ApiErr e)])
     | Inr pvcs \<Rightarrow> for_each pvcs (\<lambda>p.
         if get0 (pvc_labels p) key = policy then ret ()
         else must (\<lambda>e. Errorf ''label PVC %s: %w'' [AStr (pvc_name p), AErr (ApiErr e)])
           (label_pvc c (pvc_name p) key policy)))"

definition syncReclaimPolicy :: "('s, 'w) ctx \<Rightarrow> ('s, 'w, unit) act" where
  "syncReclaimPolicy c =
     (let policy = storageReclaimPolicy c; n = ctx_name c; k = keeperCRName n in
      andthen (patchVolumeClaimTemplates c KCHI n policy
        (bind (get_chi c n) (\<lambda>r. ret (map_sum id (\<lambda>x. chi_templates (chi_spec_of x)) r))))
     (andthen (patchVolumeClaimTemplates c KCHK k policy
        (bind (get_chk c k) (\<lambda>r. ret (map_sum id (\<lambda>x. chk_templates (chk_spec_of x)) r))))
     (andthen (labelPVCs c (LabelCHIName, n) LabelCHIReclaimPolicy policy)
       (labelPVCs c (LabelCHKName, k) LabelCHKReclaimPolicy policy))))"

section \<open>Deletion\<close>

definition waitForDeletion :: "('s, 'w) ctx \<Rightarrow> kind \<Rightarrow> string \<Rightarrow> ('s, 'w, unit) act" where
  "waitForDeletion c k name =
     bind (check_exists c k name) (\<lambda>r. case r of
       Inl e \<Rightarrow> throw (Errorf ''check %T %s: %w'' [AStr (kind_type k), AStr name, AErr (ApiErr e)])
     | Inr ex \<Rightarrow>
         if ex then throw (Wait ''waiting for %T %s to be deleted'' [AStr (kind_type k), AStr name] 10) else ret ())"

definition deletePVCs :: "('s, 'w) ctx \<Rightarrow> ('s, 'w, unit) act" where
  "deletePVCs c =
     for_each [(LabelCHIName, ctx_name c), (LabelCHKName, keeperCRName (ctx_name c))] (\<lambda>selector.
       bind (list_pvcs c selector) (\<lambda>r. case r of
         Inl e \<Rightarrow> throw (Errorf ''list PVCs: %w'' [AErr (ApiErr e)])
       | Inr pvcs \<Rightarrow> for_each pvcs (\<lambda>p.
           must (\<lambda>e. Errorf ''delete PVC %s: %w'' [AStr (pvc_name p), AErr (ApiErr e)])
             (delete_obj c KPVC (pvc_name p)))))"

definition deleteKeeper :: "('s, 'w) ctx \<Rightarrow> ('s, 'w, unit) act" where
  "deleteKeeper c =
     (if replicated c then
        andthen (must (\<lambda>e. Errorf ''delete ClickHouseKeeperInstallation: %w'' [AErr (ApiErr e)])
          (delete_obj c KCHK (keeperCRName (ctx_name c))))
        (waitForDeletion c KCHK (keeperCRName (ctx_name c)))
      else ret ())"

definition Cleanup :: "('s, 'w) ctx \<Rightarrow> ('s, 'w, unit) act" where
  "Cleanup c =
     andthen (syncReclaimPolicy c)
    (andthen (must (\<lambda>e. Errorf ''delete ClickHouseInstallation: %w'' [AErr (ApiErr e)]) (delete_obj c KCHI (ctx_name c)))
    (andthen (deletePodMonitor c)
    (andthen (must (\<lambda>e. Errorf ''delete credentials secret: %w'' [AErr (ApiErr e)])
       (delete_obj c KSecret (credentialsSecretName (ctx_name c))))
    (andthen (must (\<lambda>e. Errorf ''delete rollout state secret: %w'' [AErr (ApiErr e)])
       (delete_obj c KSecret (rolloutStateName (ctx_name c))))
    (andthen (deleteTLSResources c)
    (andthen (waitForDeletion c KCHI (ctx_name c))
    (andthen (deleteKeeper c)
       (if storageReclaimPolicy c = StorageReclaimPolicyDelete then deletePVCs c else ret ()))))))))"

section \<open>The patch\<close>

text \<open>
  What a JSON patch of \<open>reclaimOps\<close> does to a list of templates: a failed test, or a path that names no
  template, fails the patch as a whole.
\<close>

fun patchTemplate :: "patch_op \<Rightarrow> volume_claim_template list \<Rightarrow> volume_claim_template list option" where
  "patchTemplate (PatchTest path v) ts =
     (case find (\<lambda>i. path = templatePath i @ ''/name'') [0..<length ts] of
        None \<Rightarrow> None
      | Some i \<Rightarrow> if vct_name (ts ! i) = v then Some ts else None)"
| "patchTemplate (PatchAdd path v) ts =
     (case find (\<lambda>i. path = templatePath i @ ''/reclaimPolicy'') [0..<length ts] of
        None \<Rightarrow> None
      | Some i \<Rightarrow> Some (ts[i := (ts ! i)\<lparr>vct_reclaim_policy := v\<rparr>]))"

fun applyPatch :: "patch_op list \<Rightarrow> volume_claim_template list \<Rightarrow> volume_claim_template list option" where
  "applyPatch [] ts = Some ts"
| "applyPatch (op # ops) ts = (case patchTemplate op ts of None \<Rightarrow> None | Some ts' \<Rightarrow> applyPatch ops ts')"

lemma templatePath_inj [simp]: "templatePath i = templatePath j \<longleftrightarrow> i = j"
  by (simp add: templatePath_def itoa_inj_nonneg)

lemma find_index: "find (\<lambda>i. k = i) [0..<n] = (if k < n then Some k else None)"
proof (cases "k < n")
  case True
  then have "find (\<lambda>i. k = i) [0..<n] = Some k"
    unfolding find_Some_iff by (intro exI [of _ k]) simp
  with True show ?thesis by simp
next
  case False
  then show ?thesis by (simp add: find_None_iff)
qed

lemma patchTemplate_simps [simp]:
  "patchTemplate (PatchTest (templatePath k @ ''/name'') v) ts =
     (if k < length ts \<and> vct_name (ts ! k) = v then Some ts else None)"
  "patchTemplate (PatchAdd (templatePath k @ ''/reclaimPolicy'') v) ts =
     (if k < length ts then Some (ts[k := (ts ! k)\<lparr>vct_reclaim_policy := v\<rparr>]) else None)"
  by (simp_all add: find_index)

declare patchTemplate.simps [simp del]

lemma applyPatch_same:
  "length us = k \<Longrightarrow>
     applyPatch (reclaimOps policy k vs) (us @ vs) = Some (us @ map (\<lambda>v. v\<lparr>vct_reclaim_policy := policy\<rparr>) vs)"
proof (induction vs arbitrary: us k)
  case (Cons v vs)
  from Cons.prems Cons.IH [of "us @ [v\<lparr>vct_reclaim_policy := policy\<rparr>]" "Suc k"] show ?case
    by (cases "vct_reclaim_policy v = policy") (auto simp: nth_append list_update_append)
qed simp

text \<open>Applied to templates that changed since, the patch still touches only templates of the name read.\<close>

lemma applyPatch_other:
  "applyPatch (reclaimOps policy k vs) ws = Some ws' \<Longrightarrow>
     length ws' = length ws \<and>
     (\<forall>j < length vs. vct_reclaim_policy (vs ! j) \<noteq> policy \<longrightarrow>
        k + j < length ws \<and> vct_name (ws ! (k + j)) = vct_name (vs ! j) \<and>
        ws' ! (k + j) = (ws ! (k + j))\<lparr>vct_reclaim_policy := policy\<rparr>) \<and>
     (\<forall>i < length ws. (\<forall>j < length vs. i = k + j \<longrightarrow> vct_reclaim_policy (vs ! j) = policy) \<longrightarrow> ws' ! i = ws ! i)"
proof (induction vs arbitrary: k ws)
  case (Cons v vs)
  define ws1 where "ws1 = (if vct_reclaim_policy v = policy then ws else ws[k := (ws ! k)\<lparr>vct_reclaim_policy := policy\<rparr>])"
  have guard: "vct_reclaim_policy v \<noteq> policy \<Longrightarrow> k < length ws \<and> vct_name (ws ! k) = vct_name v"
    and rest: "applyPatch (reclaimOps policy (Suc k) vs) ws1 = Some ws'"
    using Cons.prems by (auto simp: ws1_def split: if_splits)
  have old: "i \<noteq> k \<Longrightarrow> ws1 ! i = ws ! i" "length ws1 = length ws" for i by (simp_all add: ws1_def)
  note IH = Cons.IH [OF rest]
  have at_k: "k < length ws \<Longrightarrow> ws' ! k = ws1 ! k" using IH old by auto
  show ?case
  proof (rule conjI [OF _ conjI]; (intro allI impI)?)
    show "length ws' = length ws" using IH old by simp
  next
    fix j assume j: "j < length (v # vs)" "vct_reclaim_policy ((v # vs) ! j) \<noteq> policy"
    show "k + j < length ws \<and> vct_name (ws ! (k + j)) = vct_name ((v # vs) ! j) \<and>
      ws' ! (k + j) = (ws ! (k + j))\<lparr>vct_reclaim_policy := policy\<rparr>"
    proof (cases j)
      case 0
      with j guard at_k show ?thesis by (simp add: ws1_def)
    next
      case (Suc j')
      with j IH have "Suc k + j' < length ws1 \<and> vct_name (ws1 ! (Suc k + j')) = vct_name (vs ! j') \<and>
          ws' ! (Suc k + j') = (ws1 ! (Suc k + j'))\<lparr>vct_reclaim_policy := policy\<rparr>"
        by simp
      with Suc old show ?thesis by simp
    qed
  next
    fix i assume i: "i < length ws" "\<forall>j < length (v # vs). i = k + j \<longrightarrow> vct_reclaim_policy ((v # vs) ! j) = policy"
    show "ws' ! i = ws ! i"
    proof (cases "i = k")
      case True
      then have "vct_reclaim_policy v = policy" using i(2) by fastforce
      with True at_k i show ?thesis by (simp add: ws1_def)
    next
      case False
      have "\<forall>j < length vs. i = Suc k + j \<longrightarrow> vct_reclaim_policy (vs ! j) = policy"
        using i(2) by (metis Suc_less_eq add_Suc_shift length_Cons nth_Cons_Suc)
      with IH i(1) old False show ?thesis by auto
    qed
  qed
qed simp

section \<open>Order\<close>

fun removes :: "kind \<Rightarrow> 's event \<Rightarrow> bool" where
  "removes k (Deleted k' n r) = (k' = k)"
| "removes k _ = False"

fun gone :: "kind \<Rightarrow> string \<Rightarrow> 's event \<Rightarrow> bool" where
  "gone k n (Checked k' n' (Inr ex)) = (k' = k \<and> n' = n \<and> \<not> ex)"
| "gone k n _ = False"

lemma gone_iff: "gone k n e \<longleftrightarrow> e = Checked k n (Inr False)"
  by (cases "(k, n, e)" rule: gone.cases) auto

lemma emits_patchVolumeClaimTemplates [emits_rules]:
  "emits P read \<Longrightarrow> (\<And>ops r. P (Patched k n ops r)) \<Longrightarrow> emits P (patchVolumeClaimTemplates c k n policy read)"
  unfolding patchVolumeClaimTemplates_def Let_def by (intro emits_rules)

lemma emits_labelPVCs [emits_rules]:
  "(\<And>s r. P (ListedPVCs s r)) \<Longrightarrow> (\<And>n k v r. P (Labelled n k v r)) \<Longrightarrow> emits P (labelPVCs c sel key policy)"
  unfolding labelPVCs_def by (intro emits_rules)

lemma emits_syncReclaimPolicy [emits_rules]:
  "(\<And>n r. P (GotCHI n r)) \<Longrightarrow> (\<And>n r. P (GotCHK n r)) \<Longrightarrow> (\<And>k n ops r. k \<noteq> KPod \<Longrightarrow> P (Patched k n ops r)) \<Longrightarrow>
     (\<And>s r. P (ListedPVCs s r)) \<Longrightarrow> (\<And>n k v r. P (Labelled n k v r)) \<Longrightarrow> emits P (syncReclaimPolicy c)"
  unfolding syncReclaimPolicy_def Let_def by (intro emits_rules) simp_all

lemma emits_waitForDeletion [emits_rules]: "(\<And>r. P (Checked k n r)) \<Longrightarrow> emits P (waitForDeletion c k n)"
  unfolding waitForDeletion_def by (intro emits_rules)

lemma emits_deleteTLSResources [emits_rules]:
  "(\<And>k n r. (k, n) \<in> set (tlsResources (ctx_name c)) \<Longrightarrow> P (Deleted k n r)) \<Longrightarrow> emits P (deleteTLSResources c)"
  unfolding deleteTLSResources_def by (intro emits_rules)

lemma emits_deleteKeeper [emits_rules]:
  "(\<And>n r. P (Deleted KCHK n r)) \<Longrightarrow> (\<And>n r. P (Checked KCHK n r)) \<Longrightarrow> emits P (deleteKeeper c)"
  unfolding deleteKeeper_def by (intro emits_rules)

lemma emits_deletePVCs [emits_rules]:
  "(\<And>s r. P (ListedPVCs s r)) \<Longrightarrow> (\<And>n r. P (Deleted KPVC n r)) \<Longrightarrow> emits P (deletePVCs c)"
  unfolding deletePVCs_def by (intro emits_rules)

lemma tlsResources_kinds: "(k, n) \<in> set (tlsResources m) \<Longrightarrow> k \<in> {KCertificate, KSecret, KIssuer}"
  by (auto simp: tlsResources_def caChain_def)

text \<open>A wait that ends has seen the object gone.\<close>

lemma waitForDeletion_ok:
  "result (waitForDeletion c k n) w = Inr () \<Longrightarrow> \<exists>e \<in> set (events (waitForDeletion c k n) w). gone k n e"
  by (auto simp: waitForDeletion_def check_exists_def run_simps split: sum.splits if_splits)

lemma ensures_waitForDeletion: "ensures (gone k n) (waitForDeletion c k n)"
  by (auto simp: ensures_def dest: waitForDeletion_ok)

text \<open>The part of \<open>Cleanup\<close> before the first wait, and the rest.\<close>

definition cleanupStart :: "('s, 'w) ctx \<Rightarrow> ('s, 'w, unit) act" where
  "cleanupStart c =
     andthen (must (\<lambda>e. Errorf ''delete ClickHouseInstallation: %w'' [AErr (ApiErr e)]) (delete_obj c KCHI (ctx_name c)))
    (andthen (deletePodMonitor c)
    (andthen (must (\<lambda>e. Errorf ''delete credentials secret: %w'' [AErr (ApiErr e)])
       (delete_obj c KSecret (credentialsSecretName (ctx_name c))))
    (andthen (must (\<lambda>e. Errorf ''delete rollout state secret: %w'' [AErr (ApiErr e)])
       (delete_obj c KSecret (rolloutStateName (ctx_name c))))
       (deleteTLSResources c))))"

definition cleanupEnd :: "('s, 'w) ctx \<Rightarrow> ('s, 'w, unit) act" where
  "cleanupEnd c =
     andthen (deleteKeeper c)
       (if storageReclaimPolicy c = StorageReclaimPolicyDelete then deletePVCs c else ret ())"

lemma Cleanup_parts:
  "Cleanup c = andthen (syncReclaimPolicy c) (andthen (cleanupStart c)
     (andthen (waitForDeletion c KCHI (ctx_name c)) (cleanupEnd c)))"
  by (simp add: Cleanup_def cleanupStart_def cleanupEnd_def andthen_def bind_assoc)

lemma start_quiet: "emits (\<lambda>e. \<not> removes KPVC e \<and> \<not> removes KCHK e) (cleanupStart c)"
  unfolding cleanupStart_def by (intro emits_rules; use tlsResources_kinds in fastforce)

text \<open>Keeper and the volumes are removed after ClickHouse is gone, the volumes after Keeper is.\<close>

lemma cleanup_guards_chi: "guards (\<lambda>e. removes KPVC e \<or> removes KCHK e) (gone KCHI (ctx_name c)) (Cleanup c)"
  unfolding Cleanup_parts
proof (rule guards_andthen [OF guards_emits guards_andthen [OF guards_emits guards_andthen_ensured [OF guards_emits]]])
  show "emits (\<lambda>e. \<not> (removes KPVC e \<or> removes KCHK e)) (syncReclaimPolicy c)"
    "emits (\<lambda>e. \<not> (removes KPVC e \<or> removes KCHK e)) (waitForDeletion c KCHI (ctx_name c))"
    by (intro emits_rules; simp)+
  show "emits (\<lambda>e. \<not> (removes KPVC e \<or> removes KCHK e)) (cleanupStart c)"
    by (rule emits_mono [OF start_quiet]) auto
qed (rule ensures_waitForDeletion)

lemma cleanup_guards_chk:
  assumes "replicated c"
  shows "guards (removes KPVC) (gone KCHK (keeperCRName (ctx_name c))) (Cleanup c)"
proof -
  have start: "guards (removes KPVC) (gone KCHK (keeperCRName (ctx_name c))) (cleanupStart c)"
    by (rule guards_emits [OF emits_mono [OF start_quiet]]) auto
  have ens: "ensures (gone KCHK (keeperCRName (ctx_name c))) (deleteKeeper c)"
    using assms by (simp add: deleteKeeper_def andthen_def ensures_bind2 ensures_waitForDeletion)
  show ?thesis
    unfolding Cleanup_parts cleanupEnd_def
    by (intro guards_andthen start guards_andthen_ensured ens; intro guards_emits emits_rules; simp)
qed

lemma cleanup_pvc_policy:
  assumes "storageReclaimPolicy c \<noteq> StorageReclaimPolicyDelete"
  shows "emits (\<lambda>e. \<not> removes KPVC e) (Cleanup c)"
proof -
  have "emits (\<lambda>e. \<not> removes KPVC e) (cleanupStart c)" by (rule emits_mono [OF start_quiet]) simp
  with assms show ?thesis unfolding Cleanup_parts cleanupEnd_def by (intro emits_rules; simp)
qed

text \<open>C8. The order of a teardown: a Keeper is deleted only after the CHI was seen gone, a volume only
  under the Delete policy and after the CHI and, in the replicated topology, the CHK were seen gone.\<close>

theorem cleanup_order:
  assumes "events (Cleanup c) w = us @ Deleted k n r # vs" and "k = KCHK \<or> k = KPVC"
  shows "Checked KCHI (ctx_name c) (Inr False) \<in> set us \<and>
     (k = KPVC \<longrightarrow> storageReclaimPolicy c = StorageReclaimPolicyDelete \<and>
        (replicated c \<longrightarrow> Checked KCHK (keeperCRName (ctx_name c)) (Inr False) \<in> set us))"
proof (intro conjI impI)
  have "\<exists>b \<in> set us. gone KCHI (ctx_name c) b"
  proof (rule guarded_before)
    show "guarded (\<lambda>e. removes KPVC e \<or> removes KCHK e) (gone KCHI (ctx_name c)) (us @ Deleted k n r # vs)"
      using cleanup_guards_chi [of c] assms(1) by (metis guards_def)
  qed (use assms(2) in auto)
  then show "Checked KCHI (ctx_name c) (Inr False) \<in> set us" by (auto simp: gone_iff)
next
  assume pvc: "k = KPVC"
  show "storageReclaimPolicy c = StorageReclaimPolicyDelete"
    using cleanup_pvc_policy [of c] emitsD [of _ "Cleanup c" "Deleted k n r" w] assms(1) pvc by fastforce
next
  assume pvc: "k = KPVC" and rep: "replicated c"
  have "\<exists>b \<in> set us. gone KCHK (keeperCRName (ctx_name c)) b"
  proof (rule guarded_before)
    show "guarded (removes KPVC) (gone KCHK (keeperCRName (ctx_name c))) (us @ Deleted k n r # vs)"
      using cleanup_guards_chk [OF rep] assms(1) by (metis guards_def)
  qed (use pvc in auto)
  then show "Checked KCHK (keeperCRName (ctx_name c)) (Inr False) \<in> set us" by (auto simp: gone_iff)
qed

section \<open>The policy reaches the operator\<close>

text \<open>Every template of what was read has the policy, or was patched to it; every volume has its label.\<close>

definition templates_settled :: "kind \<Rightarrow> string \<Rightarrow> string \<Rightarrow> api_error + templates option \<Rightarrow> 's event set \<Rightarrow> bool" where
  "templates_settled k n policy a es \<longleftrightarrow>
     (case a of Inl e \<Rightarrow> e = NotFound | Inr None \<Rightarrow> True
      | Inr (Some t) \<Rightarrow>
          (let vs = volume_claim_templates t; ops = reclaimOps policy 0 vs
           in applyPatch ops vs = Some (map (\<lambda>v. v\<lparr>vct_reclaim_policy := policy\<rparr>) vs) \<and>
              (ops = [] \<or> Patched k n ops None \<in> es)))"

definition volumes_settled :: "string \<times> string \<Rightarrow> string \<Rightarrow> string \<Rightarrow> 's event set \<Rightarrow> bool" where
  "volumes_settled sel key policy es \<longleftrightarrow>
     (\<exists>ps. ListedPVCs sel (Inr ps) \<in> es \<and>
        (\<forall>p \<in> set ps. get0 (pvc_labels p) key = policy \<or> Labelled (pvc_name p) key policy None \<in> es))"

lemma patchVolumeClaimTemplates_ok:
  assumes "result (patchVolumeClaimTemplates c k n policy read) w = Inr ()"
  shows "\<exists>a. result read w = Inr a \<and>
     templates_settled k n policy a (set (events (patchVolumeClaimTemplates c k n policy read) w))"
proof -
  obtain a where a: "result read w = Inr a" using assms by (auto simp: patchVolumeClaimTemplates_def bind_Inr)
  have same: "applyPatch (reclaimOps policy 0 vs) vs = Some (map (\<lambda>v. v\<lparr>vct_reclaim_policy := policy\<rparr>) vs)" for vs
    using applyPatch_same [of "[]" 0 policy vs] by simp
  have "templates_settled k n policy a (set (events (patchVolumeClaimTemplates c k n policy read) w))"
  proof (cases a)
    case (Inl e)
    with assms a show ?thesis
      by (simp add: patchVolumeClaimTemplates_def result_bind templates_settled_def split: api_error.splits)
  next
    case (Inr ts)
    with assms a show ?thesis
      by (cases ts) (auto simp: patchVolumeClaimTemplates_def run_simps templates_settled_def Let_def same json_patch_def
          split: if_splits option.splits)
  qed
  with a show ?thesis by blast
qed

lemma patchVolumeClaimTemplates_reads:
  "set (events read w) \<subseteq> set (events (patchVolumeClaimTemplates c k n p read) w)"
  by (auto simp: patchVolumeClaimTemplates_def events_bind split: sum.splits)

lemma labelPVCs_ok:
  assumes "result (labelPVCs c sel key policy) w = Inr ()"
  shows "volumes_settled sel key policy (set (events (labelPVCs c sel key policy) w))"
proof -
  define f where "f = (\<lambda>p :: pvc. if get0 (pvc_labels p) key = policy then ret ()
         else must (\<lambda>e. Errorf ''label PVC %s: %w'' [AStr (pvc_name p), AErr (ApiErr e)])
           (label_pvc c (pvc_name p) key policy))"
  obtain ps where ps: "fst (api_list_pvcs c sel w) = Inr ps"
    and all: "result (for_each ps f) (snd (api_list_pvcs c sel w)) = Inr ()"
    and ev: "events (labelPVCs c sel key policy) w =
      ListedPVCs sel (Inr ps) # events (for_each ps f) (snd (api_list_pvcs c sel w))"
    using assms by (auto simp: labelPVCs_def f_def list_pvcs_def run_simps split: sum.splits)
  have "get0 (pvc_labels p) key = policy \<or>
      Labelled (pvc_name p) key policy None \<in> set (events (for_each ps f) (snd (api_list_pvcs c sel w)))"
    if p: "p \<in> set ps" for p
    using for_each_Inr [OF all p] by (auto simp: f_def label_pvc_def split: if_splits option.splits)
  then show ?thesis using ev unfolding volumes_settled_def by (intro exI [of _ ps]) auto
qed

lemma settled_mono:
  "templates_settled k n policy a es \<Longrightarrow> es \<subseteq> fs \<Longrightarrow> templates_settled k n policy a fs"
  "volumes_settled sel key policy es \<Longrightarrow> es \<subseteq> fs \<Longrightarrow> volumes_settled sel key policy fs"
  by (auto simp: templates_settled_def volumes_settled_def Let_def split: sum.splits option.splits)

lemma syncReclaimPolicy_ok:
  assumes "result (syncReclaimPolicy c) w = Inr ()"
  shows "\<exists>a b. GotCHI (ctx_name c) a \<in> set (events (syncReclaimPolicy c) w) \<and>
     GotCHK (keeperCRName (ctx_name c)) b \<in> set (events (syncReclaimPolicy c) w) \<and>
     templates_settled KCHI (ctx_name c) (storageReclaimPolicy c)
       (map_sum id (\<lambda>x. chi_templates (chi_spec_of x)) a) (set (events (syncReclaimPolicy c) w)) \<and>
     templates_settled KCHK (keeperCRName (ctx_name c)) (storageReclaimPolicy c)
       (map_sum id (\<lambda>x. chk_templates (chk_spec_of x)) b) (set (events (syncReclaimPolicy c) w)) \<and>
     volumes_settled (LabelCHIName, ctx_name c) LabelCHIReclaimPolicy (storageReclaimPolicy c)
       (set (events (syncReclaimPolicy c) w)) \<and>
     volumes_settled (LabelCHKName, keeperCRName (ctx_name c)) LabelCHKReclaimPolicy (storageReclaimPolicy c)
       (set (events (syncReclaimPolicy c) w))"
proof -
  let ?p = "storageReclaimPolicy c" and ?n = "ctx_name c" and ?k = "keeperCRName (ctx_name c)"
  let ?read1 = "bind (get_chi c ?n) (\<lambda>r. ret (map_sum id (\<lambda>x. chi_templates (chi_spec_of x)) r))"
  let ?read2 = "bind (get_chk c ?k) (\<lambda>r. ret (map_sum id (\<lambda>x. chk_templates (chk_spec_of x)) r))"
  let ?m1 = "patchVolumeClaimTemplates c KCHI ?n ?p ?read1" and ?m2 = "patchVolumeClaimTemplates c KCHK ?k ?p ?read2"
  let ?m3 = "labelPVCs c (LabelCHIName, ?n) LabelCHIReclaimPolicy ?p"
  let ?m4 = "labelPVCs c (LabelCHKName, ?k) LabelCHKReclaimPolicy ?p"
  let ?w1 = "world ?m1 w" let ?w2 = "world ?m2 ?w1" let ?w3 = "world ?m3 ?w2"
  have whole: "syncReclaimPolicy c = andthen ?m1 (andthen ?m2 (andthen ?m3 ?m4))"
    by (simp add: syncReclaimPolicy_def Let_def)
  have ok: "result ?m1 w = Inr ()" "result ?m2 ?w1 = Inr ()" "result ?m3 ?w2 = Inr ()" "result ?m4 ?w3 = Inr ()"
    using assms by (simp_all add: whole andthen_Inr)
  have es: "set (events (syncReclaimPolicy c) w) =
      set (events ?m1 w) \<union> set (events ?m2 ?w1) \<union> set (events ?m3 ?w2) \<union> set (events ?m4 ?w3)"
    by (simp add: whole andthen_run ok Un_assoc)
  let ?a = "fst (api_get_chi c ?n w)" and ?b = "fst (api_get_chk c ?k ?w1)"
  have reads: "GotCHI ?n ?a \<in> set (events ?m1 w)" "GotCHK ?k ?b \<in> set (events ?m2 ?w1)"
    using patchVolumeClaimTemplates_reads [of ?read1 w c KCHI ?n ?p]
      patchVolumeClaimTemplates_reads [of ?read2 ?w1 c KCHK ?k ?p]
    by (auto simp: get_chi_def get_chk_def events_bind)
  have "templates_settled KCHI ?n ?p (map_sum id (\<lambda>x. chi_templates (chi_spec_of x)) ?a) (set (events ?m1 w))"
    using patchVolumeClaimTemplates_ok [OF ok(1)] by (auto simp: get_chi_def result_bind)
  moreover have "templates_settled KCHK ?k ?p (map_sum id (\<lambda>x. chk_templates (chk_spec_of x)) ?b) (set (events ?m2 ?w1))"
    using patchVolumeClaimTemplates_ok [OF ok(2)] by (auto simp: get_chk_def result_bind)
  ultimately show ?thesis
    using reads labelPVCs_ok [OF ok(3)] labelPVCs_ok [OF ok(4)] unfolding es
    by (intro exI [of _ ?a] exI [of _ ?b]) (auto elim!: settled_mono)
qed

lemma prefix_before: "us @ x # vs = xs @ ys \<Longrightarrow> x \<notin> set xs \<Longrightarrow> set xs \<subseteq> set us"
proof (induction xs arbitrary: us)
  case (Cons z xs)
  then show ?case by (cases us) auto
qed simp

text \<open>C21. The reclaim policy the operator acts on is the Instance's: before the CHI is deleted, the
  templates of the CHI and of the CHK were read and, where their policy differed, patched so that
  every template has it, and every volume of both carries it in its reclaim label.\<close>

theorem reclaim_policy_before_deletion:
  assumes "events (Cleanup c) w = us @ Deleted KCHI n r # vs"
  shows "\<exists>a b. GotCHI (ctx_name c) a \<in> set us \<and> GotCHK (keeperCRName (ctx_name c)) b \<in> set us \<and>
     templates_settled KCHI (ctx_name c) (storageReclaimPolicy c)
       (map_sum id (\<lambda>x. chi_templates (chi_spec_of x)) a) (set us) \<and>
     templates_settled KCHK (keeperCRName (ctx_name c)) (storageReclaimPolicy c)
       (map_sum id (\<lambda>x. chk_templates (chk_spec_of x)) b) (set us) \<and>
     volumes_settled (LabelCHIName, ctx_name c) LabelCHIReclaimPolicy (storageReclaimPolicy c) (set us) \<and>
     volumes_settled (LabelCHKName, keeperCRName (ctx_name c)) LabelCHKReclaimPolicy (storageReclaimPolicy c) (set us)"
proof -
  let ?first = "events (syncReclaimPolicy c) w"
  have quiet: "Deleted KCHI n r \<notin> set ?first"
  proof
    assume "Deleted KCHI n r \<in> set ?first"
    moreover have "emits (\<lambda>e. \<not> removes KCHI e) (syncReclaimPolicy c)" by (intro emits_rules; simp)
    ultimately show False using emitsD by fastforce
  qed
  have ok: "result (syncReclaimPolicy c) w = Inr ()"
  proof (cases "result (syncReclaimPolicy c) w")
    case (Inl e)
    with assms quiet show ?thesis by (simp add: Cleanup_parts andthen_run)
  qed simp
  then obtain rest where "events (Cleanup c) w = ?first @ rest" by (simp add: Cleanup_parts andthen_run)
  with assms have "us @ Deleted KCHI n r # vs = ?first @ rest" by simp
  then have "set ?first \<subseteq> set us"
    using quiet by (rule prefix_before)
  then show ?thesis
    using syncReclaimPolicy_ok [OF ok] by (meson settled_mono subsetD)
qed

section \<open>Instances\<close>

text \<open>An Instance with the Delete policy, whose volume still carries the Retain label.\<close>

definition delete_parameters :: clickhouse_parameters where
  "delete_parameters = sample_parameters\<lparr>par_reclaim_policy := ''Delete''\<rparr>"

definition leaving_cluster :: cluster where
  "leaving_cluster = empty_cluster\<lparr>cl_chi := [(''db'', plain_chi)],
     cl_pvcs := [\<lparr>pvc_name = ''data-0'', pvc_labels = [(''clickhouse.altinity.com/chi'', ''db''),
       (''clickhouse.altinity.com/reclaimPolicy'', ''Retain'')], pvc_storage_class = None\<rparr>]\<rparr>"

lemma delete_policy: "storageReclaimPolicy (sample_ctx delete_parameters) = StorageReclaimPolicyDelete"
  by (simp add: storageReclaimPolicy_def engine_parameters_def delete_parameters_def constants equal_fold_def)

lemma leaving_synced:
  "result (syncReclaimPolicy (sample_ctx delete_parameters)) leaving_cluster = Inr ()"
  "world (syncReclaimPolicy (sample_ctx delete_parameters)) leaving_cluster = leaving_cluster"
  by (simp_all add: syncReclaimPolicy_def patchVolumeClaimTemplates_def labelPVCs_def run_simps Let_def get_chi_def get_chk_def
      list_pvcs_def label_pvc_def lookup_in_def leaving_cluster_def empty_cluster_def plain_chi_def constants get0_def
      delete_policy)

lemma sample_deletes:
  "result (deleteAll (sample_ctx p) xs) w = Inr ()"
  "list_all (\<lambda>(k, n). k \<notin> {KCHI, KPVC}) xs \<Longrightarrow> cl_pvcs (world (deleteAll (sample_ctx p) xs) w) = cl_pvcs w \<and>
     cl_chi (world (deleteAll (sample_ctx p) xs) w) = cl_chi w"
proof -
  have other: "k \<notin> {KCHI, KPVC} \<Longrightarrow> cl_pvcs (remove_obj k n w) = cl_pvcs w \<and> cl_chi (remove_obj k n w) = cl_chi w"
    for k n w by (cases k) auto
  show "result (deleteAll (sample_ctx p) xs) w = Inr ()"
    by (induction xs arbitrary: w) (auto simp: deleteAll_def delete_obj_def run_simps)
  show "list_all (\<lambda>(k, n). k \<notin> {KCHI, KPVC}) xs \<Longrightarrow> cl_pvcs (world (deleteAll (sample_ctx p) xs) w) = cl_pvcs w \<and>
     cl_chi (world (deleteAll (sample_ctx p) xs) w) = cl_chi w"
    using other by (induction xs arbitrary: w) (auto simp: deleteAll_def delete_obj_def run_simps)
qed

lemma leaving_started:
  "result (cleanupStart (sample_ctx delete_parameters)) leaving_cluster = Inr ()"
  "Deleted KCHI ''db'' None \<in> set (events (cleanupStart (sample_ctx delete_parameters)) leaving_cluster)"
  "cl_chi (world (cleanupStart (sample_ctx delete_parameters)) leaving_cluster) = []"
  "cl_pvcs (world (cleanupStart (sample_ctx delete_parameters)) leaving_cluster) = cl_pvcs leaving_cluster"
proof -
  have kinds: "list_all (\<lambda>(k, n). k \<notin> {KCHI, KPVC}) (tlsResources n)" for n
    by (simp add: tlsResources_def caChain_def)
  show "result (cleanupStart (sample_ctx delete_parameters)) leaving_cluster = Inr ()"
    "Deleted KCHI ''db'' None \<in> set (events (cleanupStart (sample_ctx delete_parameters)) leaving_cluster)"
    "cl_chi (world (cleanupStart (sample_ctx delete_parameters)) leaving_cluster) = []"
    "cl_pvcs (world (cleanupStart (sample_ctx delete_parameters)) leaving_cluster) = cl_pvcs leaving_cluster"
    by (simp_all add: cleanupStart_def run_simps delete_obj_def deletePodMonitor_def deleteTLSResources_def sample_deletes(1)
        sample_deletes(2) [OF kinds]
        remove_from_def leaving_cluster_def)
qed

lemma removed [simp]: "map_of (remove_from n m) n = None"
  by (auto simp: remove_from_def map_of_eq_None_iff)

lemma leaving_deletes:
  "Deleted KCHI ''db'' None \<in> set (events (Cleanup (sample_ctx delete_parameters)) leaving_cluster)"
  "Deleted KPVC ''data-0'' None \<in> set (events (Cleanup (sample_ctx delete_parameters)) leaving_cluster)"
proof -
  let ?c = "sample_ctx delete_parameters"
  let ?w = "world (cleanupStart ?c) leaving_cluster"
  have wait: "result (waitForDeletion ?c KCHI ''db'') ?w = Inr ()" "world (waitForDeletion ?c KCHI ''db'') ?w = ?w"
    by (simp_all add: waitForDeletion_def check_exists_def run_simps has_obj_def leaving_started)
  have keeper: "result (deleteKeeper ?c) ?w = Inr ()" "cl_pvcs (world (deleteKeeper ?c) ?w) = cl_pvcs leaving_cluster"
    by (simp_all add: deleteKeeper_def run_simps sample_replicated delete_obj_def waitForDeletion_def check_exists_def
        has_obj_def leaving_started removed)
  have pvcs: "Deleted KPVC ''data-0'' None \<in> set (events (deletePVCs ?c) v)" if "cl_pvcs v = cl_pvcs leaving_cluster" for v
    using that by (simp add: deletePVCs_def in_events run_simps list_pvcs_def delete_obj_def leaving_cluster_def constants)
  show "Deleted KCHI ''db'' None \<in> set (events (Cleanup ?c) leaving_cluster)"
    "Deleted KPVC ''data-0'' None \<in> set (events (Cleanup ?c) leaving_cluster)"
    using leaving_started(2) pvcs keeper
    by (simp_all add: Cleanup_parts cleanupEnd_def in_events leaving_synced leaving_started(1) wait delete_policy)
qed

theorem cleanup_order_witness:
  "\<exists>us vs. events (Cleanup (sample_ctx delete_parameters)) leaving_cluster = us @ Deleted KPVC ''data-0'' None # vs \<and>
     Checked KCHI ''db'' (Inr False) \<in> set us \<and> Checked KCHK ''db-keeper'' (Inr False) \<in> set us"
proof -
  obtain us vs where ev: "events (Cleanup (sample_ctx delete_parameters)) leaving_cluster =
      us @ Deleted KPVC ''data-0'' None # vs"
    using leaving_deletes(2) by (meson split_list)
  from cleanup_order [OF ev] ev sample_replicated show ?thesis by (auto simp: keeperCRName_def)
qed

theorem reclaim_policy_before_deletion_witness:
  "\<exists>us vs. events (Cleanup (sample_ctx delete_parameters)) leaving_cluster = us @ Deleted KCHI ''db'' None # vs \<and>
     volumes_settled (LabelCHIName, ''db'') LabelCHIReclaimPolicy StorageReclaimPolicyDelete (set us)"
proof -
  obtain us vs where ev: "events (Cleanup (sample_ctx delete_parameters)) leaving_cluster = us @ Deleted KCHI ''db'' None # vs"
    using leaving_deletes(1) by (meson split_list)
  from reclaim_policy_before_deletion [OF ev] ev show ?thesis by (auto simp: delete_policy)
qed

end
