(* ===== verification/Failures.thy ===== *)
theory Failures
  imports Teardown
begin

text \<open>
  What a reconcile does once a write fails: the error rules of \<^verbatim>\<open>Sync\<close> and \<^verbatim>\<open>Cleanup\<close>, every
  operation below them included, and when \<^verbatim>\<open>Cleanup\<close> returns.
\<close>

section \<open>Failed writes\<close>

text \<open>
  A write that the API answers with an error. Two answers are no failure to the program: a missing
  PodMonitor kind, and a missing kind of something that is to be deleted. A status update is best
  effort.
\<close>

fun failed_write :: "'s event \<Rightarrow> bool" where
  "failed_write (Applied x r) =
     (case r of None \<Rightarrow> False | Some e \<Rightarrow> (case x of OPodMonitor pm \<Rightarrow> e \<noteq> NoMatch | _ \<Rightarrow> True))"
| "failed_write (Deleted k n r) = (r \<noteq> None \<and> r \<noteq> Some NoMatch)"
| "failed_write (Patched k n ops r) = (r \<noteq> None)"
| "failed_write (Labelled n k v r) = (r \<noteq> None)"
| "failed_write _ = False"

fun on_pod_monitor :: "'s event \<Rightarrow> bool" where
  "on_pod_monitor (Applied (OPodMonitor pm) r) = True"
| "on_pod_monitor (Deleted KPodMonitor n r) = True"
| "on_pod_monitor _ = False"

definition further_write :: "'s event \<Rightarrow> bool" where
  "further_write e \<longleftrightarrow> is_write e \<and> \<not> on_pod_monitor e"

lemma stops_reads [stops_rules]:
  "stops failed_write W (get_chi c n)" "stops failed_write W (get_chk c n)"
  "stops failed_write W (get_secret c n)" "stops failed_write W (get_service c n)"
  "stops failed_write W (get_policy c n)" "stops failed_write W (get_instance c n)"
  "stops failed_write W (check_exists c k n)" "stops failed_write W (list_pvcs c sel)"
  "stops failed_write W (list_pods c sel)" "stops failed_write W (random_bytes c m)"
  "stops failed_write W (request_maintenance c b)" "stops failed_write W (maintenance_requested c)"
  "stops failed_write W (pending_maintenance c)" "stops failed_write W (update_status c i)"
  by (simp_all add: call_defs stops_call)

lemma stops_writes [stops_rules]:
  assumes "\<And>e. \<not> is_wait (f e)"
  shows "stops failed_write W (must f (apply_obj c x))" "stops failed_write W (must f (delete_obj c k n))"
    and "stops failed_write W (must f (json_patch c k n ops))" "stops failed_write W (must f (label_pvc c n l v))"
  using assms by (auto simp: call_defs intro!: stops_must)

lemma stops_getOptional [stops_rules]: "stops F W m \<Longrightarrow> stops F W (getOptional name m)"
  unfolding getOptional_def by (rule stops_bind) (auto split: sum.splits api_error.splits intro: stops_rules)

lemma stops_case_api_error [stops_rules]:
  "stops F W m \<Longrightarrow> stops F W n \<Longrightarrow> (\<And>s. stops F W (f s)) \<Longrightarrow>
     stops F W (case e of NotFound \<Rightarrow> m | NoMatch \<Rightarrow> n | OtherApi s \<Rightarrow> f s)"
  by (cases e) auto

text \<open>Deletions that tolerate a missing kind.\<close>

lemma stops_delete_optional [stops_rules]:
  assumes "\<And>e. \<not> is_wait (f e)"
  shows "stops failed_write W (bind (delete_obj c k n) (\<lambda>r. case r of
      None \<Rightarrow> ret () | Some NoMatch \<Rightarrow> ret () | Some e \<Rightarrow> throw (f e)))"
  unfolding delete_obj_def
proof (rule stops_bind_call)
  fix a assume "failed_write (Deleted k n a)"
  then show "\<exists>e. (case a of None \<Rightarrow> ret () | Some NoMatch \<Rightarrow> ret () | Some e \<Rightarrow> throw (f e)) = throw e \<and> \<not> is_wait e"
    using assms by (auto split: option.splits api_error.splits)
qed (auto split: option.splits api_error.splits intro: stops_rules)

lemma stops_deleteAll [stops_rules]: "stops failed_write W (deleteAll c objects)"
  unfolding deleteAll_def by (intro stops_for_each, simp split: prod.splits) (intro allI impI stops_delete_optional; simp)

lemma stops_deletePodMonitor [stops_rules]: "stops failed_write W (deletePodMonitor c)"
  unfolding deletePodMonitor_def by (intro stops_delete_optional) simp

lemma stops_reconcilePodMonitor [stops_rules]: "stops failed_write W (reconcilePodMonitor c)"
proof -
  have "stops failed_write W (bind (apply_obj c (OPodMonitor pm)) (\<lambda>r. case r of
      None \<Rightarrow> ret () | Some NoMatch \<Rightarrow> ret () | Some e \<Rightarrow> throw (Errorf ''apply PodMonitor: %w'' [AErr (ApiErr e)])))" for pm
    unfolding apply_obj_def
    by (rule stops_bind_call) (auto split: option.splits api_error.splits intro: stops_rules)
  then show ?thesis
    unfolding reconcilePodMonitor_def by (intro stops_cases(1) stops_deletePodMonitor)
qed

lemma stops_less: "stops F W m \<Longrightarrow> (\<And>e. V e \<Longrightarrow> W e) \<Longrightarrow> stops F V m"
proof -
  have "quiet_after F W es \<Longrightarrow> (\<And>e. V e \<Longrightarrow> W e) \<Longrightarrow> quiet_after F V es" for es
    by (induction es) auto
  then show "stops F W m \<Longrightarrow> (\<And>e. V e \<Longrightarrow> W e) \<Longrightarrow> stops F V m" by (auto simp: stops_def)
qed

section \<open>The operations below Sync\<close>

lemma stops_generatePassword [stops_rules]: "stops failed_write W (generatePassword c n)"
  unfolding generatePassword_def by (intro stops_rules)

lemma stops_generateMissing [stops_rules]: "stops failed_write W (generateMissing c keys data b)"
  by (induction keys arbitrary: data b) (auto intro!: stops_rules)

lemma stops_credentials [stops_rules]: "stops failed_write W (ensureCredentials c)"
proof -
  have seed: "stops failed_write W (seedCredentials c)"
    unfolding seedCredentials_def by (intro stops_rules; simp)
  have complete: "stops failed_write W (completeCredentials c old data)" for old data
    unfolding completeCredentials_def by (intro stops_rules; simp)
  show ?thesis
    unfolding ensureCredentials_def by (intro stops_rules seed complete)
qed

lemma stops_ensureTLS [stops_rules]: "stops failed_write W (ensureTLS c)"
  unfolding ensureTLS_def ensureIssuer_def deleteCAChain_def ensureServerCertificate_def externalAddresses_def
    serverCertificateIssued_def Let_def
  by (intro stops_rules; simp)

lemma stops_cleanupTLS [stops_rules]: "stops failed_write W (cleanupTLS c x)"
proof -
  have mounted: "stops failed_write W (mountedBy c s sels)" for s sels
    by (induction sels) (auto intro!: stops_rules)
  show ?thesis
    unfolding cleanupTLS_def serverSecretMounted_def deleteTLSResources_def Let_def by (intro stops_rules mounted)
qed

lemma stops_reconcilePlaintextPolicy [stops_rules]: "stops failed_write W (reconcilePlaintextPolicy c x)"
  unfolding reconcilePlaintextPolicy_def reconcilePolicy_def Let_def by (intro stops_rules; simp)

lemma stops_gateApply [stops_rules]: "stops failed_write W (gateApply c g x key)"
proof -
  have "stops failed_write W (live_of c x)"
    by (cases x) (auto intro!: stops_rules)
  then show ?thesis
    unfolding gateApply_def askMaintenance_def applyAllowed_def save_def by (intro stops_rules; simp)
qed

lemma stops_newRolloutGate [stops_rules]: "stops failed_write W (newRolloutGate c xs)"
  unfolding newRolloutGate_def inputsHash_def Let_def by (intro stops_rules)

lemma stops_builders [stops_rules]:
  "stops failed_write W (buildCHIWired c n k)" "stops failed_write W (buildCHKWired c k)"
  "stops failed_write W (planKeeperWiring c)"
  by (intro stops_quiet emits_rules; simp)+

lemma stops_applyAndWaitForCHI [stops_rules]: "stops failed_write W (applyAndWaitForCHI c g x)"
  unfolding applyAndWaitForCHI_def by (intro stops_rules; simp)

lemma stops_syncStandalone [stops_rules]: "stops failed_write W (syncStandalone c)"
  unfolding syncStandalone_def buildCHI_def by (intro stops_rules; simp)

lemma stops_syncReplicated [stops_rules]: "stops failed_write W (syncReplicated c)"
  unfolding syncReplicated_def preparePair_def buildPair_def applyPair_def by (intro stops_rules; simp)

lemma reconcilePodMonitor_never_waits: "result (reconcilePodMonitor c) w = Inl e \<Longrightarrow> \<not> is_wait e"
  by (auto simp: reconcilePodMonitor_def deletePodMonitor_def apply_obj_def delete_obj_def run_simps
      split: if_splits option.splits api_error.splits)

lemma stops_sync [stops_rules]: "stops failed_write further_write (sync c)"
proof -
  have quiet: "emits (\<lambda>e. \<not> further_write e) (reconcilePodMonitor c)"
    by (intro emits_rules) (simp_all add: further_write_def)
  have "stops failed_write further_write (bind (attempt (if replicated c then syncReplicated c else syncStandalone c))
      (\<lambda>r. andthen (reconcilePodMonitor c) (lift_result r)))"
    by (rule stops_attempt_finally) (auto intro: stops_rules quiet dest: reconcilePodMonitor_never_waits)
  then have "stops failed_write further_write (andthen (if tlsEnabled c then ensureTLS c else ret ())
      (bind (attempt (if replicated c then syncReplicated c else syncStandalone c))
        (\<lambda>r. andthen (reconcilePodMonitor c) (lift_result r))))"
    by (rule stops_andthen [rotated]) (intro stops_rules)
  then show ?thesis
    unfolding sync_def by (rule stops_bind [rotated]) (intro stops_rules; simp)
qed

lemma reporting_writes: "emits (\<lambda>e. \<not> failed_write e) (reporting c e)"
  unfolding reporting_def Status_def servingDetails_def statusFrom_def keeperStatus_def readyStatus_def reportStatus_def
    buildConnectionDetails_def readCACert_def readCredentials_def serverCertificateIssued_def setPendingMaintenance_def Let_def
  by (intro emits_rules; simp)

lemma reporting_not_waiting: "\<not> is_wait e \<Longrightarrow> events (reporting c e) w = []"
  by (simp add: reporting_def)

lemma stops_Sync: "stops failed_write further_write (Sync c)"
proof (rule stopsI)
  fix w
  note sync = stopsD [where w = w, OF stops_sync [of c]]
  have noted: "e \<in> set (events (Sync c) w) \<Longrightarrow> failed_write e \<Longrightarrow> e \<in> set (events (sync c) w)" for e
    by (auto simp: Sync_runs split: sum.splits dest: emitsD [OF reporting_writes])
  show "\<exists>err. result (Sync c) w = Inl err \<and> \<not> is_wait err" if "e \<in> set (events (Sync c) w)" "failed_write e" for e
    using sync(2) [OF noted [OF that] that(2)] by (simp add: Sync_runs)
  show "quiet_after failed_write further_write (events (Sync c) w)"
  proof (cases "\<exists>e \<in> set (events (sync c) w). failed_write e")
    case True
    with sync(2) obtain err where "result (sync c) w = Inl err" "\<not> is_wait err" by blast
    with sync(1) show ?thesis by (simp add: Sync_runs reporting_not_waiting)
  next
    case False
    with noted show ?thesis by (blast intro: quiet_after_none)
  qed
qed

section \<open>Cleanup\<close>

lemma stops_Cleanup: "stops failed_write is_write (Cleanup c)"
  unfolding Cleanup_def syncReclaimPolicy_def patchVolumeClaimTemplates_def labelPVCs_def deleteTLSResources_def
    waitForDeletion_def deleteKeeper_def deletePVCs_def Let_def
  by (intro stops_rules; simp)

section \<open>When Cleanup returns\<close>

text \<open>
  The answers at which \<open>Cleanup\<close> gives up: an error, other than that the CHI or the CHK to patch does not
  exist and that a kind of the optional objects is not installed, or an object that still exists.
\<close>

fun optional_object :: "string \<Rightarrow> kind \<Rightarrow> string \<Rightarrow> bool" where
  "optional_object n k name \<longleftrightarrow> (k, name) \<in> set ((KPodMonitor, podMonitorName n) # tlsResources n)"

fun blocks_cleanup :: "string \<Rightarrow> 's event \<Rightarrow> bool" where
  "blocks_cleanup n (GotCHI name r) = (case r of Inl e \<Rightarrow> e \<noteq> NotFound | Inr _ \<Rightarrow> False)"
| "blocks_cleanup n (GotCHK name r) = (case r of Inl e \<Rightarrow> e \<noteq> NotFound | Inr _ \<Rightarrow> False)"
| "blocks_cleanup n (ListedPVCs sel r) = (case r of Inl _ \<Rightarrow> True | Inr _ \<Rightarrow> False)"
| "blocks_cleanup n (Checked k name r) = (r \<noteq> Inr False)"
| "blocks_cleanup n (Patched k name ops r) = (r \<noteq> None)"
| "blocks_cleanup n (Labelled name k v r) = (r \<noteq> None)"
| "blocks_cleanup n (Deleted k name r) = (r \<noteq> None \<and> \<not> (r = Some NoMatch \<and> optional_object n k name))"
| "blocks_cleanup n _ = False"

definition ownedObjects :: "('s, 'w) ctx \<Rightarrow> (kind \<times> string) list" where
  "ownedObjects c =
     [(KCHI, ctx_name c), (KPodMonitor, podMonitorName (ctx_name c)), (KSecret, credentialsSecretName (ctx_name c)),
      (KSecret, rolloutStateName (ctx_name c))] @ tlsResources (ctx_name c) @
     (if replicated c then [(KCHK, keeperCRName (ctx_name c))] else [])"

lemma required_objects:
  "\<not> optional_object n KCHI name" "\<not> optional_object n KCHK name" "\<not> optional_object n KPVC name"
  "\<not> optional_object n KSecret (credentialsSecretName n)" "\<not> optional_object n KSecret (rolloutStateName n)"
  by (simp_all add: tlsResources_def caChain_def credentialsSecretName_def rolloutStateName_def serverSecretName_def
      caSecretName_def CredentialsSecretSuffix_def RolloutStateSuffix_def CACertSecretSuffix_def ServerCertSecretSuffix_def)

lemma decided_must:
  "(\<And>a. F (ev a) \<longleftrightarrow> a \<noteq> None) \<Longrightarrow> decided F (must f (call op ev))"
  unfolding must_def by (rule decided_bind_call) (auto intro: decided_rules split: option.splits)

lemma decided_writes [decided_rules]:
  "\<not> optional_object n k name \<Longrightarrow> decided (blocks_cleanup n) (must f (delete_obj c k name))"
  "decided (blocks_cleanup n) (must f (json_patch c k name ops))"
  "decided (blocks_cleanup n) (must f (label_pvc c name l v))"
  unfolding call_defs by (rule decided_must; simp)+

lemma decided_delete_optional [decided_rules]:
  assumes "optional_object n k name"
  shows "decided (blocks_cleanup n) (bind (delete_obj c k name) (\<lambda>r. case r of
      None \<Rightarrow> ret () | Some NoMatch \<Rightarrow> ret () | Some e \<Rightarrow> throw (f e)))"
  unfolding delete_obj_def
  by (rule decided_bind_call) (use assms in \<open>auto split: option.splits api_error.splits intro: decided_rules\<close>)

lemma decided_deleteTLSResources [decided_rules]: "decided (blocks_cleanup (ctx_name c)) (deleteTLSResources c)"
proof -
  have "decided (blocks_cleanup (ctx_name c)) (case x of (k, name) \<Rightarrow> bind (delete_obj c k name) (\<lambda>r. case r of
      None \<Rightarrow> ret () | Some NoMatch \<Rightarrow> ret () | Some e \<Rightarrow> throw (Errorf ''delete %T %s: %w'' [AStr (kind_type k), AStr name, AErr (ApiErr e)])))"
    if "x \<in> set (tlsResources (ctx_name c))" for x
  proof (cases x)
    case (Pair k name)
    with that show ?thesis by (simp only: prod.case, intro decided_delete_optional) simp
  qed
  then show ?thesis
    unfolding deleteTLSResources_def deleteAll_def by (rule decided_for_each)
qed

lemma decided_patch [decided_rules]:
  assumes "\<And>r. blocks_cleanup n (ev r) \<longleftrightarrow> (case r of Inl e \<Rightarrow> e \<noteq> NotFound | Inr _ \<Rightarrow> False)"
  shows "decided (blocks_cleanup n) (patchVolumeClaimTemplates c k name policy (bind (call op ev) (\<lambda>r. ret (map_sum id f r))))"
proof -
  have *: "bind (ret a) f = f a" for a f by (rule ext) (simp add: bind_run run_parts [of "f a"])
  show ?thesis
    unfolding patchVolumeClaimTemplates_def bind_assoc *
    by (rule decided_bind_call) (auto simp: assms Let_def split: sum.splits api_error.splits intro!: decided_rules)
qed

lemma decided_listed:
  "(\<And>p. decided (blocks_cleanup n) (f p)) \<Longrightarrow>
     decided (blocks_cleanup n) (bind (list_pvcs c sel) (\<lambda>r. case r of
       Inl e \<Rightarrow> throw (g e) | Inr pvcs \<Rightarrow> for_each pvcs f))"
  unfolding list_pvcs_def by (rule decided_bind_call) (auto split: sum.splits intro: decided_rules)

lemma decided_waitForDeletion [decided_rules]: "decided (blocks_cleanup n) (waitForDeletion c k name)"
  unfolding waitForDeletion_def check_exists_def
  by (rule decided_bind_call) (auto split: sum.splits intro: decided_rules)

lemma decided_Cleanup: "decided (blocks_cleanup (ctx_name c)) (Cleanup c)"
proof -
  have "decided (blocks_cleanup (ctx_name c)) (syncReclaimPolicy c)"
    unfolding syncReclaimPolicy_def labelPVCs_def get_chi_def get_chk_def Let_def
    by (intro decided_andthen decided_listed decided_patch decided_cases decided_ret decided_writes) simp_all
  moreover have "decided (blocks_cleanup (ctx_name c)) (deletePodMonitor c)"
    unfolding deletePodMonitor_def by (rule decided_delete_optional) simp
  moreover have "decided (blocks_cleanup (ctx_name c)) (deleteKeeper c)"
    unfolding deleteKeeper_def by (intro decided_rules required_objects)
  moreover have "decided (blocks_cleanup (ctx_name c)) (deletePVCs c)"
    unfolding deletePVCs_def by (intro decided_for_each decided_listed decided_writes required_objects)
  ultimately show ?thesis
    unfolding Cleanup_def by (intro decided_rules required_objects)
qed

lemma Cleanup_deletes:
  assumes "result (Cleanup c) w = Inr ()" and "(k, n) \<in> set (ownedObjects c)"
  shows "\<exists>r. Deleted k n r \<in> set (events (Cleanup c) w)"
proof -
  have tls: "\<exists>r. Deleted k n r \<in> set (events (deleteTLSResources c) v)"
    if "result (deleteTLSResources c) v = Inr ()" "(k, n) \<in> set (tlsResources (ctx_name c))" for v
    using for_each_Inr [OF that [unfolded deleteTLSResources_def deleteAll_def]]
    by (auto simp: deleteTLSResources_def deleteAll_def in_events_bind delete_obj_def)
  have deleted: "Deleted k' n' (fst (api_delete c k' n' v)) \<in> set (events (delete_obj c k' n') v)" for k' n' v
    by (simp add: delete_obj_def)
  from assms show ?thesis
    by (auto simp: ownedObjects_def Cleanup_def deleteKeeper_def deletePodMonitor_def andthen_Inr in_events
        simp del: must_simps(1) split: if_splits intro: deleted dest: tls)
qed

section \<open>Properties\<close>


definition denied_ctx :: "(setting table, cluster) ctx" where
  "denied_ctx = (sample_ctx sample_parameters)\<lparr>api_delete := \<lambda>k n w. (Some (OtherApi ''forbidden''), w)\<rparr>"

lemma denied_deletes:
  "events (Cleanup denied_ctx) empty_cluster =
     events (syncReclaimPolicy denied_ctx) empty_cluster @ [Deleted KCHI ''db'' (Some (OtherApi ''forbidden''))]"
proof -
  have "result (syncReclaimPolicy denied_ctx) empty_cluster = Inr ()"
    by (simp add: denied_ctx_def syncReclaimPolicy_def patchVolumeClaimTemplates_def labelPVCs_def Let_def run_simps
        get_chi_def get_chk_def list_pvcs_def lookup_in_def empty_cluster_def)
  then show ?thesis
    by (simp add: Cleanup_def run_simps delete_obj_def) (simp add: denied_ctx_def)
qed




end
