(* ===== verification/Validate.thy ===== *)
theory Validate
  imports Workload Users Keeper_Wiring Store
begin

text \<open>
  \<^verbatim>\<open>validate.go\<close>: what the provider rejects before it reconciles, statically and against the
  cluster as deployed.
\<close>

section \<open>Versions\<close>

definition imageVersion :: "('s, 'w) ctx \<Rightarrow> string \<Rightarrow> version option" where
  "imageVersion c img =
     (let ref = (case index_of (CHR ''@'') img of Some i \<Rightarrow> take i img | None \<Rightarrow> img)
      in case last_index_of (CHR '':'') ref of
           None \<Rightarrow> None
         | Some i \<Rightarrow>
             (let tag = drop (Suc i) ref
              in if CHR ''/'' \<in> set tag then None else parse_version c tag))"

text \<open>The loop over the segments both have, with \<^verbatim>\<open>Segments64\<close> as lists.\<close>

fun compareSegs :: "int list \<Rightarrow> int list \<Rightarrow> int" where
  "compareSegs (a # as) (b # bs) = (if a \<noteq> b then (if a < b then - 1 else 1) else compareSegs as bs)"
| "compareSegs _ _ = 0"

definition compareSegments :: "version \<Rightarrow> version \<Rightarrow> int" where
  "compareSegments a b = compareSegs (ver_segments a) (ver_segments b)"

text \<open>The image of the named container in the first pod template of that name that has one.\<close>

definition templateImage :: "string \<Rightarrow> string \<Rightarrow> templates option \<Rightarrow> string" where
  "templateImage template ctr ts =
     (case ts of
        None \<Rightarrow> []
      | Some t \<Rightarrow>
          (case concat (map (\<lambda>p. filter (\<lambda>k. ctr_name k = ctr) (pod_containers (pt_spec p)))
                   (filter (\<lambda>p. pt_name p = template) (pod_templates t))) of
             [] \<Rightarrow> []
           | k # _ \<Rightarrow> ctr_image k))"

definition currentEngineImage :: "'s chi \<Rightarrow> string" where
  "currentEngineImage x = templateImage PodTemplateName ''clickhouse'' (chi_templates (chi_spec_of x))"

definition currentKeeperImage :: "'s chk \<Rightarrow> string" where
  "currentKeeperImage x = templateImage KeeperPodTemplateName ''clickhouse-keeper'' (chk_templates (chk_spec_of x))"

text \<open>
  The downgrade check of both components: \<open>wanted\<close> is the image the component resolves to, an
  error there skips the check.
\<close>

definition downgrade :: "('s, 'w) ctx \<Rightarrow> string \<Rightarrow> string \<Rightarrow> err + string \<Rightarrow> err + unit" where
  "downgrade c message running wanted =
     (case imageVersion c running of
        None \<Rightarrow> Inr ()
      | Some current \<Rightarrow>
          (case wanted of
             Inl _ \<Rightarrow> Inr ()
           | Inr img \<Rightarrow>
               (case imageVersion c img of
                  None \<Rightarrow> Inr ()
                | Some desired \<Rightarrow>
                    if compareSegments desired current < 0
                    then Inl (Errorf message [AStr (ver_original current), AStr (ver_original desired)])
                    else Inr ())))"

definition validateVersionTransition :: "('s, 'w) ctx \<Rightarrow> 's chi \<Rightarrow> component_spec \<Rightarrow> err + unit" where
  "validateVersionTransition c x engine =
     downgrade c ''ClickHouse cannot be downgraded from %s to %s'' (currentEngineImage x)
       (resolveImage c ComponentEngine engine)"

section \<open>Storage\<close>

definition equalStorageClass :: "string option \<Rightarrow> string option \<Rightarrow> bool" where
  "equalStorageClass a b =
     (case (a, b) of (Some x, Some y) \<Rightarrow> x = y | (None, None) \<Rightarrow> True | _ \<Rightarrow> False)"

definition describeStorageClass :: "string option \<Rightarrow> err" where
  "describeStorageClass sc =
     (case sc of None \<Rightarrow> Errorf ''the cluster default'' [] | Some s \<Rightarrow> Errorf ''%q'' [AStr s])"

fun expandableClasses :: "('s, 'w) ctx \<Rightarrow> string \<Rightarrow> pvc list \<Rightarrow> string list \<Rightarrow> ('s, 'w, unit) act" where
  "expandableClasses c what [] checked = ret ()"
| "expandableClasses c what (p # ps) checked =
     (case pvc_storage_class p of
        None \<Rightarrow> expandableClasses c what ps checked
      | Some name \<Rightarrow>
          if name \<in> set checked then expandableClasses c what ps checked
          else bind (get_storage_class c name) (\<lambda>r. case r of
            Inl NotFound \<Rightarrow> expandableClasses c what ps (name # checked)
          | Inl e \<Rightarrow> throw (Errorf ''read StorageClass %s: %w'' [AStr name, AErr (ApiErr e)])
          | Inr cls \<Rightarrow>
              if allow_volume_expansion cls \<noteq> Some True
              then throw (Errorf ''%s storage cannot grow: the %s StorageClass does not allow volume expansion''
                     [AStr what, AStr name])
              else expandableClasses c what ps (name # checked)))"

definition validateExpandable :: "('s, 'w) ctx \<Rightarrow> string \<Rightarrow> string \<times> string \<Rightarrow> ('s, 'w, unit) act" where
  "validateExpandable c what selector =
     bind (list_pvcs c selector) (\<lambda>r. case r of
       Inl e \<Rightarrow> throw (Errorf ''list %s volumes: %w'' [AStr what, AErr (ApiErr e)])
     | Inr pvcs \<Rightarrow> expandableClasses c what pvcs [])"

text \<open>
  The comparison both components make with their deployed volume claim template.
\<close>

definition storageChange ::
    "('s, 'w) ctx \<Rightarrow> string \<Rightarrow> string \<times> string \<Rightarrow> volume_claim_template \<Rightarrow> quantity \<Rightarrow> string option \<Rightarrow> ('s, 'w, unit) act" where
  "storageChange c what selector current sz cls =
     andthen (case vct_storage_request current of
          None \<Rightarrow> ret ()
        | Some now \<Rightarrow>
            if sz < now then throw (Errorf (what @ '' storage cannot shrink from %s to %s'') [AInt now, AInt sz])
            else if sz > now then validateExpandable c what selector
            else ret ())
      (if \<not> equalStorageClass (vct_storage_class current) cls
       then throw (Errorf (what @ '' storageClass cannot change from %s to %s'')
              [AErr (describeStorageClass (vct_storage_class current)), AErr (describeStorageClass cls)])
       else ret ())"

definition validateStorageTransition :: "('s, 'w) ctx \<Rightarrow> 's chi \<Rightarrow> component_spec \<Rightarrow> ('s, 'w, unit) act" where
  "validateStorageTransition c x engine =
     (case dataVolumeClaimTemplate x of
        None \<Rightarrow> ret ()
      | Some current \<Rightarrow>
          (let (sz, cls) = resolveStorage c engine
           in storageChange c ComponentEngine (LabelCHIName, ctx_name c) current sz cls))"

section \<open>Transitions\<close>

definition isReplicated :: "('s, 'w) ctx \<Rightarrow> 's chi \<Rightarrow> ('s, 'w, bool) act" where
  "isReplicated c x =
     (if (case chi_configuration (chi_spec_of x) of None \<Rightarrow> False | Some conf \<Rightarrow> chi_zookeeper conf \<noteq> None) then ret True
      else bind (check_exists c KCHK (keeperCRName (ctx_name c))) (\<lambda>r. case r of
        Inl e \<Rightarrow> throw (Errorf ''read current ClickHouseKeeperInstallation: %w'' [AErr (ApiErr e)])
      | Inr exists \<Rightarrow> ret exists))"

definition validateTransitions :: "('s, 'w) ctx \<Rightarrow> component_spec \<Rightarrow> ('s, 'w, unit) act" where
  "validateTransitions c engine =
     bind (get_chi c (ctx_name c)) (\<lambda>r. case r of
       Inl NotFound \<Rightarrow> ret ()
     | Inl e \<Rightarrow> throw (Errorf ''read current ClickHouseInstallation: %w'' [AErr (ApiErr e)])
     | Inr x \<Rightarrow>
         bind (if replicated c then ret False else isReplicated c x) (\<lambda>was.
           if was then throw (Errorf ''the topology cannot be changed from %s to %s''
                          [AStr TopologyReplicated, AStr TopologyStandalone])
           else andthen (validateStorageTransition c x engine)
             (lift_result (validateVersionTransition c x engine))))"

definition validateKeeperTransitions :: "('s, 'w) ctx \<Rightarrow> ('s, 'w, unit) act" where
  "validateKeeperTransitions c =
     (if \<not> replicated c then ret ()
      else bind (get_chk c (keeperCRName (ctx_name c))) (\<lambda>r. case r of
        Inl NotFound \<Rightarrow> ret ()
      | Inl e \<Rightarrow> throw (Errorf ''read current ClickHouseKeeperInstallation: %w'' [AErr (ApiErr e)])
      | Inr k \<Rightarrow>
          (let keeper = component c ComponentKeeper in
           andthen (case keeperVolumeClaimTemplate k of
                None \<Rightarrow> ret ()
              | Some current \<Rightarrow>
                  bind (resolveKeeperStorage c keeper) (\<lambda>(sz, cls).
                    storageChange c ComponentKeeper (LabelCHKName, keeperCRName (ctx_name c)) current sz cls))
             (lift_result (downgrade c ''keeper cannot be downgraded from %s to %s'' (currentKeeperImage k)
               (resolveImage c ComponentKeeper keeper))))))"

section \<open>Static checks\<close>

definition require :: "bool \<Rightarrow> string \<Rightarrow> err + unit" where
  "require ok message = (if ok then Inr () else Inl (Errorf message []))"

fun firstError :: "(err + unit) list \<Rightarrow> err + unit" where
  "firstError [] = Inr ()"
| "firstError (r # rs) = (case r of Inl e \<Rightarrow> Inl e | Inr _ \<Rightarrow> firstError rs)"

definition validateRequestsWithinLimits :: "string \<Rightarrow> resources \<Rightarrow> err + unit" where
  "validateRequestsWithinLimits what r =
     firstError (map (\<lambda>name. if qty0 (requests r) name > qty0 (limits r) name
        then Inl (Errorf ''%s %s request %s exceeds its limit %s''
               [AStr what, AStr name, AInt (qty0 (requests r) name), AInt (qty0 (limits r) name)])
        else Inr ()) [''cpu'', ''memory''])"

definition validateCredentials :: "('s, 'w) ctx \<Rightarrow> ('s, 'w, unit) act" where
  "validateCredentials c =
     (let name = credentialsSecretName (ctx_name c) in
      andthen (case inst_user_secret_ref (ctx_instance c) of
          None \<Rightarrow> ret ()
        | Some ref \<Rightarrow>
            bind (getOptional ref (get_secret c ref)) (\<lambda>found. case found of
              None \<Rightarrow> ret ()
            | Some src \<Rightarrow>
                wrap_err (\<lambda>e. Errorf ''spec.userSecretRef secret %s: %w'' [AStr ref, AErr e])
                  (lift_result (validateUserSecretData (secret_data src)))))
       (bind (getOptional name (get_secret c name)) (\<lambda>found. case found of
          None \<Rightarrow> ret ()
        | Some current \<Rightarrow>
            wrap_err (\<lambda>e. Errorf ''credentials secret %s: %w'' [AStr (secret_name current), AErr e])
              (lift_result (validateUserSecretData (secret_data current))))))"

definition validateKeeper :: "('s, 'w) ctx \<Rightarrow> err + unit" where
  "validateKeeper c =
     (case map_of (inst_components (ctx_instance c)) ComponentKeeper of
        None \<Rightarrow> Inr ()
      | Some keeper \<Rightarrow>
          if \<not> replicated c then
            Inl (Errorf ''the %s component is only used by the %s topology'' [AStr ComponentKeeper, AStr TopologyReplicated])
          else if (case comp_replicas keeper of None \<Rightarrow> False | Some n \<Rightarrow> n \<noteq> KeeperReplicas) then
            Inl (Errorf ''keeper runs %d replicas; its size cannot be changed'' [AInt KeeperReplicas])
          else validateRequestsWithinLimits ComponentKeeper (resolveKeeperResources c keeper))"

definition ownedSettings :: "string list" where
  "ownedSettings = [''http_port'', ''tcp_port'', ''https_port'', ''tcp_port_secure'', ''interserver_http_port'',
     ''interserver_https_port'', ''prometheus/port'', ''prometheus/endpoint'']"

definition ownedSettingPrefixes :: "string list" where
  "ownedSettingPrefixes = [''openSSL/'', ''zookeeper/'', ''remote_servers/'', ''macros/'', ''interserver_http_credentials/'']"

definition ownedName :: "string \<Rightarrow> bool" where
  "ownedName name =
     (name \<in> set ownedSettings \<or>
      list_ex (\<lambda>prefix. has_prefix name prefix \<or> name = trim_suffix prefix ''/'') ownedSettingPrefixes)"

definition validateConfiguration :: "('s, 'w) ctx \<Rightarrow> string \<Rightarrow> err + unit" where
  "validateConfiguration c configuration =
     (let cfg = trim_space configuration; L = settings_lib_of c in
      if cfg = [] then Inr ()
      else case parse_settings L cfg of
             None \<Rightarrow> Inl (Errorf ''engine configuration is not valid YAML: %w'' [AErr (LibErr ''yaml'')])
           | Some settings \<Rightarrow>
               (let owned = filter ownedName (setting_names L settings)
                in if owned \<noteq> [] then
                     Inl (Errorf ''engine configuration must not set %s: managed by the provider''
                            [AStr (join_with '', '' owned)])
                   else Inr ()))"

text \<open>A limit that is set to a value other than zero must reach the minimum.\<close>

definition minimumLimit :: "component_spec \<Rightarrow> string \<Rightarrow> quantity \<Rightarrow> bool" where
  "minimumLimit engine name least =
     (case comp_resources engine of
        None \<Rightarrow> True
      | Some r \<Rightarrow> qty0 (limits r) name = 0 \<or> least \<le> qty0 (limits r) name)"

text \<open>The checks up to the credentials, in order.\<close>

definition staticChecks :: "('s, 'w) ctx \<Rightarrow> component_spec \<Rightarrow> err + unit" where
  "staticChecks c engine =
     (let params = engine_parameters c;
          reclaim = par_reclaim_policy params
      in firstError
          [require (minimumLimit engine ''cpu'' (must_parse c ''1'')) ''engine CPU limit must be at least 1 core'',
           require (minimumLimit engine ''memory'' (must_parse c ''1Gi'')) ''engine memory limit must be at least 1Gi'',
           validateRequestsWithinLimits ComponentEngine (resolveResources c engine),
           require (\<not> (replicated c \<and> (case comp_replicas engine of None \<Rightarrow> False | Some n \<Rightarrow> n < 2)))
             ''replicated topology requires at least 2 engine replicas'',
           require (reclaim = [] \<or> equal_fold reclaim StorageReclaimPolicyRetain \<or> equal_fold reclaim StorageReclaimPolicyDelete)
             ''engine storageReclaimPolicy must be one of Retain or Delete'',
           require (case par_tls params of None \<Rightarrow> True
               | Some t \<Rightarrow> tls_mode_value t = [] \<or> equal_fold (tls_mode_value t) TLSModeRequired \<or>
                   equal_fold (tls_mode_value t) TLSModeOptional)
             ''engine tls.mode must be one of required or optional'',
           (if \<not> replicated c \<and> (case comp_replicas engine of None \<Rightarrow> False | Some n \<Rightarrow> n > 1)
            then Inl (Errorf ''the %s topology runs a single replica; use the %s topology for more''
                   [AStr TopologyStandalone, AStr TopologyReplicated])
            else Inr ()),
           validateConfiguration c (par_configuration params),
           validateKeeper c])"

definition validService :: "component_spec \<Rightarrow> bool" where
  "validService engine =
     (case comp_service engine of
        None \<Rightarrow> True
      | Some s \<Rightarrow> service_type s \<in> {[], ''ClusterIP'', ''LoadBalancer'', ''NodePort''})"

definition Validate :: "('s, 'w) ctx \<Rightarrow> ('s, 'w, unit) act" where
  "Validate c =
     (case map_of (inst_components (ctx_instance c)) ComponentEngine of
        None \<Rightarrow> throw (Errorf ''engine component is required'' [])
      | Some engine \<Rightarrow>
          andthen (lift_result (staticChecks c engine))
          (andthen (validateCredentials c)
          (andthen (lift_result (require (validService engine)
              ''engine service.serviceType must be one of ClusterIP, LoadBalancer or NodePort''))
          (andthen (validateKeeperTransitions c)
          (validateTransitions c engine)))))"

section \<open>Lemmas\<close>

lemma equalStorageClass_iff [simp]: "equalStorageClass a b \<longleftrightarrow> a = b"
  by (auto simp: equalStorageClass_def split: option.splits)

lemma require_Inr [simp]: "require b m = Inr u \<longleftrightarrow> b"
  by (simp add: require_def)

lemma require_True [simp]: "require True m = Inr ()"
  by (simp add: require_def)

lemma firstError_Inr [simp]: "firstError rs = Inr u \<longleftrightarrow> list_all (\<lambda>r. r = Inr ()) rs"
  by (induction rs) (auto split: sum.splits)

lemma storageChange_Inr:
  "result (storageChange c what sel current sz cls) w = Inr u \<Longrightarrow>
     vct_storage_class current = cls \<and> (\<forall>now. vct_storage_request current = Some now \<longrightarrow> now \<le> sz)"
  by (auto simp: storageChange_def andthen_Inr split: option.splits if_splits simp del: andthen_run)

lemma downgrade_Inr:
  "downgrade c m running wanted = Inr u \<Longrightarrow> imageVersion c running = Some now \<Longrightarrow> wanted = Inr img \<Longrightarrow>
     imageVersion c img = Some v \<Longrightarrow> \<not> compareSegments v now < 0"
  by (auto simp: downgrade_def split: if_splits)

lemma validateRequestsWithinLimits_Inr:
  "validateRequestsWithinLimits what r = Inr u \<longleftrightarrow>
     qty0 (requests r) ''cpu'' \<le> qty0 (limits r) ''cpu'' \<and> qty0 (requests r) ''memory'' \<le> qty0 (limits r) ''memory''"
  by (auto simp: validateRequestsWithinLimits_def split: if_splits)

lemma default_requests: "qty0 (requests (resourceRequirements None cpu mem)) name \<le> qty0 (limits (resourceRequirements None cpu mem)) name"
  by (simp add: requests_within_limits_iff)

lemma emits_expandableClasses [emits_rules]:
  "(\<And>n r. P (GotStorageClass n r)) \<Longrightarrow> emits P (expandableClasses c what ps checked)"
  by (induction ps arbitrary: checked) (auto intro!: emits_rules split: option.splits)

lemma emits_storageChange [emits_rules]:
  "(\<And>n r. P (GotStorageClass n r)) \<Longrightarrow> (\<And>r. P (ListedPVCs sel r)) \<Longrightarrow> emits P (storageChange c what sel current sz cls)"
  unfolding storageChange_def validateExpandable_def by (intro emits_rules)

lemma emits_validateStorageTransition [emits_rules]:
  "(\<And>n r. P (GotStorageClass n r)) \<Longrightarrow> (\<And>sel r. P (ListedPVCs sel r)) \<Longrightarrow> emits P (validateStorageTransition c x engine)"
  unfolding validateStorageTransition_def Let_def by (intro emits_rules)

lemma emits_isReplicated [emits_rules]: "(\<And>k n r. P (Checked k n r)) \<Longrightarrow> emits P (isReplicated c x)"
  unfolding isReplicated_def by (intro emits_rules)

lemma emits_validateKeeperTransitions [emits_rules]:
  "(\<And>n r. P (GotCHK n r)) \<Longrightarrow> (\<And>n r. P (GotStorageClass n r)) \<Longrightarrow> (\<And>sel r. P (ListedPVCs sel r)) \<Longrightarrow>
     emits P (validateKeeperTransitions c)"
  unfolding validateKeeperTransitions_def Let_def by (intro emits_rules)

lemma emits_validateCredentials [emits_rules]: "(\<And>n r. P (GotSecret n r)) \<Longrightarrow> emits P (validateCredentials c)"
  unfolding validateCredentials_def Let_def by (intro emits_rules)

text \<open>An accepted Instance passed every part of \<open>Validate\<close>.\<close>

lemma Validate_Inr:
  assumes "result (Validate c) w = Inr ()"
  obtains engine wc wk wt where "map_of (inst_components (ctx_instance c)) ComponentEngine = Some engine"
    and "component c ComponentEngine = engine" and "staticChecks c engine = Inr ()"
    and "result (validateCredentials c) wc = Inr ()" and "validService engine"
    and "result (validateKeeperTransitions c) wk = Inr ()" and "result (validateTransitions c engine) wt = Inr ()"
    and "\<And>n r. GotCHI n r \<in> set (events (Validate c) w) \<Longrightarrow> GotCHI n r \<in> set (events (validateTransitions c engine) wt)"
    and "set (events (validateKeeperTransitions c) wk) \<subseteq> set (events (Validate c) w)"
proof -
  from assms obtain engine where e: "map_of (inst_components (ctx_instance c)) ComponentEngine = Some engine"
    by (auto simp: Validate_def split: option.splits)
  let ?wk = "world (validateCredentials c) w"
  let ?wt = "world (validateKeeperTransitions c) ?wk"
  have comp: "component c ComponentEngine = engine" using e by (simp add: component_def)
  have parts: "staticChecks c engine = Inr ()" "result (validateCredentials c) w = Inr ()" "validService engine"
    "result (validateKeeperTransitions c) ?wk = Inr ()" "result (validateTransitions c engine) ?wt = Inr ()"
    using assms e by (simp_all add: Validate_def andthen_Inr del: andthen_run)
  have evs: "events (Validate c) w = events (validateCredentials c) w @ events (validateKeeperTransitions c) ?wk @
      events (validateTransitions c engine) ?wt"
    using parts by (simp add: Validate_def e andthen_run)
  have "emits (\<lambda>e. \<forall>n r. e \<noteq> GotCHI n r) (validateCredentials c)"
    "emits (\<lambda>e. \<forall>n r. e \<noteq> GotCHI n r) (validateKeeperTransitions c)"
    by (intro emits_rules; simp)+
  then have "GotCHI n r \<in> set (events (Validate c) w) \<Longrightarrow> GotCHI n r \<in> set (events (validateTransitions c engine) ?wt)" for n r
    by (auto simp: evs dest: emitsD)
  then show ?thesis
    using evs by (intro that [OF e comp parts]) auto
qed

section \<open>Properties\<close>

lemma accepted_engine_change:
  assumes "result (Validate c) w = Inr ()" and "GotCHI (ctx_name c) (Inr x) \<in> set (events (Validate c) w)"
  shows "(\<forall>current. dataVolumeClaimTemplate x = Some current \<longrightarrow>
       vct_storage_class current = snd (resolveStorage c (component c ComponentEngine)) \<and>
       (\<forall>now. vct_storage_request current = Some now \<longrightarrow> now \<le> fst (resolveStorage c (component c ComponentEngine)))) \<and>
     (\<forall>now img v. imageVersion c (currentEngineImage x) = Some now \<longrightarrow>
        resolveImage c ComponentEngine (component c ComponentEngine) = Inr img \<longrightarrow> imageVersion c img = Some v \<longrightarrow>
        \<not> compareSegments v now < 0) \<and>
     (\<not> replicated c \<longrightarrow> (case chi_configuration (chi_spec_of x) of None \<Rightarrow> True | Some conf \<Rightarrow> chi_zookeeper conf = None))"
  using assms(1)
proof (rule Validate_Inr)
  fix engine wt
  assume comp: "component c ComponentEngine = engine" and ok: "result (validateTransitions c engine) wt = Inr ()"
    and ev: "\<And>n r. GotCHI n r \<in> set (events (Validate c) w) \<Longrightarrow> GotCHI n r \<in> set (events (validateTransitions c engine) wt)"
  have "emits (\<lambda>e. \<forall>n r. e \<noteq> GotCHI n r) (validateStorageTransition c y engine)"
    "emits (\<lambda>e. \<forall>n r. e \<noteq> GotCHI n r) (if replicated c then ret False else isReplicated c y)" for y
    by (intro emits_rules; simp)+
  then have quiet: "GotCHI n r \<notin> set (events (validateStorageTransition c y engine) v)"
    "GotCHI n r \<notin> set (events (if replicated c then ret False else isReplicated c y) v)" for n r y v
    by (blast dest: emitsD)+
  have x: "fst (api_get_chi c (ctx_name c) wt) = Inr x"
    using assms(2) [THEN ev] quiet
    by (auto simp: validateTransitions_def in_events get_chi_def split: sum.splits api_error.splits if_splits)
  let ?was = "if replicated c then ret False else isReplicated c x"
  from ok x have was: "result ?was (world (get_chi c (ctx_name c)) wt) = Inr False"
    and storage: "result (validateStorageTransition c x engine) (world ?was (world (get_chi c (ctx_name c)) wt)) = Inr ()"
    and version: "validateVersionTransition c x engine = Inr ()"
    by (auto simp: validateTransitions_def returns get_chi_def split: if_splits)
  have "vct_storage_class current = snd (resolveStorage c engine) \<and>
      (\<forall>now. vct_storage_request current = Some now \<longrightarrow> now \<le> fst (resolveStorage c engine))"
    if "dataVolumeClaimTemplate x = Some current" for current
    using storage that
    by (auto simp: validateStorageTransition_def Let_def case_prod_beta dest: storageChange_Inr)
  moreover have "\<not> compareSegments v now < 0" if "imageVersion c (currentEngineImage x) = Some now"
    "resolveImage c ComponentEngine engine = Inr img" "imageVersion c img = Some v" for now img v
    using downgrade_Inr [OF version [unfolded validateVersionTransition_def] that] .
  moreover have "\<not> replicated c \<longrightarrow> (case chi_configuration (chi_spec_of x) of None \<Rightarrow> True | Some conf \<Rightarrow> chi_zookeeper conf = None)"
    using was by (auto simp: isReplicated_def split: option.splits if_splits)
  ultimately show ?thesis by (simp add: comp)
qed

text \<open>The sample Instance over a deployed, slightly smaller and older cluster.\<close>

definition deployed_chi :: "setting table chi" where
  "deployed_chi = \<lparr>chi_name = ''db'',
     chi_spec_of = \<lparr>chi_task_id = None, chi_configuration = None,
       chi_templates = Some (no_templates\<lparr>
         pod_templates := [\<lparr>pt_name = ''default'', pt_labels = [], pt_annotations = [],
           pt_spec = \<lparr>pod_containers = [\<lparr>ctr_name = ''clickhouse'', ctr_image = ''repo:24.8.1'', ctr_ports = [],
               ctr_resources = \<lparr>limits = [], requests = []\<rparr>\<rparr>],
             pod_spread = [], pod_affinity_rules = None, pod_scheduler_name = [], pod_node_selector = [],
             pod_tolerations = []\<rparr>\<rparr>],
         volume_claim_templates := [\<lparr>vct_name = ''data'', vct_reclaim_policy = ''Retain'',
           vct_access_modes = [''ReadWriteOnce''], vct_storage_request = Some 26843545600000, vct_storage_class = None\<rparr>]\<rparr>),
       chi_defaults = None\<rparr>,
     chi_status = None\<rparr>"

definition deployed_cluster :: cluster where
  "deployed_cluster = empty_cluster\<lparr>cl_chi := [(''db'', deployed_chi)]\<rparr>"

lemma sample_engine: "map_of (inst_components sample_instance) ComponentEngine = Some zero_component"
  "map_of (inst_components sample_instance) ComponentKeeper = None"
  "inst_user_secret_ref sample_instance = None" "component (sample_ctx p) n = zero_component"
  "replicated (sample_ctx p)"
  by (simp_all add: sample_instance_def constants component_def zero_component_def replicated_def)

lemma sample_static: "staticChecks (sample_ctx sample_parameters) zero_component = Inr ()"
  by (simp add: staticChecks_def minimumLimit_def validateRequestsWithinLimits_Inr resolveResources_def default_requests
      zero_component_def engine_parameters_def sample_parameters_def validateConfiguration_def trim_space_def
      validateKeeper_def sample_engine Let_def del: firstError.simps)

lemma sample_get_chi:
  "get_chi (sample_ctx p) ''db'' deployed_cluster = (Inr (Inr deployed_chi), deployed_cluster, [GotCHI ''db'' (Inr deployed_chi)])"
  by (simp add: get_chi_def call_def lookup_in_def deployed_cluster_def)

lemma sample_credentials_valid:
  "result (validateCredentials (sample_ctx p)) deployed_cluster = Inr ()"
  "world (validateCredentials (sample_ctx p)) deployed_cluster = deployed_cluster"
  by (simp_all add: validateCredentials_def sample_engine run_simps get_secret_def lookup_in_def deployed_cluster_def
      empty_cluster_def Let_def)

lemma sample_keeper_transition:
  "result (validateKeeperTransitions (sample_ctx p)) deployed_cluster = Inr ()"
  "world (validateKeeperTransitions (sample_ctx p)) deployed_cluster = deployed_cluster"
  by (simp_all add: validateKeeperTransitions_def sample_engine run_simps get_chk_def lookup_in_def deployed_cluster_def
      empty_cluster_def)

lemma deployed_versions: "imageVersion (sample_ctx p) ''repo:24.8.1'' = Some \<lparr>ver_original = ''24.8.1'', ver_segments = [24, 8, 1]\<rparr>"
  "imageVersion (sample_ctx p) ''engine:25.3.5'' = Some \<lparr>ver_original = ''25.3.5'', ver_segments = [25, 3, 5]\<rparr>"
  by (simp_all add: imageVersion_def last_index_of_def)

lemma sample_version: "validateVersionTransition (sample_ctx p) deployed_chi zero_component = Inr ()"
proof -
  have "currentEngineImage deployed_chi = ''repo:24.8.1''"
    by (simp add: currentEngineImage_def templateImage_def deployed_chi_def no_templates_def constants)
  moreover have "resolveImage (sample_ctx p) ComponentEngine zero_component = Inr ''engine:25.3.5''"
    by (simp add: resolveImage_def zero_component_def bundled_version_def sample_provider_def constants)
  ultimately show ?thesis
    by (simp add: validateVersionTransition_def downgrade_def deployed_versions compareSegments_def)
qed

lemma sample_storage: "result (validateStorageTransition (sample_ctx p) deployed_chi zero_component) w = Inr ()"
  by (simp add: validateStorageTransition_def dataVolumeClaimTemplate_def find_volume_claim_template_def deployed_chi_def
      no_templates_def constants resolveStorage_def zero_component_def sim_quantity_def storageChange_def run_simps)

lemma sample_transitions: "result (validateTransitions (sample_ctx p) zero_component) deployed_cluster = Inr ()"
  "GotCHI ''db'' (Inr deployed_chi) \<in> set (events (validateTransitions (sample_ctx p) zero_component) deployed_cluster)"
  using sample_get_chi [of p]
  by (simp_all add: validateTransitions_def run_simps sample_engine sample_storage sample_version result_def [of "get_chi _ _"]
      world_def [of "get_chi _ _"] events_def [of "get_chi _ _"])

lemma sample_service: "validService zero_component"
  by (simp add: validService_def zero_component_def)

lemma sample_accepted:
  "result (Validate (sample_ctx sample_parameters)) deployed_cluster = Inr ()"
  "GotCHI ''db'' (Inr deployed_chi) \<in> set (events (Validate (sample_ctx sample_parameters)) deployed_cluster)"
  using sample_transitions [of sample_parameters]
  by (simp_all add: Validate_def sample_engine andthen_run sample_static sample_credentials_valid sample_keeper_transition
      sample_service)

lemma staticChecks_Inr:
  assumes "staticChecks c engine = Inr ()"
  shows "validateRequestsWithinLimits ComponentEngine (resolveResources c engine) = Inr ()"
    and "replicated c \<Longrightarrow> comp_replicas engine = Some n \<Longrightarrow> 2 \<le> n"
    and "\<not> replicated c \<Longrightarrow> comp_replicas engine = Some n \<Longrightarrow> n \<le> 1"
    and "validateConfiguration c (par_configuration (engine_parameters c)) = Inr ()"
    and "validateKeeper c = Inr ()"
  using assms unfolding staticChecks_def Let_def firstError_Inr
  by (auto split: if_splits)

lemma keeper_requests:
  assumes "validateKeeper c = Inr ()"
  shows "validateRequestsWithinLimits ComponentKeeper (resolveKeeperResources c (component c ComponentKeeper)) = Inr ()"
proof (cases "map_of (inst_components (ctx_instance c)) ComponentKeeper")
  case None
  then show ?thesis
    by (simp add: component_def validateRequestsWithinLimits_Inr resolveKeeperResources_def zero_component_def default_requests)
next
  case (Some k)
  with assms show ?thesis by (simp add: component_def validateKeeper_def split: if_splits)
qed

lemma validateConfiguration_Inr:
  "validateConfiguration c cfg = Inr u \<longleftrightarrow> trim_space cfg = [] \<or>
     (\<exists>s. parse_settings (settings_lib_of c) (trim_space cfg) = Some s \<and>
        filter ownedName (setting_names (settings_lib_of c) s) = [])"
  by (auto simp: validateConfiguration_def Let_def split: option.splits)



lemma expandableClasses_Inr:
  "result (expandableClasses c what ps checked) w = Inr u \<Longrightarrow> p \<in> set ps \<Longrightarrow> pvc_storage_class p = Some name \<Longrightarrow>
     name \<notin> set checked \<Longrightarrow>
     \<exists>answer. GotStorageClass name answer \<in> set (events (expandableClasses c what ps checked) w) \<and>
       (case answer of Inl e \<Rightarrow> e = NotFound | Inr cls \<Rightarrow> allow_volume_expansion cls = Some True)"
proof (induction ps arbitrary: checked w)
  case (Cons q ps)
  show ?case
  proof (cases "pvc_storage_class q = None \<or> (\<exists>n. pvc_storage_class q = Some n \<and> n \<in> set checked)")
    case True
    with Cons show ?thesis by (cases "p = q") auto
  next
    case False
    then obtain n where n: "pvc_storage_class q = Some n" "n \<notin> set checked" by auto
    let ?r = "fst (api_get_storage_class c n w)" and ?w = "snd (api_get_storage_class c n w)"
    from Cons.prems(1) n have ok: "case ?r of Inl e \<Rightarrow> e = NotFound | Inr cls \<Rightarrow> allow_volume_expansion cls = Some True"
      and rest: "result (expandableClasses c what ps (n # checked)) ?w = Inr u"
      by (auto simp: get_storage_class_def bind_Inr split: sum.splits api_error.splits if_splits)
    have ev: "events (expandableClasses c what (q # ps) checked) w =
        GotStorageClass n ?r # events (expandableClasses c what ps (n # checked)) ?w"
      using n ok by (auto simp: get_storage_class_def events_bind split: sum.splits)
    show ?thesis
    proof (cases "name = n")
      case True
      then show ?thesis using ok ev by auto
    next
      case False
      with Cons.prems n have "p \<in> set ps" "name \<notin> set (n # checked)" by auto
      with Cons.IH [OF rest] Cons.prems(3) ev show ?thesis by auto
    qed
  qed
qed simp


definition data_pvc :: pvc where
  "data_pvc = \<lparr>pvc_name = ''data-0'', pvc_labels = [(''clickhouse.altinity.com/chi'', ''db'')], pvc_storage_class = Some ''fast''\<rparr>"


text \<open>The version of an image is that of its tag: a registry port is not taken for a tag, and a
  digest after the tag is ignored.\<close>

lemma imageVersion_reads_tag:
  assumes "CHR ''@'' \<notin> set repo" and "CHR ''@'' \<notin> set tag" and "CHR '':'' \<notin> set tag" and "CHR ''/'' \<notin> set tag"
    and "CHR '':'' \<notin> set path" and "CHR ''@'' \<notin> set path"
  shows "imageVersion c (repo @ '':'' @ tag) = parse_version c tag \<and>
     imageVersion c (repo @ '':'' @ tag @ ''@'' @ digest) = parse_version c tag \<and>
     imageVersion c (repo @ '':5000/'' @ path) = None"
proof -
  have at: "index_of (CHR ''@'') (repo @ CHR '':'' # tag) = None"
    "index_of (CHR ''@'') (repo @ CHR '':'' # CHR ''5'' # CHR ''0'' # CHR ''0'' # CHR ''0'' # CHR ''/'' # path) = None"
    using assms by simp_all
  have last: "last_index_of (CHR '':'') (repo @ CHR '':'' # tag) = Some (length repo)"
    "last_index_of (CHR '':'') (repo @ CHR '':'' # CHR ''5'' # CHR ''0'' # CHR ''0'' # CHR ''0'' # CHR ''/'' # path) = Some (length repo)"
    using assms by (intro last_index_of_append; simp)+
  have "index_of (CHR ''@'') ((repo @ CHR '':'' # tag) @ CHR ''@'' # digest) = Some (length (repo @ CHR '':'' # tag))"
    using assms by (intro index_of_append) simp
  then have dig: "index_of (CHR ''@'') (repo @ CHR '':'' # tag @ CHR ''@'' # digest) = Some (Suc (length repo + length tag))"
    by simp
  show ?thesis
    using assms(4) by (simp add: imageVersion_def at last dig)
qed

lemma compareSegs_antisym: "compareSegs as bs = - compareSegs bs as"
  by (induction as bs rule: compareSegs.induct) auto

lemma compareSegs_trans:
  "length as = length bs \<Longrightarrow> length bs = length cs \<Longrightarrow> \<not> compareSegs bs as < 0 \<Longrightarrow> \<not> compareSegs cs bs < 0 \<Longrightarrow>
     \<not> compareSegs cs as < 0"
proof (induction as bs arbitrary: cs rule: list_induct2')
  case (4 a as b bs)
  then obtain d ds where cs: "cs = d # ds" by (cases cs) auto
  from 4(2-) 4(1) [of ds] show ?case by (simp add: cs split: if_splits)
qed auto

lemma downgrade_through_shorter_tag:
  "\<not> compareSegs [25, 3, 5] [25, 3, 5, 42] < 0" "\<not> compareSegs [25, 3, 5, 1] [25, 3, 5] < 0"
  "compareSegs [25, 3, 5, 1] [25, 3, 5, 42] < 0"
  by simp_all



lemma accepted_keeper_change:
  assumes "result (Validate c) w = Inr ()" and "replicated c"
  shows "\<exists>answer. GotCHK (keeperCRName (ctx_name c)) answer \<in> set (events (Validate c) w) \<and>
     (case answer of
        Inl e \<Rightarrow> e = NotFound
      | Inr k \<Rightarrow>
          (\<forall>current now. keeperVolumeClaimTemplate k = Some current \<longrightarrow> vct_storage_request current = Some now \<longrightarrow>
             (\<exists>v sz cls. result (resolveKeeperStorage c (component c ComponentKeeper)) v = Inr (sz, cls) \<and>
                now \<le> sz \<and> vct_storage_class current = cls)) \<and>
          (\<forall>now img v. imageVersion c (currentKeeperImage k) = Some now \<longrightarrow>
             resolveImage c ComponentKeeper (component c ComponentKeeper) = Inr img \<longrightarrow> imageVersion c img = Some v \<longrightarrow>
             \<not> compareSegments v now < 0))"
  using assms(1)
proof (rule Validate_Inr)
  fix wk
  assume ok: "result (validateKeeperTransitions c) wk = Inr ()"
    and sub: "set (events (validateKeeperTransitions c) wk) \<subseteq> set (events (Validate c) w)"
  let ?r = "fst (api_get_chk c (keeperCRName (ctx_name c)) wk)"
  have ev: "GotCHK (keeperCRName (ctx_name c)) ?r \<in> set (events (Validate c) w)"
    using sub assms(2) by (auto simp: validateKeeperTransitions_def in_events get_chk_def)
  show ?thesis
  proof (cases ?r)
    case (Inl e)
    with ok assms(2) have "e = NotFound"
      by (cases e) (auto simp: validateKeeperTransitions_def get_chk_def bind_Inr)
    with ev Inl show ?thesis by (intro exI [of _ ?r]) simp
  next
    case (Inr k)
    let ?st = "case keeperVolumeClaimTemplate k of None \<Rightarrow> ret () | Some current \<Rightarrow>
        bind (resolveKeeperStorage c (component c ComponentKeeper)) (\<lambda>(sz, cls).
          storageChange c ComponentKeeper (LabelCHKName, keeperCRName (ctx_name c)) current sz cls)"
    from ok assms(2) Inr have st: "result ?st (snd (api_get_chk c (keeperCRName (ctx_name c)) wk)) = Inr ()"
      and ver: "downgrade c ''keeper cannot be downgraded from %s to %s'' (currentKeeperImage k)
               (resolveImage c ComponentKeeper (component c ComponentKeeper)) = Inr ()"
      by (auto simp: validateKeeperTransitions_def get_chk_def returns Let_def)
    have "\<exists>v sz cls. result (resolveKeeperStorage c (component c ComponentKeeper)) v = Inr (sz, cls) \<and>
        now \<le> sz \<and> vct_storage_class current = cls"
      if "keeperVolumeClaimTemplate k = Some current" "vct_storage_request current = Some now" for current now
      using st that by (fastforce simp: bind_Inr dest: storageChange_Inr)
    then show ?thesis
      using ev Inr downgrade_Inr [OF ver] by (intro exI [of _ ?r]) auto
  qed
qed



end
