(* ===== verification/Registration.thy ===== *)
theory Registration
  imports Failures Validate
begin

text \<open>
  What the provider registers with its runtime (\<^verbatim>\<open>New\<close> in \<^verbatim>\<open>provider.go\<close>): the kinds it knows and the watches
  that wake it; and the permissions its manifests ask for (the markers of \<^verbatim>\<open>rbac.go\<close>). The properties tie
  both to what the operations do.
\<close>

section \<open>The provider\<close>

text \<open>
  \<open>WatchOwned\<close> wakes the owner of an object whose labels pass the predicate, if there is one;
  \<open>WatchServices\<close> is \<^verbatim>\<open>WatchExternal\<close> of Services with a map function and an event predicate.
\<close>

datatype watch_config =
    WatchOwned kind "(labels \<Rightarrow> bool) option"
  | WatchServices "service \<Rightarrow> (string \<times> string) list" "watch_event \<Rightarrow> bool"

record provider =
  provider_name :: string
  provider_schemes :: "string list"
  provider_watches :: "watch_config list"

text \<open>\<^verbatim>\<open>controller.ProviderLabel\<close> is the argument; a scheme is named by its API group.\<close>

definition New :: "string \<Rightarrow> provider" where
  "New providerLabel =
     \<lparr>provider_name = ProviderName,
      provider_schemes = [''clickhouse.altinity.com'', ''clickhouse-keeper.altinity.com'', ''monitoring.coreos.com'',
        ''cert-manager.io'', ''networking.k8s.io'', ''storage.k8s.io''],
      provider_watches =
        [WatchOwned KCHI None, WatchOwned KCHK None,
         WatchOwned KSecret (Some (\<lambda>ls. get0 ls providerLabel = ProviderName)),
         WatchOwned KPolicy None,
         WatchServices instanceForClientService loadBalancerAddressChanged]\<rparr>"

text \<open>
  The documented behaviour of \<^verbatim>\<open>EnqueueRequestsFromMapFunc\<close> behind a predicate: an accepted event wakes what
  the function maps its objects to, the old and the new one of an update.
\<close>

fun event_services :: "watch_event \<Rightarrow> service list" where
  "event_services (CreateEvent x) = (case x of None \<Rightarrow> [] | Some svc \<Rightarrow> [svc])"
| "event_services (UpdateEvent x y) =
     (case x of None \<Rightarrow> [] | Some svc \<Rightarrow> [svc]) @ (case y of None \<Rightarrow> [] | Some svc \<Rightarrow> [svc])"
| "event_services _ = []"

fun woken_by :: "watch_config \<Rightarrow> watch_event \<Rightarrow> (string \<times> string) list" where
  "woken_by (WatchOwned k p) ev = []"
| "woken_by (WatchServices f p) ev = (if p ev then concat (map f (event_services ev)) else [])"

definition woken :: "provider \<Rightarrow> watch_event \<Rightarrow> (string \<times> string) list" where
  "woken p ev = concat (map (\<lambda>w. woken_by w ev) (provider_watches p))"

lemma woken_New: "woken (New l) ev =
    (if loadBalancerAddressChanged ev then concat (map instanceForClientService (event_services ev)) else [])"
  by (simp add: woken_def New_def)

lemma instanceForClientService_member:
  "(ns, n) \<in> set (instanceForClientService svc) \<longleftrightarrow>
     n \<noteq> [] \<and> svc_namespace svc = ns \<and> svc_name svc = clientServiceName n \<and>
     get0 (svc_labels svc) LabelCHIName = n \<and> get0 (svc_labels svc) labelOperatorService = operatorServiceCR"
  by (auto simp: instanceForClientService_def Let_def)

text \<open>The addresses a reconcile puts into the certificate, from the Service it reads.\<close>

definition serviceAddresses :: "service \<Rightarrow> string list \<times> string list" where
  "serviceAddresses svc =
     (if svc_type svc \<noteq> ''LoadBalancer'' then ([], [])
      else (filter (\<lambda>h. h \<noteq> []) (map ing_hostname (svc_lb_ingress svc)),
            filter (\<lambda>i. i \<noteq> []) (map ing_ip (svc_lb_ingress svc))))"

lemma externalAddresses_read:
  "fst (api_get_service c (clientServiceName (ctx_name c)) w) = Inr svc \<Longrightarrow>
     result (externalAddresses c) w = Inr (serviceAddresses svc)"
  by (auto simp: externalAddresses_def serviceAddresses_def get_service_def run_simps)

section \<open>Permissions\<close>

record rbac_marker =
  rbac_group :: string
  rbac_resource :: string
  rbac_verbs :: "string list"

definition readVerbs :: "string list" where "readVerbs = [''get'', ''list'', ''watch'']"

definition manageVerbs :: "string list" where
  "manageVerbs = readVerbs @ [''create'', ''update'', ''patch'', ''delete'']"

definition rbacMarkers :: "rbac_marker list" where
  "rbacMarkers = map (\<lambda>(g, r, vs). \<lparr>rbac_group = g, rbac_resource = r, rbac_verbs = vs\<rparr>)
     [(''core.openeverest.io'', ''instances'', readVerbs @ [''update'', ''patch'']),
      (''core.openeverest.io'', ''instances/status'', [''get'', ''update'', ''patch'']),
      (''core.openeverest.io'', ''instances/finalizers'', [''update'']),
      (''core.openeverest.io'', ''providers'', readVerbs),
      (''clickhouse.altinity.com'', ''clickhouseinstallations'', manageVerbs),
      (''clickhouse.altinity.com'', ''clickhouseinstallations/status'', [''get'']),
      (''clickhouse.altinity.com'', ''clickhouseinstallations/finalizers'', [''update'']),
      (''clickhouse-keeper.altinity.com'', ''clickhousekeeperinstallations'', manageVerbs),
      (''clickhouse-keeper.altinity.com'', ''clickhousekeeperinstallations/status'', [''get'']),
      (''clickhouse-keeper.altinity.com'', ''clickhousekeeperinstallations/finalizers'', [''update'']),
      (''monitoring.coreos.com'', ''podmonitors'', manageVerbs),
      (''cert-manager.io'', ''certificates'', manageVerbs),
      (''cert-manager.io'', ''issuers'', manageVerbs),
      (''cert-manager.io'', ''clusterissuers'', readVerbs),
      (''networking.k8s.io'', ''networkpolicies'', manageVerbs),
      ([], ''pods'', readVerbs),
      ([], ''services'', manageVerbs),
      ([], ''endpoints'', readVerbs),
      ([], ''persistentvolumeclaims'', manageVerbs),
      ([], ''configmaps'', manageVerbs),
      ([], ''secrets'', manageVerbs),
      (''apps'', ''statefulsets'', readVerbs),
      (''storage.k8s.io'', ''storageclasses'', readVerbs)]"

definition granted :: "string \<times> string \<Rightarrow> string \<Rightarrow> bool" where
  "granted resource verb =
     list_ex (\<lambda>m. (rbac_group m, rbac_resource m) = resource \<and> verb \<in> set (rbac_verbs m)) rbacMarkers"

text \<open>
  What a call needs. Reads go through the runtime's cache, which lists and watches what it reads;
  objects are applied server-side, which patches and creates.
\<close>

definition kind_resource :: "kind \<Rightarrow> string \<times> string" where
  "kind_resource k = (case k of
       KCHI \<Rightarrow> (''clickhouse.altinity.com'', ''clickhouseinstallations'')
     | KCHK \<Rightarrow> (''clickhouse-keeper.altinity.com'', ''clickhousekeeperinstallations'')
     | KSecret \<Rightarrow> ([], ''secrets'') | KCertificate \<Rightarrow> (''cert-manager.io'', ''certificates'')
     | KIssuer \<Rightarrow> (''cert-manager.io'', ''issuers'') | KPolicy \<Rightarrow> (''networking.k8s.io'', ''networkpolicies'')
     | KPodMonitor \<Rightarrow> (''monitoring.coreos.com'', ''podmonitors'')
     | KPVC \<Rightarrow> ([], ''persistentvolumeclaims'') | KPod \<Rightarrow> ([], ''pods''))"

definition obj_kind :: "'s obj \<Rightarrow> kind" where
  "obj_kind x = (case x of OCHI _ \<Rightarrow> KCHI | OCHK _ \<Rightarrow> KCHK | OSecret _ \<Rightarrow> KSecret | OCertificate _ \<Rightarrow> KCertificate
     | OIssuer _ \<Rightarrow> KIssuer | OPolicy _ \<Rightarrow> KPolicy | OPodMonitor _ \<Rightarrow> KPodMonitor)"

fun call_needs :: "'s event \<Rightarrow> ((string \<times> string) \<times> string list) list" where
  "call_needs (GotCHI n r) = [(kind_resource KCHI, readVerbs)]"
| "call_needs (GotCHK n r) = [(kind_resource KCHK, readVerbs)]"
| "call_needs (GotSecret n r) = [(kind_resource KSecret, readVerbs)]"
| "call_needs (GotService n r) = [(([], ''services''), readVerbs)]"
| "call_needs (GotPolicy n r) = [(kind_resource KPolicy, readVerbs)]"
| "call_needs (GotInstance n r) = [((''core.openeverest.io'', ''instances''), readVerbs)]"
| "call_needs (GotStorageClass n r) = [((''storage.k8s.io'', ''storageclasses''), readVerbs)]"
| "call_needs (Checked k n r) = [(kind_resource k, readVerbs)]"
| "call_needs (ListedPVCs sel r) = [(kind_resource KPVC, readVerbs)]"
| "call_needs (ListedPods sel r) = [(kind_resource KPod, readVerbs)]"
| "call_needs (Applied x r) = [(kind_resource (obj_kind x), [''create'', ''patch''])]"
| "call_needs (Deleted k n r) = [(kind_resource k, [''delete''])]"
| "call_needs (Patched k n ops r) = [(kind_resource k, [''patch''])]"
| "call_needs (Labelled n k v r) = [(kind_resource KPVC, [''patch''])]"
| "call_needs (StatusUpdated i r) = [((''core.openeverest.io'', ''instances/status''), [''update''])]"
| "call_needs _ = []"

text \<open>The runtime registers the core group and its own; every other group is a scheme of the provider.\<close>

definition registered :: "string \<Rightarrow> bool" where
  "registered g = (g \<in> set ([] # ''core.openeverest.io'' # provider_schemes (New [])))"

definition callable :: "'s event \<Rightarrow> bool" where
  "callable e = list_all (\<lambda>(resource, vs). registered (fst resource) \<and> list_all (granted resource) vs) (call_needs e)"

lemma registered_groups: "registered []" "registered ''core.openeverest.io''" "registered ''storage.k8s.io''"
  by (simp_all add: registered_def New_def)

lemma kind_registered: "registered (fst (kind_resource k))"
  by (cases k) (simp_all add: registered_def New_def kind_resource_def)

lemma grantedI:
  "\<lparr>rbac_group = fst x, rbac_resource = snd x, rbac_verbs = vs\<rparr> \<in> set rbacMarkers \<Longrightarrow> list_all (granted x) vs"
  by (force simp: granted_def list_all_iff list_ex_iff)

lemma reads_in_manage: "list_all P manageVerbs \<Longrightarrow> list_all P readVerbs"
  by (simp add: manageVerbs_def)

lemma granted_manage: "k \<noteq> KPod \<Longrightarrow> list_all (granted (kind_resource k)) manageVerbs"
  by (rule grantedI) (cases k; simp add: kind_resource_def rbacMarkers_def)

lemma granted_reads: "list_all (granted (kind_resource k)) readVerbs"
proof (cases "k = KPod")
  case True
  then show ?thesis by (intro grantedI) (simp add: kind_resource_def rbacMarkers_def)
next
  case False
  then show ?thesis by (intro reads_in_manage granted_manage)
qed

lemma granted_others:
  "list_all (granted ([], ''services'')) readVerbs" "list_all (granted (''storage.k8s.io'', ''storageclasses'')) readVerbs"
  "list_all (granted (''core.openeverest.io'', ''instances'')) (readVerbs @ [''update'', ''patch''])"
  "list_all (granted (''core.openeverest.io'', ''instances/status'')) [''get'', ''update'', ''patch'']"
proof -
  show "list_all (granted ([], ''services'')) readVerbs"
    by (intro reads_in_manage grantedI) (simp add: rbacMarkers_def)
qed (intro grantedI; simp add: rbacMarkers_def)+

lemma callable_reads [simp]:
  "callable (GotCHI n r)" "callable (GotCHK n r')" "callable (GotSecret n a)" "callable (GotService n b)"
  "callable (GotPolicy n d)" "callable (GotInstance n e)" "callable (GotStorageClass n f)" "callable (Checked k n g)"
  "callable (ListedPVCs sel h)" "callable (ListedPods sel i)" "callable (StatusUpdated x s)"
  "callable (Randomised m y)" "callable (Requested z b')" "callable (AskedRequested b')" "callable (AskedPending ps)"
  using granted_others by (simp_all add: callable_def kind_registered registered_groups granted_reads)

lemma callable_writes [simp]:
  "k \<noteq> KPod \<Longrightarrow> callable (Deleted k n r)" "k \<noteq> KPod \<Longrightarrow> callable (Patched k n ops r)"
  "callable (Labelled n l v r)" "callable (Applied x r)"
  using granted_manage [of k] granted_manage [of KPVC] granted_manage [of "obj_kind x"]
  by (simp_all add: callable_def kind_registered manageVerbs_def obj_kind_def split: obj.splits)

section \<open>Properties\<close>

text \<open>C26. Every call the provider can make is allowed: whatever the cluster answers, each call of \<open>Validate\<close>,
  \<open>Sync\<close>, \<open>Status\<close> and \<open>Cleanup\<close> is of a kind whose scheme \<open>New\<close> registers, with verbs the RBAC markers grant.\<close>

theorem calls_are_allowed:
  "emits callable (Validate c) \<and> emits callable (Sync c) \<and> emits callable (Status c) \<and> emits callable (Cleanup c)"
proof (intro conjI)
  show "emits callable (Validate c)"
    unfolding Validate_def validateTransitions_def Let_def by (intro emits_rules; simp)
  have status: "emits callable (Status c)" for c :: "('a, 'b) ctx"
    unfolding Status_def servingDetails_def statusFrom_def keeperStatus_def readyStatus_def buildConnectionDetails_def
      readCACert_def readCredentials_def serverCertificateIssued_def Let_def
    by (intro emits_rules; simp)
  then show "emits callable (Status c)" .
  have "emits callable (sync c)"
    unfolding sync_def syncReplicated_def syncStandalone_def preparePair_def buildCHI_def
    by (intro emits_rules; simp)
  then show "emits callable (Sync c)"
    unfolding Sync_def reportStatus_def setPendingMaintenance_def Let_def by (intro emits_rules status; simp)
  show "emits callable (Cleanup c)"
    unfolding Cleanup_def by (intro emits_rules; use tlsResources_kinds in fastforce)
qed

text \<open>C33. A new address wakes the Instance: when an update of its client Service, now a LoadBalancer, changes
  the addresses a reconcile puts into the server certificate, the watch asks for a reconcile of that
  Instance; and no event ever asks for one of an Instance whose client Service it is not about.\<close>

theorem address_change_wakes_instance:
  assumes "result (externalAddresses c) w = Inr before" and "result (externalAddresses c) w' = Inr after"
    and "fst (api_get_service c (clientServiceName (ctx_name c)) w) = Inr old"
    and "fst (api_get_service c (clientServiceName (ctx_name c)) w') = Inr new"
    and "before \<noteq> after" and "svc_type new = ''LoadBalancer''"
    and "svc_type old \<noteq> ''LoadBalancer'' \<longrightarrow> svc_lb_ingress old = []"
    and "svc_name new = clientServiceName (ctx_name c)" and "svc_namespace new = ctx_namespace c" and "ctx_name c \<noteq> []"
    and "get0 (svc_labels new) LabelCHIName = ctx_name c"
    and "get0 (svc_labels new) labelOperatorService = operatorServiceCR"
  shows "(ctx_namespace c, ctx_name c) \<in> set (woken (New l) (UpdateEvent (Some old) (Some new))) \<and>
     (\<forall>ev ns n. (ns, n) \<in> set (woken (New l) ev) \<longrightarrow>
        (\<exists>svc \<in> set (event_services ev). svc_namespace svc = ns \<and> svc_name svc = clientServiceName n))"
proof (intro conjI allI impI)
  have "before = serviceAddresses old" "after = serviceAddresses new"
    using assms(1-4) by (auto dest: externalAddresses_read)
  with assms(5-7) have "svc_lb_ingress old \<noteq> svc_lb_ingress new"
    by (auto simp: serviceAddresses_def split: if_splits)
  with assms(6,8-) show "(ctx_namespace c, ctx_name c) \<in> set (woken (New l) (UpdateEvent (Some old) (Some new)))"
    by (auto simp: woken_New isLoadBalancer_def instanceForClientService_member)
next
  fix ev ns n assume "(ns, n) \<in> set (woken (New l) ev)"
  then show "\<exists>svc \<in> set (event_services ev). svc_namespace svc = ns \<and> svc_name svc = clientServiceName n"
    by (auto simp: woken_New instanceForClientService_member split: if_splits)
qed

theorem address_change_wakes_instance_witness:
  "(''ns'', ''db'') \<in> set (woken (New ''provider'')
     (UpdateEvent (Some (client_service\<lparr>svc_lb_ingress := []\<rparr>)) (Some client_service)))"
proof -
  let ?c = "sample_ctx (tls_on [])" and ?old = "client_service\<lparr>svc_lb_ingress := []\<rparr>"
  have old: "fst (api_get_service ?c (clientServiceName (ctx_name ?c))
      (empty_cluster\<lparr>cl_services := [(''clickhouse-db'', ?old)]\<rparr>)) = Inr ?old"
    and new: "fst (api_get_service ?c (clientServiceName (ctx_name ?c)) exposed_cluster) = Inr client_service"
    by (simp_all add: lookup_in_def clientServiceName_def exposed_cluster_def)
  show ?thesis
    using address_change_wakes_instance [OF externalAddresses_read [OF old] externalAddresses_read [OF new] old new]
    by (simp add: serviceAddresses_def client_service_def clientServiceName_def get0_def operatorServiceCR_def
        labelOperatorService_def LabelCHIName_def)
qed

end
