(* ===== verification/Entry_Point.thy ===== *)
theory Entry_Point
  imports Registration
begin

text \<open>
  \<^verbatim>\<open>cmd/provider/main.go\<close>: the process either runs the upgrade preflight and exits, or starts the
  reconciler. The preflight and the reconciler are the runtime's, fields of \<open>entry_env\<close>.
\<close>

text \<open>\<^verbatim>\<open>reconciler.WithServer\<close> and \<^verbatim>\<open>reconciler.WithMetrics\<close>.\<close>

record reconciler_options =
  server_port :: int
  validation_path :: string
  metrics_address :: string

record ('r, 'w) entry_env =
  preflight_run :: "provider \<Rightarrow> string \<Rightarrow> 'w \<Rightarrow> err option \<times> 'w"
  upgrade_blocked :: "err \<Rightarrow> bool"
  reconciler_new :: "provider \<Rightarrow> reconciler_options \<Rightarrow> 'w \<Rightarrow> (err + 'r) \<times> 'w"
  reconciler_start :: "'r \<Rightarrow> 'w \<Rightarrow> err option \<times> 'w"

datatype 'r main_event =
    RanPreflight string "err option"
  | PrintedError err
  | CreatedReconciler "err + 'r"
  | StartedReconciler "err option"

text \<open>The result is the process's exit status; returning from \<^verbatim>\<open>main\<close> is status 0.\<close>

definition main :: "('r, 'w) entry_env \<Rightarrow> string \<Rightarrow> string \<Rightarrow> ('r main_event, 'w, int) prog" where
  "main env providerLabel preflightSpec =
     (let p = New providerLabel in
      if preflightSpec \<noteq> [] then
        bind (call (preflight_run env p preflightSpec) (RanPreflight preflightSpec)) (\<lambda>r. case r of
          Some err \<Rightarrow>
            andthen (if \<not> upgrade_blocked env err then call (\<lambda>w. ((), w)) (\<lambda>_. PrintedError err) else ret ()) (ret 1)
        | None \<Rightarrow> ret 0)
      else
        bind (call (reconciler_new env p \<lparr>server_port = 8082, validation_path = ''/validate'', metrics_address = '':9091''\<rparr>)
          CreatedReconciler) (\<lambda>r. case r of
          Inl err \<Rightarrow> ret 1
        | Inr rec \<Rightarrow>
            bind (call (reconciler_start env rec) StartedReconciler) (\<lambda>started. case started of
              Some err \<Rightarrow> ret 1
            | None \<Rightarrow> ret 0)))"

text \<open>
  A preflight never starts the reconciler, and fails the hook's Job exactly when it found the upgrade
  blocked or could not run; a failed start ends the process with an error.
\<close>

lemma main_exit:
  "result (main env l spec) w = Inr (if
     (if spec \<noteq> [] then fst (preflight_run env (New l) spec w) = None
      else \<exists>r. CreatedReconciler (Inr r) \<in> set (events (main env l spec) w) \<and> StartedReconciler None \<in> set (events (main env l spec) w))
     then 0 else 1)"
  "spec \<noteq> [] \<Longrightarrow> emits (\<lambda>e. \<forall>r. e \<noteq> StartedReconciler r) (main env l spec)"
proof -
  show "result (main env l spec) w = Inr (if
     (if spec \<noteq> [] then fst (preflight_run env (New l) spec w) = None
      else \<exists>r. CreatedReconciler (Inr r) \<in> set (events (main env l spec) w) \<and> StartedReconciler None \<in> set (events (main env l spec) w))
     then 0 else 1)"
    by (auto simp: main_def Let_def run_simps split: option.splits sum.splits)
  show "spec \<noteq> [] \<Longrightarrow> emits (\<lambda>e. \<forall>r. e \<noteq> StartedReconciler r) (main env l spec)"
    unfolding main_def Let_def by (intro emits_rules; simp)
qed

end
