(* ===== verification/Agreement.thy ===== *)
theory Agreement
  imports Reconcile_Order
begin

text \<open>
  \<^verbatim>\<open>Sync\<close> and \<^verbatim>\<open>Status\<close> are separate calls that read the cluster separately: what a reconcile that
  returned has seen, and what is reported of a cluster that still looks so.
\<close>

section \<open>What a reconcile that returns has seen\<close>

lemma applyAndWait_saw:
  assumes "result (applyAndWaitForCHI c g x) w = Inr ()"
  shows "\<exists>y. GotCHI (ctx_name c) (Inr y) \<in> set (events (applyAndWaitForCHI c g x) w) \<and> waitForCHI y = Inr ()"
  using assms
  by (auto simp: applyAndWaitForCHI_def returns in_events get_chi_def simp del: wrap_err_simps(1) split: sum.splits)

lemma applyPair_saw:
  assumes "result (applyPair c g k x) w = Inr ()"
  shows "\<exists>y z. GotCHI (ctx_name c) (Inr y) \<in> set (events (applyPair c g k x) w) \<and> waitForCHI y = Inr () \<and>
     GotCHK (keeperCRName (ctx_name c)) (Inr z) \<in> set (events (applyPair c g k x) w) \<and> waitForCHK z = Inr ()"
proof -
  let ?gate = "wrap_err (\<lambda>e. Errorf ''apply ClickHouseKeeperInstallation: %w'' [AErr e]) (gateApply c g (RCHK k) ''chk'')"
  let ?n = "keeperCRName (ctx_name c)"
  from assms obtain out where out: "result ?gate w = Inr out"
    unfolding applyPair_def bind_Inr by (elim exE conjE)
  obtain ok g1 where gate: "result ?gate w = Inr (ok, g1)" using out by (cases out) auto
  with assms obtain z where z: "fst (api_get_chk c ?n (world ?gate w)) = Inr z" "waitForCHK z = Inr ()"
    and rest: "result (applyAndWaitForCHI c g1 x) (snd (api_get_chk c ?n (world ?gate w))) = Inr ()"
    by (cases "fst (api_get_chk c ?n (world ?gate w))")
      (auto simp: applyPair_def result_bind andthen_Inr get_chk_def simp del: wrap_err_simps)
  from applyAndWait_saw [OF rest] gate z show ?thesis
    by (auto simp: applyPair_def in_events get_chk_def simp del: wrap_err_simps)
qed

lemma sync_saw:
  assumes "result (sync c) w = Inr ()"
  shows "\<exists>y. GotCHI (ctx_name c) (Inr y) \<in> set (events (sync c) w) \<and> waitForCHI y = Inr ()"
    and "replicated c \<Longrightarrow> \<exists>z. GotCHK (keeperCRName (ctx_name c)) (Inr z) \<in> set (events (sync c) w) \<and> waitForCHK z = Inr ()"
proof -
  let ?run = "if replicated c then syncReplicated c else syncStandalone c"
  let ?u = "world (ensureCredentials c) w" and ?tls = "if tlsEnabled c then ensureTLS c else ret ()"
  define v where "v = world ?tls ?u"
  from assms have "\<exists>s. result (ensureCredentials c) w = Inr s" and "result ?tls ?u = Inr ()" and v: "result ?run v = Inr ()"
    by (auto simp: sync_def bind_Inr andthen_Inr wrap_err_Inr v_def simp del: wrap_err_simps(1))
  then have sub: "set (events ?run v) \<subseteq> set (events (sync c) w)"
    by (auto simp: sync_def in_events wrap_err_Inr v_def simp del: wrap_err_simps(1))
  have pair: "\<exists>y z. GotCHI (ctx_name c) (Inr y) \<in> set (events ?run v) \<and> waitForCHI y = Inr () \<and>
     GotCHK (keeperCRName (ctx_name c)) (Inr z) \<in> set (events ?run v) \<and> waitForCHK z = Inr ()" if "replicated c"
  proof -
    from v that obtain step target k x g u where prep: "result (preparePair c) v = Inr (step, target, k, x, g)"
      and app: "result (applyPair c g k x) u = Inr ()" and u: "u = world (preparePair c) v"
      by (auto simp: syncReplicated_def bind_Inr andthen_Inr)
    from applyPair_saw [OF app] show ?thesis
      using that prep u by (auto simp: syncReplicated_def in_events)
  qed
  have alone: "\<exists>y. GotCHI (ctx_name c) (Inr y) \<in> set (events ?run v) \<and> waitForCHI y = Inr ()" if "\<not> replicated c"
    using v that
    by (auto simp: syncStandalone_def bind_Inr in_events simp del: wrap_err_simps(1) dest!: applyAndWait_saw)
  show "\<exists>y. GotCHI (ctx_name c) (Inr y) \<in> set (events (sync c) w) \<and> waitForCHI y = Inr ()"
    using pair alone sub by (cases "replicated c") blast+
  show "replicated c \<Longrightarrow> \<exists>z. GotCHK (keeperCRName (ctx_name c)) (Inr z) \<in> set (events (sync c) w) \<and> waitForCHK z = Inr ()"
    using pair sub by blast
qed

section \<open>When Ready is reported\<close>

lemma keeperStatus_done:
  assumes "\<And>r. GotCHK (keeperCRName (ctx_name c)) r \<in> set (events (keeperStatus c f) w) \<Longrightarrow> \<exists>z. r = Inr z \<and> waitForCHK z = Inr ()"
  shows "result (keeperStatus c f) w = Inr None"
proof (cases "replicated c")
  case True
  then have "GotCHK (keeperCRName (ctx_name c)) (fst (api_get_chk c (keeperCRName (ctx_name c)) w)) \<in> set (events (keeperStatus c f) w)"
    by (simp add: keeperStatus_def in_events get_chk_def)
  from assms [OF this] True show ?thesis
    by (auto simp: keeperStatus_def result_bind get_chk_def waitForCHK_ok chk_view.done_iff)
qed (simp add: keeperStatus_def)

lemma readyStatus_done:
  assumes "\<And>r. GotSecret (serverSecretName (ctx_name c)) r \<in> set (events (readyStatus c f x) w) \<Longrightarrow>
      \<exists>s. r = Inr s \<and> get0 (secret_data s) ''tls.crt'' \<noteq> []"
  shows "\<exists>d. result (readyStatus c f x) w = Inr (readyWith d)"
proof -
  have "result (if tlsEnabled c then serverCertificateIssued c else ret True) w = Inr True"
  proof (cases "tlsEnabled c")
    case True
    then have "GotSecret (serverSecretName (ctx_name c)) (fst (api_get_secret c (serverSecretName (ctx_name c)) w))
        \<in> set (events (readyStatus c f x) w)"
      by (simp add: readyStatus_def in_events)
    from assms [OF this] True show ?thesis
      by (auto simp: serverCertificateIssued_def result_bind get_secret_def)
  qed simp
  moreover obtain d where "result (buildConnectionDetails c x)
      (world (if tlsEnabled c then serverCertificateIssued c else ret True) w) = Inr d"
    using buildConnectionDetails_result [of c x] by blast
  ultimately show ?thesis by (auto simp: readyStatus_def result_bind)
qed

lemma Status_done:
  assumes chi: "\<And>r. GotCHI (ctx_name c) r \<in> set (events (Status c) w) \<Longrightarrow> \<exists>x. r = Inr x \<and> waitForCHI x = Inr ()"
    and chk: "\<And>r. GotCHK (keeperCRName (ctx_name c)) r \<in> set (events (Status c) w) \<Longrightarrow> \<exists>z. r = Inr z \<and> waitForCHK z = Inr ()"
    and crt: "\<And>r. GotSecret (serverSecretName (ctx_name c)) r \<in> set (events (Status c) w) \<Longrightarrow>
      \<exists>s. r = Inr s \<and> get0 (secret_data s) ''tls.crt'' \<noteq> []"
  shows "\<exists>d. result (Status c) w = Inr (readyWith d)"
proof -
  let ?get = "getOptional (ctx_name c) (get_chi c (ctx_name c))"
  have "GotCHI (ctx_name c) (fst (api_get_chi c (ctx_name c) w)) \<in> set (events (Status c) w)"
    by (simp add: Status_def in_events get_chi_def)
  from chi [OF this] obtain x where x: "result ?get w = Inr (Some x)" "waitForCHI x = Inr ()"
    by (auto simp: get_chi_def)
  obtain conn where conn: "result (servingDetails c (Some x)) (world ?get w) = Inr conn"
    using buildConnectionDetails_result [of c x "world ?get w"]
    by (cases "in_completedBefore (clickhouseView (Some x))") (auto simp: servingDetails_def bind_Inr)
  let ?f = "inProgressStatus (clickhouseView (Some x)) conn" and ?w = "world (servingDetails c (Some x)) (world ?get w)"
  have sub: "set (events (statusFrom c (Some x) ?f) ?w) \<subseteq> set (events (Status c) w)"
    using x(1) conn by (auto simp: Status_def in_events simp del: getOptional_simps)
  have keeper: "result (keeperStatus c ?f) ?w = Inr None"
    using chk sub by (intro keeperStatus_done) (auto simp: statusFrom_def in_events)
  have view: "installationStatus ?f (clickhouseView (Some x)) = None"
    using x(2) by (simp add: clickhouseView_def waitForCHI_ok chi_view.done_iff)
  have "\<exists>d. result (readyStatus c ?f x) (world (keeperStatus c ?f) ?w) = Inr (readyWith d)"
    using crt sub keeper view by (intro readyStatus_done) (auto simp: statusFrom_def in_events)
  then show ?thesis
    using x(1) conn keeper view by (auto simp: Status_def statusFrom_def bind_Inr simp del: getOptional_simps(1))
qed

lemma standalone_reads_no_keeper:
  "GotCHK n r \<in> set (events (Status c) v) \<Longrightarrow> replicated c"
proof (rule ccontr)
  assume "GotCHK n r \<in> set (events (Status c) v)" and "\<not> replicated c"
  then have "emits (\<lambda>e. e \<noteq> GotCHK n r) (Status c)"
    unfolding Status_def servingDetails_def statusFrom_def keeperStatus_def readyStatus_def buildConnectionDetails_def
      readCACert_def readCredentials_def serverCertificateIssued_def Let_def
    by (simp only: not_False_eq_True if_True) (intro emits_rules; simp)
  then show False using \<open>GotCHK n r \<in> set (events (Status c) v)\<close> by (auto simp: emits_def)
qed

section \<open>Properties\<close>

text \<open>C12. A reconcile that has nothing left to do is reported so: when \<open>Sync\<close> returns, it has read a CHI and, in
  the replicated topology, a CHK such that \<open>Status\<close> reports Ready in every world that answers it with these
  two objects and with a certificate wherever it asks for one.\<close>

theorem reconciled_is_ready:
  assumes "result (Sync c) w = Inr ()"
  shows "\<exists>x z. GotCHI (ctx_name c) (Inr x) \<in> set (events (Sync c) w) \<and>
     (replicated c \<longrightarrow> GotCHK (keeperCRName (ctx_name c)) (Inr z) \<in> set (events (Sync c) w)) \<and>
     (\<forall>v. (\<forall>r. GotCHI (ctx_name c) r \<in> set (events (Status c) v) \<longrightarrow> r = Inr x) \<and>
          (\<forall>r. GotCHK (keeperCRName (ctx_name c)) r \<in> set (events (Status c) v) \<longrightarrow> r = Inr z) \<and>
          (\<forall>r. GotSecret (serverSecretName (ctx_name c)) r \<in> set (events (Status c) v) \<longrightarrow>
             (\<exists>s. r = Inr s \<and> get0 (secret_data s) ''tls.crt'' \<noteq> [])) \<longrightarrow>
        (\<exists>st. result (Status c) v = Inr st \<and> st_phase st = Ready))"
proof -
  have run: "result (sync c) w = Inr ()" and ev: "events (Sync c) w = events (sync c) w"
    using assms by (simp_all add: Sync_runs)
  obtain x where x: "GotCHI (ctx_name c) (Inr x) \<in> set (events (sync c) w)" "waitForCHI x = Inr ()"
    using sync_saw(1) [OF run] by blast
  obtain z where z: "replicated c \<longrightarrow> GotCHK (keeperCRName (ctx_name c)) (Inr z) \<in> set (events (sync c) w) \<and> waitForCHK z = Inr ()"
    using sync_saw(2) [OF run] by blast
  have "\<exists>st. result (Status c) v = Inr st \<and> st_phase st = Ready"
    if "\<forall>r. GotCHI (ctx_name c) r \<in> set (events (Status c) v) \<longrightarrow> r = Inr x"
      and "\<forall>r. GotCHK (keeperCRName (ctx_name c)) r \<in> set (events (Status c) v) \<longrightarrow> r = Inr z"
      and "\<forall>r. GotSecret (serverSecretName (ctx_name c)) r \<in> set (events (Status c) v) \<longrightarrow>
             (\<exists>s. r = Inr s \<and> get0 (secret_data s) ''tls.crt'' \<noteq> [])" for v
  proof -
    have "\<exists>d. result (Status c) v = Inr (readyWith d)"
      using that x(2) z by (intro Status_done) (auto dest: standalone_reads_no_keeper)
    then show ?thesis by (auto simp: readyWith_def)
  qed
  with x z show ?thesis unfolding ev by blast
qed

section \<open>An instance\<close>

text \<open>The ready cluster with complete credentials: a reconcile of it returns.\<close>

definition settled_cluster :: cluster where
  "settled_cluster = ready_cluster\<lparr>cl_secrets := [(''db-credentials'', sample_secret)]\<rparr>"

lemma first_change_unstamped:
  assumes "get0 (g_record g) (key @ specSuffix) = []"
    and "\<And>live. live_read (sample_ctx p) x w live \<Longrightarrow> \<exists>l. live = Some l \<and> taskID l = None"
  obtains spec where "result (gateApply (sample_ctx p) g x key) w = Inr (True, recorded g key spec)"
    and "world (gateApply (sample_ctx p) g x key) w =
      store_obj (OSecret \<lparr>secret_name = rolloutStateName ''db'', secret_data = g_record (recorded g key spec)\<rparr>)
        (store_obj (obj_of x) w)"
proof (rule first_change [OF assms(1), where p = p and x = x and w = w])
  fix spec live
  assume live: "live_read (sample_ctx p) x w live"
    and run: "result (gateApply (sample_ctx p) g x key) w = Inr (True, recorded g key spec)"
      "world (gateApply (sample_ctx p) g x key) w =
        store_obj (OSecret \<lparr>secret_name = rolloutStateName ''db'', secret_data = g_record (recorded g key spec)\<rparr>)
          (store_obj (obj_of (stamped g key spec live x)) w)"
  have "stamped g key spec live x = x"
    using assms(1) assms(2) [OF live] by (auto simp: stamped_def)
  with run that show thesis by simp
qed

text \<open>The first change of an object is not asked about.\<close>

lemma first_change_quiet:
  assumes "get0 (g_record g) (key @ specSuffix) = []" and "e \<in> set (events (gateApply c g x key) w)"
  shows "\<not> is_request e"
proof (cases "\<exists>spec live. specHash c x = Inr spec \<and> live_read c x w live")
  case True
  then obtain spec live where lr: "specHash c x = Inr spec" "live_read c x w live" by blast
  have "gateDecide c g x key spec live = applyAllowed c g x key spec live"
    using assms(1) by (simp add: gateDecide_def allowedAtOnce_def Let_def bind_def ret_def)
  then show ?thesis
    using assms(2) live_of_runs(2) [of e c x w] emitsD [OF emits_applyAllowed_no_request, of e c g x key spec live]
    by (auto simp: gateApply_decides(2) [OF lr])
next
  case False
  then show ?thesis using gateApply_fails(2) [OF False] assms(2) by blast
qed

lemma applyAndWait_requests:
  assumes "e \<in> set (events (applyAndWaitForCHI c g x) w)" and "is_request e"
  shows "e \<in> set (events (gateApply c g (RCHI x) ''chi'') w)"
proof -
  define rest where "rest = bind (get_chi c (ctx_name c)) (\<lambda>r. case r of
        Inl e \<Rightarrow> throw (Wait ''waiting for Altinity operator to provision ClickHouseInstallation'' [] 15)
      | Inr current \<Rightarrow> andthen (reconcilePlaintextPolicy c current) (andthen (lift_result (waitForCHI current))
          (if \<not> tlsEnabled c then cleanupTLS c current else ret ())))"
  have quiet: "emits (\<lambda>e. \<not> is_request e) rest" unfolding rest_def by (intro emits_rules) simp_all
  have "e \<in> set (events (gateApply c g (RCHI x) ''chi'') w) \<or> (\<exists>v. e \<in> set (events rest v))"
    using assms(1) unfolding applyAndWaitForCHI_def rest_def [symmetric] in_events_bind wrap_err_simps(3) by blast
  then show ?thesis using emitsD [OF quiet] assms(2) by blast
qed

lemma settled_waits:
  "chi_task_id (chi_spec_of x) = None \<Longrightarrow> waitForCHI (x\<lparr>chi_status := Some completed_status\<rparr>) = Inr ()"
  "chk_task_id (chk_spec_of k) = None \<Longrightarrow> waitForCHK (k\<lparr>chk_status := Some completed_status\<rparr>) = Inr ()"
  by (simp_all add: waitForCHI_ok waitForCHK_ok statusRolledOut_def rolledOut_def completed_status_def)

text \<open>A ClickHouse without TLS settles at once.\<close>

lemma settled_after_apply:
  assumes "chi_name x = ''db''" and "chi_task_id (chi_spec_of x) = None" and "\<not> appliedTLSRequired x"
    and "\<not> chi_uses_certificate table_settings x"
    and "get0 (g_record g) (''chi'' @ specSuffix) = []"
    and "map_of (cl_chi w) ''db'' = Some (plain_chi\<lparr>chi_status := Some completed_status\<rparr>)"
    and "cl_policies w = []" and "cl_pods w = []"
    and "map_of (cl_secrets w) (serverSecretName ''db'') = None" and "map_of (cl_secrets w) (caSecretName ''db'') = None"
    and "\<And>y. map_of (cl_chk w) (keeperCRName ''db'') = Some y \<Longrightarrow> \<not> chk_uses_certificate table_settings y"
  shows "result (applyAndWaitForCHI (sample_ctx sample_parameters) g x) w = Inr ()"
proof -
  let ?c = "sample_ctx sample_parameters" and ?y = "x\<lparr>chi_status := Some completed_status\<rparr>"
  have tls: "\<not> tlsEnabled ?c" by (simp add: tlsEnabled_def tlsParameters_def sample_parameters_def)
  have "\<exists>l. live = Some l \<and> taskID l = None" if "live_read ?c (RCHI x) w live" for live
    using that assms(1,6)
    by (auto simp: live_read_def get_chi_def run_simps lookup_in_def plain_chi_def split: option.splits)
  then obtain spec where run: "result (gateApply ?c g (RCHI x) ''chi'') w = Inr (True, recorded g ''chi'' spec)"
    "world (gateApply ?c g (RCHI x) ''chi'') w =
      store_obj (OSecret \<lparr>secret_name = rolloutStateName ''db'', secret_data = g_record (recorded g ''chi'' spec)\<rparr>)
        (store_obj (OCHI x) w)"
    using first_change_unstamped [OF assms(5), of sample_parameters "RCHI x" w] by auto
  let ?v = "world (gateApply ?c g (RCHI x) ''chi'') w"
  have stored: "map_of (cl_chi ?v) ''db'' = Some ?y" using assms(1,6) by (simp add: run(2))
  have others: "cl_policies ?v = []" "cl_pods ?v = []" "cl_chk ?v = cl_chk w"
    "map_of (cl_secrets ?v) (serverSecretName ''db'') = None" "map_of (cl_secrets ?v) (caSecretName ''db'') = None"
    using assms(7-10)
    by (simp_all add: run(2) rolloutStateName_def serverSecretName_def caSecretName_def RolloutStateSuffix_def
        ServerCertSecretSuffix_def CACertSecretSuffix_def)
  have policy: "result (reconcilePlaintextPolicy ?c ?y) ?v = Inr ()" "world (reconcilePlaintextPolicy ?c ?y) ?v = ?v"
    using assms(3)
    by (simp_all add: reconcilePlaintextPolicy_def reconcilePolicy_def appliedTLSRequired_def Let_def run_simps
        get_policy_def lookup_in_def others)
  have clean: "result (cleanupTLS ?c ?y) ?v = Inr ()"
  proof -
    have "\<not> chi_uses_certificate table_settings ?y" using assms(4) by (simp add: chi_uses_certificate_def)
    then show ?thesis
      using assms(11)
      by (auto simp: cleanupTLS_def Let_def run_simps get_chk_def get_secret_def lookup_in_def others serverSecretMounted_def
          podSelectors_def list_pods_def mounts_def split: option.splits)
  qed
  show ?thesis
    by (simp add: applyAndWaitForCHI_def run_simps run(1) get_chi_def lookup_in_def stored policy settled_waits(1) [OF assms(2)] tls clean)
qed

lemma settled_plan:
  "result (planKeeperWiring (sample_ctx sample_parameters)) settled_cluster =
     Inr (\<lparr>kw_secure = False, kw_plaintext = True, kw_port = 0\<rparr>, \<lparr>kw_secure = False, kw_plaintext = True, kw_port = 0\<rparr>)"
proof -
  let ?c = "sample_ctx sample_parameters"
  let ?x = "plain_chi\<lparr>chi_status := Some completed_status\<rparr>"
  obtain k where k: "result (getOptional (keeperCRName (ctx_name ?c)) (get_chk ?c (keeperCRName (ctx_name ?c)))) settled_cluster = Inr (Some k)"
    "chk_configuration (chk_spec_of k) = None"
    by (simp add: get_chk_def lookup_in_def settled_cluster_def ready_cluster_def keeperCRName_def)
  have x: "result (getOptional (ctx_name ?c) (get_chi ?c (ctx_name ?c))) (world (get_chk ?c (keeperCRName (ctx_name ?c))) settled_cluster) = Inr (Some ?x)"
    by (simp add: get_chi_def lookup_in_def settled_cluster_def ready_cluster_def)
  have tls: "\<not> tlsEnabled ?c" by (simp add: tlsEnabled_def tlsParameters_def sample_parameters_def)
  show ?thesis
    using planKeeperWiring_Inr [OF k(1) x] k(2) tls
    by (simp add: wiring_defs stateOf_def chkPorts_def chiKeeperPort_def plain_chi_def)
qed

lemma settled_pair:
  assumes "result (buildCHKWired (sample_ctx sample_parameters) \<lparr>kw_secure = False, kw_plaintext = True, kw_port = 0\<rparr>) v = Inr k"
    and "result (buildCHIWired (sample_ctx sample_parameters) n \<lparr>kw_secure = False, kw_plaintext = True, kw_port = 0\<rparr>) v' = Inr x"
  shows "\<not> chk_uses_certificate table_settings (k\<lparr>chk_status := st\<rparr>)" "\<not> chi_uses_certificate table_settings x"
    and "\<not> appliedTLSRequired x" "chi_name x = ''db''" "chi_task_id (chi_spec_of x) = None"
proof -
  let ?c = "sample_ctx sample_parameters" and ?k = "\<lparr>kw_secure = False, kw_plaintext = True, kw_port = 0\<rparr>"
  have tls: "\<not> tlsEnabled ?c" by (simp add: tlsEnabled_def tlsParameters_def sample_parameters_def)
  show "\<not> chk_uses_certificate table_settings (k\<lparr>chk_status := st\<rparr>)"
    using buildCHKWired_result [OF assms(1)] by (auto simp: chk_uses_certificate_def files_use_certificate_def)
  obtain img settings user where x: "x = \<lparr>chi_name = ''db'', chi_spec_of = chiSpec ?c n ?k img settings user, chi_status = None\<rparr>"
    using buildCHIWired_result [OF assms(2)] by auto
  show "\<not> chi_uses_certificate table_settings x"
    using chiSpec_configuration [of ?c n ?k img settings user] tls
    by (auto simp: x chi_uses_certificate_def files_use_certificate_def KeeperSecurePort_def)
  show "\<not> appliedTLSRequired x"
    using tls by (simp add: x appliedTLSRequired_def chiSpec_templates Let_def zero_component_def)
  show "chi_name x = ''db''" "chi_task_id (chi_spec_of x) = None" by (simp_all add: x)
qed

lemma settled_replicated:
  "result (syncReplicated (sample_ctx sample_parameters)) settled_cluster = Inr ()"
  "e \<in> set (events (syncReplicated (sample_ctx sample_parameters)) settled_cluster) \<Longrightarrow> \<not> is_request e"
proof -
  let ?c = "sample_ctx sample_parameters" and ?w = settled_cluster
  have fresh: "map_of (cl_secrets ?w) (rolloutStateName ''db'') = None"
    by (simp add: settled_cluster_def rolloutStateName_def RolloutStateSuffix_def)
  obtain step target k x g where prep: "result (preparePair ?c) ?w = Inr (step, target, k, x, g)" "world (preparePair ?c) ?w = ?w"
    "g_record g = []" "chk_name k = ''db-keeper''" "chk_task_id (chk_spec_of k) = None"
    using sample_prepares [OF tls_on_configuration(2) fresh] by metis
  note parts = preparePair_Inr [OF prep(1)]
  have plan: "step = \<lparr>kw_secure = False, kw_plaintext = True, kw_port = 0\<rparr>" "target = step"
    using conjunct1 [OF parts] by (auto simp: settled_plan)
  obtain v v' where built: "result (buildCHKWired ?c \<lparr>kw_secure = False, kw_plaintext = True, kw_port = 0\<rparr>) v = Inr k"
    "result (buildCHIWired ?c (replicasCount ?c) \<lparr>kw_secure = False, kw_plaintext = True, kw_port = 0\<rparr>) v' = Inr x"
    using parts plan by auto
  have fresh_chk: "get0 (g_record g) (''chk'' @ specSuffix) = []" using prep(3) by (simp add: get0_def)
  then obtain spec where run: "result (gateApply ?c g (RCHK k) ''chk'') ?w = Inr (True, recorded g ''chk'' spec)"
    "world (gateApply ?c g (RCHK k) ''chk'') ?w =
      store_obj (OSecret \<lparr>secret_name = rolloutStateName ''db'', secret_data = g_record (recorded g ''chk'' spec)\<rparr>)
        (store_obj (OCHK k) ?w)"
  proof (rule first_change_unstamped [where p = sample_parameters and x = "RCHK k" and w = ?w])
    show "\<exists>l. live = Some l \<and> taskID l = None" if "live_read ?c (RCHK k) ?w live" for live
      using that prep(4)
      by (auto simp: live_read_def settled_cluster_def ready_cluster_def get_chk_def run_simps lookup_in_def split: option.splits)
  qed auto
  let ?v = "world (gateApply ?c g (RCHK k) ''chk'') ?w" and ?k = "k\<lparr>chk_status := Some completed_status\<rparr>"
  have stored: "map_of (cl_chk ?v) (keeperCRName ''db'') = Some ?k"
    using prep(4) unfolding run(2) by (simp add: settled_cluster_def ready_cluster_def keeperCRName_def)
  have fresh_chi: "get0 (g_record (recorded g ''chk'' spec)) (''chi'' @ specSuffix) = []"
    using prep(3) by (simp add: recorded_def Let_def get0_def record_keys)
  have "result (applyAndWaitForCHI ?c (recorded g ''chk'' spec) x) ?v = Inr ()"
  proof (rule settled_after_apply)
    show "get0 (g_record (recorded g ''chk'' spec)) (''chi'' @ specSuffix) = []" by (rule fresh_chi)
    show "map_of (cl_chi ?v) ''db'' = Some (plain_chi\<lparr>chi_status := Some completed_status\<rparr>)" "cl_policies ?v = []" "cl_pods ?v = []"
      unfolding run(2) by (simp_all add: settled_cluster_def ready_cluster_def empty_cluster_def)
    show "map_of (cl_secrets ?v) (serverSecretName ''db'') = None" "map_of (cl_secrets ?v) (caSecretName ''db'') = None"
      unfolding run(2) by (simp_all add: settled_cluster_def ready_cluster_def empty_cluster_def rolloutStateName_def serverSecretName_def caSecretName_def
          RolloutStateSuffix_def ServerCertSecretSuffix_def CACertSecretSuffix_def)
  qed (use settled_pair [OF built] stored in auto)
  then have "result (applyPair ?c g k x) ?w = Inr ()"
    by (simp add: applyPair_def run_simps run(1) get_chk_def lookup_in_def stored settled_waits(2) [OF prep(5)])
  then show "result (syncReplicated ?c) ?w = Inr ()" by (simp add: syncReplicated_def run_simps prep plan)
  have "emits (\<lambda>e. \<not> is_request e) (preparePair ?c)" unfolding preparePair_def by (intro emits_rules) simp_all
  moreover have "\<not> is_request e" if "e \<in> set (events (applyAndWaitForCHI ?c (recorded g ''chk'' spec) x) v)" for e v
    using applyAndWait_requests [OF that] first_change_quiet [OF fresh_chi, of e ?c "RCHI x" v] by blast
  moreover have "events (applyPair ?c g k x) ?w = events (gateApply ?c g (RCHK k) ''chk'') ?w @
      GotCHK (keeperCRName ''db'') (Inr ?k) # events (applyAndWaitForCHI ?c (recorded g ''chk'' spec) x) ?v"
    by (simp add: applyPair_def run_simps run(1) get_chk_def lookup_in_def stored settled_waits(2) [OF prep(5)])
  moreover have "\<not> is_request e" if "e \<in> set (events (gateApply ?c g (RCHK k) ''chk'') ?w)" for e
    using first_change_quiet [OF fresh_chk that] .
  ultimately show "\<not> is_request e" if "e \<in> set (events (syncReplicated ?c) ?w)"
    using that by (auto simp: syncReplicated_events prep(1,2) dest: emitsD)
qed

lemma settled_sync:
  "result (Sync (sample_ctx sample_parameters)) settled_cluster = Inr ()"
  "e \<in> set (events (Sync (sample_ctx sample_parameters)) settled_cluster) \<Longrightarrow> \<not> is_request e"
proof -
  let ?c = "sample_ctx sample_parameters"
  have cred: "result (ensureCredentials ?c) settled_cluster = Inr sample_secret" "world (ensureCredentials ?c) settled_cluster = settled_cluster"
    by (simp_all add: ensureCredentials_def run_simps get_secret_def lookup_in_def settled_cluster_def credentialsSecretName_def
        CredentialsSecretSuffix_def completeCredentials_noop [OF sample_secret_complete])
  have tls: "\<not> tlsEnabled ?c" by (simp add: tlsEnabled_def tlsParameters_def sample_parameters_def)
  have "result (reconcilePodMonitor ?c) w = Inr ()" for w
    by (simp add: reconcilePodMonitor_def deletePodMonitor_def run_simps delete_obj_def apply_obj_def)
  then show run: "result (Sync ?c) settled_cluster = Inr ()"
    by (simp add: Sync_runs sync_def run_simps cred tls sample_replicated settled_replicated(1))
  have "emits (\<lambda>e. \<not> is_request e) (ensureCredentials ?c)" "emits (\<lambda>e. \<not> is_request e) (reconcilePodMonitor ?c)"
    by (intro emits_rules; simp)+
  then show "\<not> is_request e" if "e \<in> set (events (Sync ?c) settled_cluster)"
    using that run cred tls settled_replicated(2) [of e]
    by (auto simp: Sync_runs sync_def in_events sample_replicated dest: emitsD)
qed

text \<open>The same two objects in a cluster without TLS: all that \<open>Status\<close> reads of it.\<close>

lemma status_answers:
  fixes x :: "setting table chi" and z :: "setting table chk"
  defines "v \<equiv> empty_cluster\<lparr>cl_chi := [(''db'', x)], cl_chk := [(''db-keeper'', z)]\<rparr>"
  shows "GotCHI ''db'' r \<in> set (events (Status (sample_ctx sample_parameters)) v) \<Longrightarrow> r = Inr x"
    and "GotCHK ''db-keeper'' q \<in> set (events (Status (sample_ctx sample_parameters)) v) \<Longrightarrow> q = Inr z"
    and "GotSecret (serverSecretName ''db'') a \<notin> set (events (Status (sample_ctx sample_parameters)) v)"
proof -
  let ?c = "sample_ctx sample_parameters"
  have plain: "\<not> tlsEnabled ?c" by (simp add: tlsEnabled_def tlsParameters_def sample_parameters_def)
  have other: "serverSecretName ''db'' \<noteq> credentialsSecretName ''db''"
    by (simp add: serverSecretName_def credentialsSecretName_def ServerCertSecretSuffix_def CredentialsSecretSuffix_def)
  note eval = v_def Status_def servingDetails_def statusFrom_def keeperStatus_def readyStatus_def buildConnectionDetails_def
    readCredentials_def run_simps get_chi_def get_chk_def get_secret_def get_service_def lookup_in_def plain sample_replicated
    keeperCRName_def empty_cluster_def other
  show "GotCHI ''db'' r \<in> set (events (Status ?c) v) \<Longrightarrow> r = Inr x"
    by (auto simp: eval split: if_splits option.splits)
  show "GotCHK ''db-keeper'' q \<in> set (events (Status ?c) v) \<Longrightarrow> q = Inr z"
    by (auto simp: eval split: if_splits option.splits)
  show "GotSecret (serverSecretName ''db'') a \<notin> set (events (Status ?c) v)"
    by (auto simp: eval split: if_splits option.splits)
qed

theorem reconciled_is_ready_witness:
  "\<exists>x z st. GotCHI ''db'' (Inr x) \<in> set (events (Sync (sample_ctx sample_parameters)) settled_cluster) \<and>
     result (Status (sample_ctx sample_parameters)) (empty_cluster\<lparr>cl_chi := [(''db'', x)], cl_chk := [(''db-keeper'', z)]\<rparr>) =
       Inr st \<and> st_phase st = Ready"
proof -
  let ?c = "sample_ctx sample_parameters"
  from reconciled_is_ready [OF settled_sync(1)] obtain x z where saw: "GotCHI ''db'' (Inr x) \<in> set (events (Sync ?c) settled_cluster)"
    and ready: "\<forall>v. (\<forall>r. GotCHI ''db'' r \<in> set (events (Status ?c) v) \<longrightarrow> r = Inr x) \<and>
      (\<forall>r. GotCHK ''db-keeper'' r \<in> set (events (Status ?c) v) \<longrightarrow> r = Inr z) \<and>
      (\<forall>r. GotSecret (serverSecretName ''db'') r \<in> set (events (Status ?c) v) \<longrightarrow>
         (\<exists>s. r = Inr s \<and> get0 (secret_data s) ''tls.crt'' \<noteq> [])) \<longrightarrow>
      (\<exists>st. result (Status ?c) v = Inr st \<and> st_phase st = Ready)"
    by (simp add: keeperCRName_def) blast
  let ?v = "empty_cluster\<lparr>cl_chi := [(''db'', x)], cl_chk := [(''db-keeper'', z)]\<rparr>"
  have "\<exists>st. result (Status ?c) ?v = Inr st \<and> st_phase st = Ready"
    by (rule ready [rule_format]) (use status_answers in blast)
  with saw show ?thesis by blast
qed

end
