(* ===== verification/Conformance.thy ===== *)
theory Conformance
  imports Agreement Registration
begin

text \<open>
  The cases of the program's own unit tests (\<^verbatim>\<open>*_test.go\<close>), evaluated on the model: a definition that
  strayed from its source would fail here as the code would fail there. A lemma has the name of its test.
\<close>

section \<open>The Keeper switch (\<^verbatim>\<open>keeper_tls_test.go\<close>)\<close>

definition served :: "int \<Rightarrow> bool \<Rightarrow> bool \<Rightarrow> bool" where
  "served port secure plaintext = (if port = KeeperSecurePort then secure else plaintext)"

text \<open>The operator rolls Keeper, then ClickHouse, to one step: \<open>Inr\<close> is the state after it, \<open>Inl\<close> the end of the
  test, with the state reached or (\<open>None\<close>) a failed requirement.\<close>

definition migrate_step :: "bool \<Rightarrow> keeperState \<Rightarrow> keeperState option + keeperState" where
  "migrate_step tls s =
     (let (step, target) = nextKeeperWiring tls s;
          s1 = s\<lparr>chkExists := True, chkRolledOut := True, chkSecure := kw_secure step, chkPlaintext := kw_plaintext step\<rparr>;
          next_step = fst (nextKeeperWiring tls s1);
          ok = (\<lambda>port. served port (chkSecure s1) (chkPlaintext s1))
      in if step = target \<and> chkExists s \<and> chkSecure s = kw_secure step \<and> chkPlaintext s = kw_plaintext step \<and>
            (\<not> chiExists s \<or> chiPort s = kw_port step) then Inl (Some s)
         else if chiExists s \<and> chiPort s \<ge> 0 \<and> \<not> (served (chiPort s) (chkSecure s) (chkPlaintext s) \<and> ok (chiPort s))
         then Inl None
         else if kw_secure next_step \<noteq> chkSecure s1 \<or> kw_plaintext next_step \<noteq> chkPlaintext s1 then Inl None
         else if chiPort s1 \<ge> 0 \<and> chiPort s1 \<noteq> kw_port next_step \<and> \<not> ok (chiPort s1) then Inl None
         else if \<not> ok (kw_port next_step) then Inl None
         else Inr (s1\<lparr>chiExists := True, chiPort := kw_port next_step, chiRolledOut := True\<rparr>))"

primrec migrate :: "nat \<Rightarrow> bool \<Rightarrow> keeperState \<Rightarrow> keeperState option" where
  "migrate 0 tls s = None"
| "migrate (Suc n) tls s = (case migrate_step tls s of Inl end_state \<Rightarrow> end_state | Inr after \<Rightarrow> migrate n tls after)"

definition keeper_state :: "bool \<Rightarrow> bool \<Rightarrow> bool \<Rightarrow> bool \<Rightarrow> bool \<Rightarrow> bool \<Rightarrow> int \<Rightarrow> keeperState" where
  "keeper_state ke kr ks kp ce cr p = \<lparr>chkExists = ke, chkRolledOut = kr, chkSecure = ks, chkPlaintext = kp,
     chiExists = ce, chiRolledOut = cr, chiPort = p\<rparr>"

abbreviation plain_state :: keeperState where
  "plain_state \<equiv> keeper_state True True False True True True 0"

abbreviation tls_only_state :: keeperState where
  "tls_only_state \<equiv> keeper_state True True True False True True KeeperSecurePort"

lemma TestKeeperWiringMigrations:
  "nextKeeperWiring True (keeper_state False False False False False False (- 1)) =
     (\<lparr>kw_secure = True, kw_plaintext = False, kw_port = KeeperSecurePort\<rparr>,
      \<lparr>kw_secure = True, kw_plaintext = False, kw_port = KeeperSecurePort\<rparr>)"
  "nextKeeperWiring False (keeper_state False False False False False False (- 1)) =
     (\<lparr>kw_secure = False, kw_plaintext = True, kw_port = 0\<rparr>, \<lparr>kw_secure = False, kw_plaintext = True, kw_port = 0\<rparr>)"
  "migrate 10 True plain_state = Some tls_only_state"
  "map_option (\<lambda>s. (chkPlaintext s, chkSecure s, chiPort s)) (migrate 10 False tls_only_state) = Some (True, False, KeeperPort)"
  "migrate 10 True (keeper_state False False False False True True (- 1)) = Some tls_only_state"
  "map_option (\<lambda>s. (chkSecure s, chiPort s)) (migrate 10 False (keeper_state True True True True True False KeeperSecurePort)) =
     Some (False, KeeperPort)"
  "fst (nextKeeperWiring True (plain_state\<lparr>chkRolledOut := False, chkSecure := True\<rparr>)) =
     \<lparr>kw_secure = True, kw_plaintext = True, kw_port = 0\<rparr>"
  "kw_plaintext (fst (nextKeeperWiring True (keeper_state True True True True True False KeeperSecurePort)))"
  by code_simp+

section \<open>Resources (\<^verbatim>\<open>resources_test.go\<close>)\<close>

text \<open>In thousandths: 500m is 500, 2G is 2 * 10 ^ 12.\<close>

definition declared :: "quantity table \<Rightarrow> quantity table \<Rightarrow> component_spec" where
  "declared lims reqs = zero_component\<lparr>comp_resources := Some \<lparr>limits = lims, requests = reqs\<rparr>\<rparr>"

abbreviation test_ctx :: "(setting table, cluster) ctx" where
  "test_ctx \<equiv> sample_ctx sample_parameters"

definition quantities :: "resources \<Rightarrow> quantity list" where
  "quantities r = [qty0 (limits r) ''cpu'', qty0 (limits r) ''memory'', qty0 (requests r) ''cpu'', qty0 (requests r) ''memory'']"

lemma TestResolveResources:
  "quantities (resolveResources test_ctx zero_component) = [1000, 4294967296000, 1000, 4294967296000]"
  "quantities (resolveResources test_ctx (declared [(''cpu'', 2000), (''memory'', 8589934592000)] [])) =
     [2000, 8589934592000, 2000, 8589934592000]"
  "quantities (resolveResources test_ctx (declared [] [(''cpu'', 500), (''memory'', 2000000000000)])) =
     [1000, 4294967296000, 500, 2000000000000]"
  "quantities (resolveResources test_ctx (declared [] [(''cpu'', 2000)])) = [2000, 4294967296000, 2000, 4294967296000]"
  "quantities (resolveResources test_ctx
     (declared [(''cpu'', 2000), (''memory'', 4294967296000)] [(''cpu'', 1000), (''memory'', 2147483648000)])) =
     [2000, 4294967296000, 1000, 2147483648000]"
  "quantities (resolveResources test_ctx (declared [(''cpu'', 0)] [])) = [1000, 4294967296000, 1000, 4294967296000]"
  by (simp_all add: quantities_def resolveResources_def resourceRequirements_def declared_def zero_component_def declared_value_def
      effective_limit_def qty0_def sim_quantity_def Let_def)

lemma TestResolveKeeperResourcesDefaults:
  "quantities (resolveKeeperResources test_ctx (declared [] [(''cpu'', 250)])) = [500, 1073741824000, 250, 1073741824000]"
  by (simp add: quantities_def resolveKeeperResources_def resourceRequirements_def declared_def zero_component_def declared_value_def
      effective_limit_def qty0_def sim_quantity_def KeeperDefaultCPU_def KeeperDefaultMemory_def Let_def)

section \<open>Names and exposure (\<^verbatim>\<open>tls_test.go\<close>)\<close>

lemma TestServerDNSNames:
  "set [''clickhouse-db'', ''clickhouse-db.ns.svc.cluster.local'', ''chi-db-clickhouse-0-0'', ''chi-db-clickhouse-0-0.ns'',
     ''chi-db-clickhouse-0-0.ns.svc'', ''chi-db-clickhouse-0-1.ns.svc.cluster.local'',
     ''*.chi-db-clickhouse-0-1.ns.svc.cluster.local''] \<subseteq> set (serverDNSNames ''db'' ''ns'' 2)"
  "length (serverDNSNames ''db'' ''ns'' 2) = 14"
  "hd (serverDNSNames ''db'' ''ns'' 2) = ''clickhouse-db''"
  "replicaServiceNames ''a234567890b234567890c234567890d234567890e234567890f23456789-xyz'' 1 =
     [''chi-a234567890b234567890c234567890d234567890e234567890f23456789-clickhouse-0-0'']"
  by code_simp+

definition ports_of :: "'s chi_spec \<Rightarrow> (int list \<times> string \<times> string) list" where
  "ports_of spec = (case chi_templates spec of None \<Rightarrow> []
     | Some t \<Rightarrow> map (\<lambda>s. (map sport_number (st_ports s), st_type s, st_cluster_ip s)) (service_templates t))"

definition empty_spec :: "setting table chi_spec" where
  "empty_spec = \<lparr>chi_task_id = None, chi_configuration = None, chi_templates = None, chi_defaults = None\<rparr>"

definition load_balancer :: "service_spec option" where
  "load_balancer = Some \<lparr>service_type = ''LoadBalancer'', service_annotations = [], source_ranges = None\<rparr>"

lemma TestConfigureExposePorts:
  "configureExpose test_ctx empty_spec None [] = empty_spec"
  "ports_of (configureExpose test_ctx empty_spec load_balancer []) = [([8123, 9000], ''LoadBalancer'', [])]"
  "ports_of (configureExpose test_ctx empty_spec load_balancer TLSModeOptional) = [([8123, 9000, 8443, 9440], ''LoadBalancer'', [])]"
  "ports_of (configureExpose test_ctx empty_spec load_balancer TLSModeRequired) = [([8443, 9440], ''LoadBalancer'', [])]"
  "ports_of (configureExpose test_ctx empty_spec None TLSModeRequired) = [([8443, 9440], ''ClusterIP'', ''None'')]"
  "ports_of (configureExpose test_ctx empty_spec None TLSModeOptional) = [([8123, 9000, 8443, 9440], ''ClusterIP'', ''None'')]"
  by (simp_all add: ports_of_def configureExpose_def exposeTemplate_def servicePort_def empty_spec_def load_balancer_def exposedPorts_def
      no_templates_def no_templates_list_def default_ports_def constants Let_def)

section \<open>The watch on the client Service (\<^verbatim>\<open>tls_test.go\<close>)\<close>

definition test_service :: "string \<Rightarrow> labels \<Rightarrow> string \<Rightarrow> lb_ingress list \<Rightarrow> service" where
  "test_service name ls type ingress = \<lparr>svc_name = name, svc_namespace = ''ns'', svc_labels = ls, svc_type = type,
     svc_ports = [], svc_lb_ingress = ingress\<rparr>"

definition ip :: "string \<Rightarrow> lb_ingress" where
  "ip a = \<lparr>ing_hostname = [], ing_ip = a, ing_rest = []\<rparr>"

definition hostname :: "string \<Rightarrow> lb_ingress" where
  "hostname a = \<lparr>ing_hostname = a, ing_ip = [], ing_rest = []\<rparr>"

lemma TestInstanceForClientService:
  "instanceForClientService (test_service ''clickhouse-db''
     [(LabelCHIName, ''db''), (labelOperatorService, operatorServiceCR)] [] []) = [(''ns'', ''db'')]"
  "instanceForClientService (test_service ''chi-db-clickhouse-0-0''
     [(LabelCHIName, ''db''), (labelOperatorService, ''host'')] [] []) = []"
  "instanceForClientService (test_service ''unrelated'' [] [] []) = []"
  by code_simp+

abbreviation balancer :: "lb_ingress list \<Rightarrow> service option" where
  "balancer \<equiv> \<lambda>ingress. Some (test_service ''clickhouse-db'' [] ''LoadBalancer'' ingress)"

abbreviation cluster_ip :: "service option" where
  "cluster_ip \<equiv> Some (test_service ''clickhouse-db'' [] [] [])"

lemma TestLoadBalancerAddressChanged:
  "loadBalancerAddressChanged (UpdateEvent (balancer []) (balancer [ip ''203.0.113.7'']))"
  "\<not> loadBalancerAddressChanged (UpdateEvent (balancer [ip ''203.0.113.7'']) (balancer [ip ''203.0.113.7'']))"
  "\<not> loadBalancerAddressChanged (UpdateEvent cluster_ip cluster_ip)"
  "loadBalancerAddressChanged (CreateEvent (balancer []))"
  "\<not> loadBalancerAddressChanged (CreateEvent cluster_ip)"
  by (simp_all add: isLoadBalancer_def test_service_def ip_def)

section \<open>Validation (\<^verbatim>\<open>validate_test.go\<close>, \<^verbatim>\<open>users_test.go\<close>)\<close>

lemma TestValidateCredentials:
  "validateUserSecretData [(''password'', ''long-enough-password'')] = Inr ()"
  "validateUserSecretData [(''username'', ''dba_1''), (''password'', ''long-enough-password'')] = Inr ()"
  "validateUserSecretData [(''password'', ''short'')] = Inl (Errorf ''password must be at least %d characters'' [AInt 12])"
  "validateUserSecretData [(''username'', ''dba'')] = Inl (Errorf ''password must be at least %d characters'' [AInt 12])"
  "validateUserSecretData [(''username'', ''default''), (''password'', ''long-enough-password'')] =
     Inl (Errorf ''username %q is reserved'' [AStr ''default''])"
  "\<exists>e. validateUserSecretData [(''username'', ''dba-1''), (''password'', ''long-enough-password'')] = Inl e"
  by (simp_all add: validateUserSecretData_def credential_keys get0_def usernamePattern_def name_start_def name_char_def
      reservedUsernames_def InterserverUser_def MinPasswordLength_def of_char_of Let_def)

text \<open>The tags of the test, and what the library's parser makes of them: pre-release parts are not segments.\<close>

definition test_versions :: "string \<Rightarrow> version option" where
  "test_versions t = map_option (\<lambda>segs. \<lparr>ver_original = t, ver_segments = segs\<rparr>)
     (map_of [(''25.3.5.42'', [25, 3, 5, 42]), (''25.3.5'', [25, 3, 5]), (''25.8.2'', [25, 8, 2]), (''25.3.5-alpine'', [25, 3, 5]),
        (''25.3.6'', [25, 3, 6]), (''24.8.14'', [24, 8, 14]), (''25.3.4'', [25, 3, 4]), (''25.2-alpine'', [25, 2, 0])] t)"

definition version_accepted :: "string \<Rightarrow> bool" where
  "version_accepted img = (let c = test_ctx\<lparr>parse_version := test_versions\<rparr> in
     case (imageVersion c ''clickhouse/clickhouse-server:25.3.5.42'', imageVersion c img) of
       (Some current, Some desired) \<Rightarrow> \<not> compareSegments desired current < 0 | _ \<Rightarrow> True)"

lemma TestValidateVersionDowngrade:
  "map version_accepted [''clickhouse/clickhouse-server:25.3.5'', ''clickhouse/clickhouse-server:25.8.2'',
     ''clickhouse/clickhouse-server:25.3.5-alpine'', ''clickhouse/clickhouse-server:latest'',
     ''registry:5000/clickhouse/server:25.3.6''] = [True, True, True, True, True]"
  "map version_accepted [''clickhouse/clickhouse-server:24.8.14'', ''clickhouse/clickhouse-server:25.3.4'',
     ''registry:5000/clickhouse/server:25.2-alpine''] = [False, False, False]"
  by code_simp+

lemma TestValidateConfiguration:
  "map ownedName [''max_concurrent_queries'', ''logger/level'', ''prometheus/metrics''] = [False, False, False]"
  "map ownedName [''http_port'', ''tcp_port_secure'', ''prometheus/port'', ''zookeeper/node/host'',
     ''openSSL/server/verificationMode'', ''remote_servers'', ''interserver_http_credentials/user''] =
     [True, True, True, True, True, True, True]"
  by code_simp+

section \<open>Connection details (\<^verbatim>\<open>connection_test.go\<close>)\<close>

definition ready_chi :: "setting table chi" where
  "ready_chi = \<lparr>chi_name = ''db'', chi_spec_of = empty_spec,
     chi_status = Some (completed_status\<lparr>os_endpoint := ''clickhouse-db.ns.svc.cluster.local''\<rparr>)\<rparr>"

abbreviation details_of :: "clickhouse_parameters \<Rightarrow> service option \<Rightarrow> connection_details" where
  "details_of \<equiv> \<lambda>ps found. connectionDetails (sample_ctx ps) ready_chi found [] (''dba'', ''p@ss/w:rd?#0123'')"

definition reported_ports :: "clickhouse_parameters \<Rightarrow> string \<times> string list" where
  "reported_ports ps = (let d = details_of ps None in (conn_port d, map (get0 (conn_additional d))
     [ConnectionKeyHTTPPort, ConnectionKeyNativePort, ConnectionKeyHTTPSPort, ConnectionKeyNativeSecurePort]))"

lemma small_numbers:
  "itoa 1 = ''1''" "itoa 2 = ''2''" "itoa 3 = ''3''" "itoa 8123 = ''8123''" "itoa 9000 = ''9000''" "itoa 8443 = ''8443''"
  "itoa 9440 = ''9440''" "itoa 30443 = ''30443''" "itoa 30440 = ''30440''"
  by code_simp+

lemma modes:
  "tlsMode (sample_ctx sample_parameters) = []" "\<not> tlsEnabled (sample_ctx sample_parameters)"
  "tlsMode (sample_ctx (tls_on ''required'')) = TLSModeRequired" "tlsEnabled (sample_ctx (tls_on ''required''))"
  "tlsMode (sample_ctx (tls_on ''optional'')) = TLSModeOptional" "tlsEnabled (sample_ctx (tls_on ''optional''))"
  by code_simp+

lemmas connection_eval =
  connectionDetails_def ready_chi_def completed_status_def clientPorts_def modes constants small_numbers get0_def test_service_def
  loadBalancerAddress_def addNodePorts_def nodePortFor_def ip_def hostname_def Let_def

lemma TestConnectionDetailsPortsFollowTLSMode:
  "reported_ports sample_parameters = (''8123'', [''8123'', ''9000'', [], []])"
  "reported_ports (tls_on ''required'') = (''8443'', [[], [], ''8443'', ''9440''])"
  "reported_ports (tls_on ''optional'') = (''8443'', [''8123'', ''9000'', ''8443'', ''9440''])"
  by (simp_all add: reported_ports_def connection_eval)

lemma TestConnectionDetailsUseLoadBalancerAddress:
  "map (\<lambda>ingress. conn_host (details_of sample_parameters (balancer ingress)))
     [[], [ip ''203.0.113.7''], [ip ''203.0.113.7'', hostname ''db.example.com'']] =
     [''clickhouse-db.ns.svc.cluster.local'', ''203.0.113.7'', ''db.example.com'']"
  "get0 (conn_additional (details_of sample_parameters (balancer [ip ''203.0.113.7'']))) ConnectionKeyInternalHost =
     ''clickhouse-db.ns.svc.cluster.local''"
  by (simp_all add: reported_ports_def connection_eval)

abbreviation node_port_service :: "string \<Rightarrow> service option" where
  "node_port_service \<equiv> \<lambda>type. Some ((test_service ''clickhouse-db'' [] type [])\<lparr>svc_ports := [(8443, 30443), (9440, 30440)]\<rparr>)"

lemma TestConnectionDetailsReportNodePorts:
  "map (map_of (conn_additional (details_of (tls_on ''required'') (node_port_service ''NodePort''))))
     [''https_port_node_port'', ''native_secure_port_node_port'', ''http_port_node_port''] = [Some ''30443'', Some ''30440'', None]"
  "map_of (conn_additional (details_of (tls_on ''required'') (node_port_service ''ClusterIP''))) ''https_port_node_port'' = None"
  by (simp_all add: reported_ports_def connection_eval)

lemma TestConnectionURIEscapesCredentialsAndIPv6:
  "conn_uri (details_of sample_parameters (balancer [ip ''2001:db8::7''])) =
     ''http://dba:p%40ss%2Fw%3Ard%3F%230123@[2001:db8::7]:8123/''"
  by code_simp

section \<open>The reported status (\<^verbatim>\<open>status_test.go\<close>)\<close>

definition op :: "op_state \<Rightarrow> string \<Rightarrow> bool \<Rightarrow> int \<Rightarrow> int \<Rightarrow> op_status option" where
  "op state err before hosts ready = Some \<lparr>os_state = state, os_error = err,
     os_task_ids_completed = (if before then [''task-1''] else []), os_hosts = hosts, os_hosts_completed = ready, os_endpoint = []\<rparr>"

abbreviation "completed \<equiv> op StCompleted [] True 2 2"
abbreviation "creating \<equiv> op StInProgress [] False 2 1"
abbreviation "updating \<equiv> op StInProgress [] True 2 1"
abbreviation "aborted \<equiv> op StAborted ''Update Service failed'' True 0 0"

text \<open>A cluster with the installations that exist, by their status; the phase, the message and whether connection
  details are kept.\<close>

definition live :: "op_status option \<Rightarrow> op_status option \<Rightarrow> secret table \<Rightarrow> cluster" where
  "live keeper clickhouse secrets = empty_cluster\<lparr>
     cl_chk := (if keeper = None then [] else [(''db-keeper'', \<lparr>chk_name = ''db-keeper'',
       chk_spec_of = \<lparr>chk_task_id = None, chk_configuration = None, chk_templates = None\<rparr>, chk_status = keeper\<rparr>)]),
     cl_chi := (if clickhouse = None then [] else [(''db'', \<lparr>chi_name = ''db'', chi_spec_of = empty_spec, chi_status = clickhouse\<rparr>)]),
     cl_secrets := secrets\<rparr>"

definition reported :: "string \<Rightarrow> clickhouse_parameters \<Rightarrow> cluster \<Rightarrow> (phase \<times> string \<times> bool) option" where
  "reported topology ps w =
     (case result (Status ((sample_ctx ps)\<lparr>ctx_instance := sample_instance\<lparr>inst_topology_type := topology\<rparr>\<rparr>)) w of
        Inl _ \<Rightarrow> None | Inr st \<Rightarrow> Some (st_phase st, st_message st, st_connection st \<noteq> None))"

lemmas status_eval =
  reported_def live_def op_def Status_def servingDetails_def statusFrom_def keeperStatus_def readyStatus_def
  buildConnectionDetails_def readCredentials_def readCACert_def serverCertificateIssued_def clickhouseView_def chiInstallation_def
  chkInstallation_def observed_def missing_def installationStatus_def inProgressStatus_def provisioning_def failed_def readyWith_def
  rolledOut_def run_simps call_defs lookup_in_def empty_cluster_def empty_spec_def keeperCRName_def replicated_def
  TopologyReplicated_def sample_instance_def tlsEnabled_def tlsParameters_def sample_parameters_def tls_on_def component_def
  equal_fold_def TLSEnabled_def serverSecretName_def ServerCertSecretSuffix_def credentialsSecretName_def CredentialsSecretSuffix_def
  small_numbers get0_def

abbreviation "standalone \<equiv> reported ''standalone'' sample_parameters"

lemma TestStatus_standalone:
  "standalone (live None None []) = Some (Provisioning, ''Creating ClickHouse'', False)"
  "standalone (live None creating []) = Some (Provisioning, ''Creating ClickHouse: 1 of 2 hosts ready'', False)"
  "standalone (live None completed []) = Some (Ready, [], True)"
  "standalone (live None updating []) = Some (Updating, ''Updating ClickHouse: 1 of 2 hosts ready'', True)"
  "standalone (live None aborted []) = Some (Failed, ''ClickHouse: Update Service failed'', False)"
  "standalone (live None (op StAborted [] False 0 0) []) =
     Some (Failed, ''ClickHouse: the operator aborted the last change'', False)"
  by (simp_all add: status_eval)

abbreviation "duplicated \<equiv> reported ''replicated'' sample_parameters"

lemma TestStatus_replicated:
  "duplicated (live None None []) = Some (Provisioning, ''Creating ClickHouse Keeper'', False)"
  "duplicated (live (op StInProgress [] False 3 1) None []) =
     Some (Provisioning, ''Creating ClickHouse Keeper: 1 of 3 hosts ready'', False)"
  "duplicated (live completed creating []) = Some (Provisioning, ''Creating ClickHouse: 1 of 2 hosts ready'', False)"
  "duplicated (live (op StInProgress [] True 3 2) completed []) =
     Some (Updating, ''Updating ClickHouse Keeper: 2 of 3 hosts ready'', True)"
  "duplicated (live None completed []) = Some (Updating, ''Creating ClickHouse Keeper'', True)"
  "duplicated (live aborted completed []) = Some (Failed, ''ClickHouse Keeper: Update Service failed'', False)"
  "duplicated (live completed completed []) = Some (Ready, [], True)"
  by (simp_all add: status_eval)

definition issued :: "secret table" where
  "issued = [(''db-server-tls'', \<lparr>secret_name = ''db-server-tls'',
     secret_data = [(''tls.crt'', ''cert''), (''tls.key'', ''key''), (''ca.crt'', ''ca'')]\<rparr>)]"

lemma TestStatus_certificate:
  "reported ''standalone'' (tls_on []) (live None completed []) = Some (Updating, ''Waiting for the TLS certificate'', True)"
  "reported ''standalone'' (tls_on []) (live None completed issued) = Some (Ready, [], True)"
  by (simp_all add: status_eval issued_def)

section \<open>Network policies (\<^verbatim>\<open>tls_test.go\<close>, \<^verbatim>\<open>keeper_tls_test.go\<close>)\<close>

definition in_namespace :: "string \<Rightarrow> (setting table, cluster) ctx" where
  "in_namespace ns = test_ctx\<lparr>getenv := (\<lambda>v. if v = EnvOperatorNamespace then ns else [])\<rparr>"

definition policy_view :: "err + network_policy \<Rightarrow> (labels \<times> (labels option list \<times> labels option list \<times> int list) list) option" where
  "policy_view r = (case r of Inl _ \<Rightarrow> None | Inr p \<Rightarrow> Some (np_pod_selector p,
     map (\<lambda>x. (map peer_namespace_labels (rule_from x), map peer_pod_labels (rule_from x), map snd (rule_ports x))) (np_ingress p)))"

lemma TestPlaintextPolicyFollowsAppliedCHI:
  "policy_view (plaintextPolicy (in_namespace ''clickhouse-provider'')) =
     Some ([(LabelCHIName, ''db'')],
       [([], [], [8443, 9440, 9363]),
        ([None, Some [(''kubernetes.io/metadata.name'', ''clickhouse-provider'')]],
         [Some [(LabelCHIName, ''db'')], Some [(''app.kubernetes.io/name'', ''operator'')]], [8123, 9000, 9009, 9010])])"
  "map (\<lambda>mode. appliedTLSRequired (ready_chi\<lparr>chi_spec_of := configureExpose test_ctx empty_spec None mode\<rparr>))
     [[], TLSModeRequired, TLSModeOptional] = [False, True, False]"
  by code_simp+

lemma TestKeeperPolicy:
  "map_option (\<lambda>(pods, rules). (pods, map (\<lambda>(_, from, ports). (from, ports)) rules))
     (policy_view (keeperPolicy (in_namespace ''clickhouse-provider''))) =
   Some ([(LabelCHKName, ''db-keeper'')],
     [([Some [(LabelCHIName, ''db'')]], [2181, 2281]),
      ([Some [(LabelCHKName, ''db-keeper'')]], [2181, 2281, 9444]),
      ([Some [(''app.kubernetes.io/name'', ''operator'')]], [])])"
  by code_simp

lemma TestOperatorPeerDefaults:
  "operatorPeer ((in_namespace ''ops'')\<lparr>selector_labels := (\<lambda>s. if s = DefaultOperatorPodLabels
       then Some [(''app.kubernetes.io/name'', ''operator'')] else None)\<rparr>) =
     Inr \<lparr>peer_namespace_labels = Some [(''kubernetes.io/metadata.name'', ''ops'')],
          peer_pod_labels = Some [(''app.kubernetes.io/name'', ''operator'')]\<rparr>"
  "\<exists>e. operatorPeer ((in_namespace ''ops'')\<lparr>selector_labels := (\<lambda>_. None)\<rparr>) = Inl e"
  by (simp_all add: operatorPeer_def in_namespace_def EnvOperatorNamespace_def EnvOperatorPodLabels_def)

section \<open>Parameters (\<^verbatim>\<open>provider_test.go\<close>)\<close>

lemma TestStorageReclaimPolicy:
  "map (\<lambda>p. storageReclaimPolicy (sample_ctx (sample_parameters\<lparr>par_reclaim_policy := p\<rparr>)))
     [[], ''Retain'', ''Delete'', ''delete''] = [''Retain'', ''Retain'', ''Delete'', ''Delete'']"
  by code_simp

lemma TestTLSEnabled:
  "map (\<lambda>p. tlsEnabled (sample_ctx (sample_parameters\<lparr>par_tls := p\<rparr>)))
     [None, Some \<lparr>tls_enabled_value = ''disabled'', tls_mode_value = [], tls_issuer_ref = None\<rparr>,
      Some \<lparr>tls_enabled_value = ''enabled'', tls_mode_value = [], tls_issuer_ref = None\<rparr>] = [False, False, True]"
  by code_simp

end
