(* ===== verification/Api_Store.thy ===== *)
theory Api_Store
  imports Store
begin

text \<open>
  The API server as the reconcile relies on it: the locale \<open>api_store\<close> states that it stores what it is given and
  that nobody else writes in between, and the Store is an instance. Inside it every program can be followed object by
  object: \<open>runs\<close> is what one run leaves stored, \<open>idle\<close> says that a program finds everything as it wants it.
\<close>

section \<open>An API server that stores objects\<close>

record 's stored =
  at_chi :: "string \<Rightarrow> 's chi option"
  at_chk :: "string \<Rightarrow> 's chk option"
  at_secret :: "string \<Rightarrow> secret option"
  at_service :: "string \<Rightarrow> service option"
  at_policy :: "string \<Rightarrow> network_policy option"
  at_certificate :: "string \<Rightarrow> certificate option"
  at_issuer :: "string \<Rightarrow> issuer option"
  at_monitor :: "string \<Rightarrow> pod_monitor option"
  at_instance :: inst
  at_pods :: "string \<times> string \<Rightarrow> pod list"

definition answer :: "'a option \<Rightarrow> api_error + 'a" where
  "answer found = (case found of None \<Rightarrow> Inl NotFound | Some x \<Rightarrow> Inr x)"

text \<open>Applying a CHI or a CHK leaves the status the operator wrote.\<close>

fun put_obj :: "'s obj \<Rightarrow> 's stored \<Rightarrow> 's stored" where
  "put_obj (OCHI x) s = s\<lparr>at_chi := (at_chi s)(chi_name x \<mapsto> x\<lparr>chi_status := Option.bind (at_chi s (chi_name x)) chi_status\<rparr>)\<rparr>"
| "put_obj (OCHK x) s = s\<lparr>at_chk := (at_chk s)(chk_name x \<mapsto> x\<lparr>chk_status := Option.bind (at_chk s (chk_name x)) chk_status\<rparr>)\<rparr>"
| "put_obj (OSecret x) s = s\<lparr>at_secret := (at_secret s)(secret_name x \<mapsto> x)\<rparr>"
| "put_obj (OCertificate x) s = s\<lparr>at_certificate := (at_certificate s)(cert_name x \<mapsto> x)\<rparr>"
| "put_obj (OIssuer x) s = s\<lparr>at_issuer := (at_issuer s)(iss_name x \<mapsto> x)\<rparr>"
| "put_obj (OPolicy x) s = s\<lparr>at_policy := (at_policy s)(np_name x \<mapsto> x)\<rparr>"
| "put_obj (OPodMonitor x) s = s\<lparr>at_monitor := (at_monitor s)(pm_name x \<mapsto> x)\<rparr>"

fun drop_obj :: "kind \<Rightarrow> string \<Rightarrow> 's stored \<Rightarrow> 's stored" where
  "drop_obj KCHI n s = s\<lparr>at_chi := (at_chi s)(n := None)\<rparr>"
| "drop_obj KCHK n s = s\<lparr>at_chk := (at_chk s)(n := None)\<rparr>"
| "drop_obj KSecret n s = s\<lparr>at_secret := (at_secret s)(n := None)\<rparr>"
| "drop_obj KCertificate n s = s\<lparr>at_certificate := (at_certificate s)(n := None)\<rparr>"
| "drop_obj KIssuer n s = s\<lparr>at_issuer := (at_issuer s)(n := None)\<rparr>"
| "drop_obj KPolicy n s = s\<lparr>at_policy := (at_policy s)(n := None)\<rparr>"
| "drop_obj KPodMonitor n s = s\<lparr>at_monitor := (at_monitor s)(n := None)\<rparr>"
| "drop_obj _ n s = s"

text \<open>Applying what is stored already changes nothing.\<close>

lemma put_same:
  "at_secret s (secret_name x) = Some x \<Longrightarrow> put_obj (OSecret x) s = s"
  "at_certificate s (cert_name y) = Some y \<Longrightarrow> put_obj (OCertificate y) s = s"
  "at_issuer s (iss_name z) = Some z \<Longrightarrow> put_obj (OIssuer z) s = s"
  "at_policy s (np_name p) = Some p \<Longrightarrow> put_obj (OPolicy p) s = s"
  "at_monitor s (pm_name m) = Some m \<Longrightarrow> put_obj (OPodMonitor m) s = s"
  "at_chi s (chi_name i) = Some (i\<lparr>chi_status := st\<rparr>) \<Longrightarrow> put_obj (OCHI i) s = s"
  "at_chk s (chk_name k) = Some (k\<lparr>chk_status := st\<rparr>) \<Longrightarrow> put_obj (OCHK k) s = s"
  by (simp_all add: fun_upd_idem)

section \<open>The laws\<close>

text \<open>
  The laws: a read answers with what is stored, an apply replaces, a delete removes whether or not the
  object is there, nothing else changes what is stored, and no other client writes in between. The world
  may keep more than what is stored (what the random source and the maintenance protocol need).
\<close>

locale api_store =
  fixes c :: "('s, 'w) ctx" and look :: "'w \<Rightarrow> 's stored"
  assumes reads_chi: "fst (api_get_chi c n w) = answer (at_chi (look w) n)" "look (snd (api_get_chi c n w)) = look w"
    and reads_chk: "fst (api_get_chk c n w) = answer (at_chk (look w) n)" "look (snd (api_get_chk c n w)) = look w"
    and reads_secret: "fst (api_get_secret c n w) = answer (at_secret (look w) n)" "look (snd (api_get_secret c n w)) = look w"
    and reads_service: "fst (api_get_service c n w) = answer (at_service (look w) n)" "look (snd (api_get_service c n w)) = look w"
    and reads_policy: "fst (api_get_policy c n w) = answer (at_policy (look w) n)" "look (snd (api_get_policy c n w)) = look w"
    and reads_instance: "fst (api_get_instance c n w) = Inr (at_instance (look w))" "look (snd (api_get_instance c n w)) = look w"
    and lists_pods: "fst (api_list_pods c sel w) = Inr (at_pods (look w) sel)" "look (snd (api_list_pods c sel w)) = look w"
    and applies: "fst (api_apply c x w) = None" "look (snd (api_apply c x w)) = put_obj x (look w)"
    and deletes: "fst (api_delete c k n w) = None" "look (snd (api_delete c k n w)) = drop_obj k n (look w)"
    and draws: "look (snd (api_random c m w)) = look w"
    and asks: "look (snd (api_request_maintenance c a w)) = look w"
begin

text \<open>\<open>runs m w a s\<close>: run in \<open>w\<close>, the program returns \<open>a\<close> and leaves \<open>s\<close> stored.\<close>

definition runs :: "('s, 'w, 'a) act \<Rightarrow> 'w \<Rightarrow> 'a \<Rightarrow> 's stored \<Rightarrow> bool" where
  "runs m w a s \<longleftrightarrow> result m w = Inr a \<and> look (world m w) = s"

text \<open>\<open>idle m a s\<close>: wherever \<open>s\<close> is stored, the program returns \<open>a\<close> and changes nothing.\<close>

definition idle :: "('s, 'w, 'a) act \<Rightarrow> 'a \<Rightarrow> 's stored \<Rightarrow> bool" where
  "idle m a s \<longleftrightarrow> (\<forall>w. look w = s \<longrightarrow> runs m w a s)"

lemma call_results [simp]:
  "result (get_chi c n) w = Inr (answer (at_chi (look w) n))" "look (world (get_chi c n) w) = look w"
  "result (get_chk c n) w = Inr (answer (at_chk (look w) n))" "look (world (get_chk c n) w) = look w"
  "result (get_secret c n) w = Inr (answer (at_secret (look w) n))" "look (world (get_secret c n) w) = look w"
  "result (get_service c n) w = Inr (answer (at_service (look w) n))" "look (world (get_service c n) w) = look w"
  "result (get_policy c n) w = Inr (answer (at_policy (look w) n))" "look (world (get_policy c n) w) = look w"
  "result (get_instance c n) w = Inr (Inr (at_instance (look w)))" "look (world (get_instance c n) w) = look w"
  "result (list_pods c sel) w = Inr (Inr (at_pods (look w) sel))" "look (world (list_pods c sel) w) = look w"
  "result (apply_obj c x) w = Inr None" "look (world (apply_obj c x) w) = put_obj x (look w)"
  "result (delete_obj c k n) w = Inr None" "look (world (delete_obj c k n) w) = drop_obj k n (look w)"
  "look (world (random_bytes c m) w) = look w" "look (world (request_maintenance c a) w) = look w"
  by (simp_all add: call_defs reads_chi reads_chk reads_secret reads_service reads_policy reads_instance lists_pods
      applies deletes draws asks)

lemma optional_result [simp]:
  "result (getOptional name (get_chi c n)) w = Inr (at_chi (look w) n)"
  "result (getOptional name (get_chk c n)) w = Inr (at_chk (look w) n)"
  "result (getOptional name (get_secret c n)) w = Inr (at_secret (look w) n)"
  "result (getOptional name (get_service c n)) w = Inr (at_service (look w) n)"
  "result (getOptional name (get_policy c n)) w = Inr (at_policy (look w) n)"
  by (simp_all add: answer_def split: option.splits)

lemma runs_bind: "runs (bind m f) w b s \<longleftrightarrow> (\<exists>a. result m w = Inr a \<and> runs (f a) (world m w) b s)"
  by (auto simp: runs_def run_simps split: sum.splits)

lemma runs_andthen: "runs (andthen m p) w b s \<longleftrightarrow> result m w = Inr () \<and> runs p (world m w) b s"
  by (auto simp: andthen_def runs_bind)

lemma runs_bindE:
  assumes "runs (bind m f) w b s"
  obtains a where "runs m w a (look (world m w))" and "runs (f a) (world m w) b s"
  using assms by (auto simp: runs_bind) (auto simp: runs_def)

lemma runs_andthenE:
  assumes "runs (andthen m p) w b s"
  obtains "runs m w () (look (world m w))" and "runs p (world m w) b s"
  using assms by (auto simp: runs_andthen) (auto simp: runs_def)

lemma runs_simps [simp]:
  "runs (ret a) w b s \<longleftrightarrow> b = a \<and> s = look w" "\<not> runs (throw e) w b s"
  "runs (wrap_err g m) w b s \<longleftrightarrow> runs m w b s" "runs (lift_result r) w b s \<longleftrightarrow> r = Inr b \<and> s = look w"
  "runs (attempt m) w q s \<longleftrightarrow> q = result m w \<and> s = look (world m w)"
  "runs (must h (apply_obj c x)) w u s \<longleftrightarrow> s = put_obj x (look w)"
  "runs (must h (delete_obj c k n)) w u s \<longleftrightarrow> s = drop_obj k n (look w)"
  by (auto simp: runs_def wrap_err_Inr simp del: wrap_err_simps(1))

text \<open>The rules of \<open>idle\<close>. What is idle everywhere is a read, and its answer is known.\<close>

lemma idle_runs: "idle m a (look w) \<Longrightarrow> runs m w b s \<longleftrightarrow> b = a \<and> s = look w"
  by (auto simp: idle_def runs_def)

lemma idle_result: "idle m a (look w) \<Longrightarrow> result m w = Inr a" "idle m a (look w) \<Longrightarrow> look (world m w) = look w"
  by (simp_all add: idle_def runs_def)

lemma idle_bind: "idle m a s \<Longrightarrow> idle (f a) b s \<Longrightarrow> idle (bind m f) b s"
  by (auto simp: idle_def runs_bind) (auto simp: runs_def)

lemma idle_andthen: "idle m () s \<Longrightarrow> idle p b s \<Longrightarrow> idle (andthen m p) b s"
  by (simp add: andthen_def idle_bind)

lemma idle_simps [simp]:
  "idle (ret a) a s" "idle (wrap_err g m) b s \<longleftrightarrow> idle m b s"
  by (simp_all add: idle_def)

lemma idle_lift: "r = Inr a \<Longrightarrow> idle (lift_result r) a s"
  by (simp add: idle_def)

lemma idle_attempt: "idle m a s \<Longrightarrow> idle (attempt m) (Inr a) s"
  by (simp add: idle_def runs_def)

lemma idle_reads [simp]:
  "idle (get_chi c n) (answer (at_chi s n)) s" "idle (get_chk c n) (answer (at_chk s n)) s"
  "idle (get_secret c n) (answer (at_secret s n)) s" "idle (get_instance c n) (Inr (at_instance s)) s"
  "idle (list_pods c sel) (Inr (at_pods s sel)) s"
  "idle (getOptional name (get_chi c n)) (at_chi s n) s" "idle (getOptional name (get_chk c n)) (at_chk s n) s"
  "idle (getOptional name (get_secret c n)) (at_secret s n) s" "idle (getOptional name (get_service c n)) (at_service s n) s"
  "idle (getOptional name (get_policy c n)) (at_policy s n) s"
  by (auto simp: idle_def runs_def simp del: getOptional_simps(1))

lemma idle_apply: "put_obj x s = s \<Longrightarrow> idle (must h (apply_obj c x)) () s"
  by (simp add: idle_def)

end

section \<open>The Store\<close>

definition cluster_view :: "cluster \<Rightarrow> setting table stored" where
  "cluster_view w =
     \<lparr>at_chi = map_of (cl_chi w), at_chk = map_of (cl_chk w), at_secret = map_of (cl_secrets w),
      at_service = map_of (cl_services w), at_policy = map_of (cl_policies w), at_certificate = map_of (cl_certificates w),
      at_issuer = map_of (cl_issuers w), at_monitor = map_of (cl_monitors w),
      at_instance = (case cl_instance w of None \<Rightarrow> sample_instance | Some i \<Rightarrow> i), at_pods = (\<lambda>_. cl_pods w)\<rparr>"

lemma map_of_removed: "map_of (remove_from n m) = (map_of m)(n := None)"
  by (induction m) (auto simp: remove_from_def fun_eq_iff)

lemma view_store: "cluster_view (store_obj x w) = put_obj x (cluster_view w)"
  by (cases x) (simp_all add: cluster_view_def fun_eq_iff)

lemma view_remove: "cluster_view (remove_obj k n w) = drop_obj k n (cluster_view w)"
  by (cases k) (simp_all add: cluster_view_def map_of_removed)

interpretation sample_store: api_store "sample_ctx p" cluster_view for p
  by (unfold_locales; (simp add: view_store view_remove)?; auto simp: cluster_view_def lookup_in_def answer_def split: option.splits)

end
