(* ===== verification/Deletion.thy ===== *)
theory Deletion
  imports Failures Api_Store
begin

text \<open>
  A teardown runs to its end: \<^verbatim>\<open>Cleanup\<close> is called again and again while the operator works off the finalizers. The
  locale \<open>deleting_server\<close> is the API server as \<^verbatim>\<open>Cleanup\<close> relies on it; deletion takes effect later, when the
  owner of a finalizer lets go. The instance is the Store with finalizers on the CHI and the CHK.
\<close>

section \<open>An API server that deletes with finalizers\<close>

text \<open>What exists, what of it nobody has asked to delete, and the volumes that match a selector.\<close>

record departing =
  dp_there :: "(kind \<times> string) set"
  dp_live :: "(kind \<times> string) set"
  dp_vols :: "string \<times> string \<Rightarrow> string set"

text \<open>
  The laws: nothing is created; reads and the two patches of the reclaim policy change nothing of this; a \<^verbatim>\<open>Get\<close>
  finds the object or not; a patch that fits the templates just read is accepted, and so is a label of a volume
  listed; a deletion is asked for and may take effect later, or the optional kind is not installed.
\<close>

locale deleting_server =
  fixes c :: "('s, 'w) ctx" and look :: "'w \<Rightarrow> departing"
  assumes live_there: "dp_live (look w) \<subseteq> dp_there (look w)"
    and finds_chi: "fst (api_get_chi c n w) = Inl NotFound \<or> (\<exists>x. fst (api_get_chi c n w) = Inr x)"
    and finds_chk: "fst (api_get_chk c n w) = Inl NotFound \<or> (\<exists>x. fst (api_get_chk c n w) = Inr x)"
    and patches_chi: "fst (api_get_chi c n w) = Inr x \<Longrightarrow> chi_templates (chi_spec_of x) = Some t \<Longrightarrow>
      applyPatch ops (volume_claim_templates t) \<noteq> None \<Longrightarrow> fst (api_json_patch c KCHI n ops (snd (api_get_chi c n w))) = None"
    and patches_chk: "fst (api_get_chk c n w) = Inr z \<Longrightarrow> chk_templates (chk_spec_of z) = Some t \<Longrightarrow>
      applyPatch ops (volume_claim_templates t) \<noteq> None \<Longrightarrow> fst (api_json_patch c KCHK n ops (snd (api_get_chk c n w))) = None"
    and lists: "\<exists>ps. fst (api_list_pvcs c sel w) = Inr ps \<and> pvc_name ` set ps = dp_vols (look w) sel"
    and labels: "n \<in> dp_vols (look w) sel \<Longrightarrow> fst (api_label_pvc c n l v w) = None"
    and checks: "k \<in> {KCHI, KCHK} \<Longrightarrow> fst (api_exists c k n w) = Inr ((k, n) \<in> dp_there (look w))"
    and keeps_look: "look (snd (api_get_chi c n w)) = look w" "look (snd (api_get_chk c n w)) = look w"
      "look (snd (api_json_patch c k n ops w)) = look w" "look (snd (api_list_pvcs c sel w)) = look w"
      "look (snd (api_label_pvc c n l v w)) = look w" "look (snd (api_exists c k n w)) = look w"
    and deletes: "fst (api_delete c k n w) = None \<or>
      (fst (api_delete c k n w) = Some NoMatch \<and> k \<in> {KPodMonitor, KCertificate, KIssuer})"
    and asked: "dp_live (look (snd (api_delete c k n w))) = dp_live (look w) - {(k, n)}"
      "dp_there (look (snd (api_delete c k n w))) \<subseteq> dp_there (look w)"
      "dp_vols (look (snd (api_delete c k n w))) sel \<subseteq> dp_vols (look w) sel"
      "k \<noteq> KPVC \<Longrightarrow> dp_vols (look (snd (api_delete c k n w))) = dp_vols (look w)"

text \<open>
  What others do meanwhile: \<open>shrunk s t\<close>, objects leave and nothing comes back. \<open>goes_on\<close> is any sequence of
  that and of further calls of \<open>Cleanup\<close>.
\<close>

definition shrunk :: "departing \<Rightarrow> departing \<Rightarrow> bool" where
  "shrunk s t \<longleftrightarrow> dp_there t \<subseteq> dp_there s \<and> dp_live t \<subseteq> dp_live s \<and> (\<forall>sel. dp_vols t sel \<subseteq> dp_vols s sel)"

inductive goes_on :: "('s, 'w) ctx \<Rightarrow> ('w \<Rightarrow> departing) \<Rightarrow> 'w \<Rightarrow> 'w \<Rightarrow> bool" for c look where
  same: "goes_on c look w w"
| again: "goes_on c look w v \<Longrightarrow> goes_on c look w (world (Cleanup c) v)"
| others: "goes_on c look w v \<Longrightarrow> shrunk (look v) (look u) \<Longrightarrow> goes_on c look w u"

lemma shrunk_refl [simp]: "shrunk s s"
  by (simp add: shrunk_def)

lemma shrunk_trans [trans]: "shrunk s t \<Longrightarrow> shrunk t u \<Longrightarrow> shrunk s u"
  unfolding shrunk_def by blast

text \<open>Everything in \<open>K\<close>, and nothing else, was asked to be deleted.\<close>

definition cleared :: "(kind \<times> string) set \<Rightarrow> departing \<Rightarrow> departing \<Rightarrow> bool" where
  "cleared K s t \<longleftrightarrow> shrunk s t \<and> dp_live t = dp_live s - K \<and> (KPVC \<notin> fst ` K \<longrightarrow> dp_vols t = dp_vols s)"

lemma cleared_refl [simp]: "cleared {} s s"
  by (simp add: cleared_def)

lemma cleared_trans: "cleared K s t \<Longrightarrow> cleared L t u \<Longrightarrow> cleared (K \<union> L) s u"
  unfolding cleared_def by (auto simp: image_Un intro: shrunk_trans)

text \<open>The owned objects \<open>Cleanup\<close> asks to delete before it waits for the first time.\<close>

definition startObjects :: "('s, 'w) ctx \<Rightarrow> (kind \<times> string) list" where
  "startObjects c =
     [(KCHI, ctx_name c), (KPodMonitor, podMonitorName (ctx_name c)), (KSecret, credentialsSecretName (ctx_name c)),
      (KSecret, rolloutStateName (ctx_name c))] @ tlsResources (ctx_name c)"

lemma owned_start: "ownedObjects c = startObjects c @ (if replicated c then [(KCHK, keeperCRName (ctx_name c))] else [])"
  by (simp add: ownedObjects_def startObjects_def)

text \<open>The volumes of the Instance, by the operator's labels.\<close>

definition instanceVolumes :: "('s, 'w) ctx \<Rightarrow> departing \<Rightarrow> string set" where
  "instanceVolumes c s = dp_vols s (LabelCHIName, ctx_name c) \<union> dp_vols s (LabelCHKName, keeperCRName (ctx_name c))"

context deleting_server
begin

text \<open>\<open>clears m K\<close>: \<open>m\<close> returns, asks to delete \<open>K\<close> and touches nothing else.\<close>

definition clears :: "('s, 'w, unit) act \<Rightarrow> (kind \<times> string) set \<Rightarrow> bool" where
  "clears m K \<longleftrightarrow> (\<forall>w. result m w = Inr () \<and> cleared K (look w) (look (world m w)))"

lemma clears_andthen: "clears m K \<Longrightarrow> clears p L \<Longrightarrow> clears (andthen m p) (K \<union> L)"
  unfolding clears_def by (auto simp: andthen_def run_simps intro: cleared_trans)

lemma clears_ret: "clears (ret ()) {}"
  by (simp add: clears_def)

lemma cleared_delete: "cleared {(k, n)} (look w) (look (snd (api_delete c k n w)))"
  using asked by (auto simp: cleared_def shrunk_def)

lemma clears_delete: "k \<notin> {KPodMonitor, KCertificate, KIssuer} \<Longrightarrow> clears (must f (delete_obj c k n)) {(k, n)}"
  using deletes [of k n] by (auto simp: clears_def delete_obj_def must_def run_simps cleared_delete split: option.splits)

lemma clears_optional:
  "clears (bind (delete_obj c k n) (\<lambda>r. case r of None \<Rightarrow> ret () | Some NoMatch \<Rightarrow> ret () | Some e \<Rightarrow> throw (f e))) {(k, n)}"
  unfolding clears_def delete_obj_def
proof
  fix w
  from deletes [of k n w] show "result (bind (call (api_delete c k n) (Deleted k n))
      (\<lambda>r. case r of None \<Rightarrow> ret () | Some NoMatch \<Rightarrow> ret () | Some e \<Rightarrow> throw (f e))) w = Inr () \<and>
    cleared {(k, n)} (look w) (look (world (bind (call (api_delete c k n) (Deleted k n))
      (\<lambda>r. case r of None \<Rightarrow> ret () | Some NoMatch \<Rightarrow> ret () | Some e \<Rightarrow> throw (f e))) w))"
    by (auto simp: run_simps cleared_delete)
qed

lemma clears_deleteAll: "clears (deleteAll c xs) (set xs)"
proof (induction xs)
  case (Cons x xs)
  obtain k n where "x = (k, n)" by (cases x)
  with clears_andthen [OF clears_optional Cons.IH [unfolded deleteAll_def]] show ?case
    by (simp add: deleteAll_def)
qed (simp add: deleteAll_def clears_ret)

lemma clears_start: "clears (cleanupStart c) (set (startObjects c))"
proof -
  have "clears (deletePodMonitor c) {(KPodMonitor, podMonitorName (ctx_name c))}"
    unfolding deletePodMonitor_def by (rule clears_optional)
  then have "clears (cleanupStart c) ({(KCHI, ctx_name c)} \<union> ({(KPodMonitor, podMonitorName (ctx_name c))} \<union>
      ({(KSecret, credentialsSecretName (ctx_name c))} \<union> ({(KSecret, rolloutStateName (ctx_name c))} \<union> set (tlsResources (ctx_name c))))))"
    unfolding cleanupStart_def deleteTLSResources_def
    by (intro clears_andthen clears_delete clears_deleteAll) simp_all
  then show ?thesis by (simp add: startObjects_def Un_commute insert_commute Un_assoc)
qed

text \<open>The reclaim policy is brought to the operator without an error and without a change to what exists.\<close>

lemma clears_for_each: "(\<And>x. x \<in> set xs \<Longrightarrow> clears (f x) {}) \<Longrightarrow> clears (for_each xs f) {}"
proof (induction xs)
  case (Cons x xs)
  then have "clears (andthen (f x) (for_each xs f)) ({} \<union> {})" by (intro clears_andthen) auto
  then show ?case by simp
qed (simp add: clears_ret)

lemma fits: "applyPatch (reclaimOps policy 0 vs) vs \<noteq> None"
  using applyPatch_same [of "[]" 0 policy vs] by simp

lemma clears_patch_chi:
  "clears (patchVolumeClaimTemplates c KCHI n policy
     (bind (get_chi c n) (\<lambda>r. ret (map_sum id (\<lambda>x. chi_templates (chi_spec_of x)) r)))) {}"
  unfolding clears_def
proof
  fix w
  consider "fst (api_get_chi c n w) = Inl NotFound" | x where "fst (api_get_chi c n w) = Inr x" using finds_chi by blast
  then show "result (patchVolumeClaimTemplates c KCHI n policy
     (bind (get_chi c n) (\<lambda>r. ret (map_sum id (\<lambda>x. chi_templates (chi_spec_of x)) r)))) w = Inr () \<and>
    cleared {} (look w) (look (world (patchVolumeClaimTemplates c KCHI n policy
     (bind (get_chi c n) (\<lambda>r. ret (map_sum id (\<lambda>x. chi_templates (chi_spec_of x)) r)))) w))"
    by cases (auto simp: patchVolumeClaimTemplates_def get_chi_def json_patch_def run_simps keeps_look Let_def
        patches_chi [OF _ _ fits] split: option.splits)
qed

lemma clears_patch_chk:
  "clears (patchVolumeClaimTemplates c KCHK n policy
     (bind (get_chk c n) (\<lambda>r. ret (map_sum id (\<lambda>x. chk_templates (chk_spec_of x)) r)))) {}"
  unfolding clears_def
proof
  fix w
  consider "fst (api_get_chk c n w) = Inl NotFound" | x where "fst (api_get_chk c n w) = Inr x" using finds_chk by blast
  then show "result (patchVolumeClaimTemplates c KCHK n policy
     (bind (get_chk c n) (\<lambda>r. ret (map_sum id (\<lambda>x. chk_templates (chk_spec_of x)) r)))) w = Inr () \<and>
    cleared {} (look w) (look (world (patchVolumeClaimTemplates c KCHK n policy
     (bind (get_chk c n) (\<lambda>r. ret (map_sum id (\<lambda>x. chk_templates (chk_spec_of x)) r)))) w))"
    by cases (auto simp: patchVolumeClaimTemplates_def get_chk_def json_patch_def run_simps keeps_look Let_def
        patches_chk [OF _ _ fits] split: option.splits)
qed

lemma clears_labelPVCs: "clears (labelPVCs c sel key policy) {}"
  unfolding clears_def
proof
  fix w
  define f where "f = (\<lambda>p :: pvc. if get0 (pvc_labels p) key = policy then ret ()
         else must (\<lambda>e. Errorf ''label PVC %s: %w'' [AStr (pvc_name p), AErr (ApiErr e)])
           (label_pvc c (pvc_name p) key policy))"
  have all: "result (for_each ps f) v = Inr () \<and> look (world (for_each ps f) v) = look v"
    if "pvc_name ` set ps \<subseteq> dp_vols (look v) sel" for ps v
    using that
  proof (induction ps arbitrary: v)
    case (Cons p ps)
    have "fst (api_label_pvc c (pvc_name p) key policy v) = None" using Cons.prems by (auto intro: labels)
    then have "result (f p) v = Inr () \<and> look (world (f p) v) = look v"
      by (simp add: f_def label_pvc_def must_def run_simps keeps_look)
    with Cons show ?case by (simp add: andthen_def run_simps)
  qed simp
  obtain ps where ps: "fst (api_list_pvcs c sel w) = Inr ps" "pvc_name ` set ps = dp_vols (look w) sel"
    using lists by blast
  moreover have "pvc_name ` set ps \<subseteq> dp_vols (look (snd (api_list_pvcs c sel w))) sel" using ps(2) by (simp add: keeps_look)
  note all [OF this]
  ultimately show "result (labelPVCs c sel key policy) w = Inr () \<and>
      cleared {} (look w) (look (world (labelPVCs c sel key policy) w))"
    unfolding labelPVCs_def f_def [symmetric] by (simp add: list_pvcs_def run_simps keeps_look)
qed

lemma clears_sync: "clears (syncReclaimPolicy c) {}"
proof -
  have "clears (syncReclaimPolicy c) ({} \<union> ({} \<union> ({} \<union> {})))"
    unfolding syncReclaimPolicy_def Let_def
    by (intro clears_andthen clears_patch_chi clears_patch_chk clears_labelPVCs)
  then show ?thesis by simp
qed

text \<open>The volumes: what is listed is asked to be deleted.\<close>

lemma clears_volumes:
  "clears (for_each ps (\<lambda>p. must (\<lambda>e. Errorf ''delete PVC %s: %w'' [AStr (pvc_name p), AErr (ApiErr e)])
     (delete_obj c KPVC (pvc_name p)))) ((\<lambda>p. (KPVC, pvc_name p)) ` set ps)"
proof (induction ps)
  case (Cons p ps)
  with clears_andthen [OF clears_delete [of KPVC _ "pvc_name p"] Cons.IH] show ?case by simp
qed (simp add: clears_ret)

definition clearsVolumes :: "('s, 'w, unit) act \<Rightarrow> (string \<times> string) set \<Rightarrow> bool" where
  "clearsVolumes m S \<longleftrightarrow> (\<forall>w. result m w = Inr () \<and> shrunk (look w) (look (world m w)) \<and>
     (\<forall>sel \<in> S. \<forall>n \<in> dp_vols (look (world m w)) sel. (KPVC, n) \<notin> dp_live (look (world m w))))"

lemma clearsVolumes_andthen:
  assumes "clearsVolumes m S" and "clearsVolumes p T"
  shows "clearsVolumes (andthen m p) (S \<union> T)"
  unfolding clearsVolumes_def
proof
  fix w
  define v u where "v = world m w" and "u = world p v"
  have m: "result m w = Inr ()" "shrunk (look w) (look v)" "sel \<in> S \<Longrightarrow> n \<in> dp_vols (look v) sel \<Longrightarrow> (KPVC, n) \<notin> dp_live (look v)"
    for sel n using assms(1) by (auto simp: clearsVolumes_def v_def)
  have p: "result p v = Inr ()" "shrunk (look v) (look u)" "sel \<in> T \<Longrightarrow> n \<in> dp_vols (look u) sel \<Longrightarrow> (KPVC, n) \<notin> dp_live (look u)"
    for sel n using assms(2) by (auto simp: clearsVolumes_def u_def)
  have "(KPVC, n) \<notin> dp_live (look u)" if "sel \<in> S \<union> T" "n \<in> dp_vols (look u) sel" for sel n
  proof (cases "sel \<in> T")
    case False
    with that m(3) p(2) show ?thesis unfolding shrunk_def by blast
  qed (use that p(3) in simp)
  moreover have "shrunk (look w) (look u)" using m(2) p(2) by (rule shrunk_trans)
  moreover have "world (andthen m p) w = u" "result (andthen m p) w = Inr ()"
    using m(1) p(1) by (simp_all add: andthen_def run_simps v_def u_def)
  ultimately show "result (andthen m p) w = Inr () \<and> shrunk (look w) (look (world (andthen m p) w)) \<and>
     (\<forall>sel \<in> S \<union> T. \<forall>n \<in> dp_vols (look (world (andthen m p) w)) sel. (KPVC, n) \<notin> dp_live (look (world (andthen m p) w)))"
    by simp
qed

lemma clearsVolumes_ret: "clearsVolumes (ret ()) {}"
  by (simp add: clearsVolumes_def)

lemma clearsVolumes_listed:
  "clearsVolumes (bind (list_pvcs c sel) (\<lambda>r. case r of
       Inl e \<Rightarrow> throw (Errorf ''list PVCs: %w'' [AErr (ApiErr e)])
     | Inr pvcs \<Rightarrow> for_each pvcs (\<lambda>p.
         must (\<lambda>e. Errorf ''delete PVC %s: %w'' [AStr (pvc_name p), AErr (ApiErr e)])
           (delete_obj c KPVC (pvc_name p))))) {sel}"
proof -
  define del where "del = (\<lambda>ps :: pvc list. for_each ps (\<lambda>p. must (\<lambda>e. Errorf ''delete PVC %s: %w'' [AStr (pvc_name p), AErr (ApiErr e)])
           (delete_obj c KPVC (pvc_name p))))"
  define m where "m = bind (list_pvcs c sel) (\<lambda>r. case r of
       Inl e \<Rightarrow> throw (Errorf ''list PVCs: %w'' [AErr (ApiErr e)]) | Inr pvcs \<Rightarrow> del pvcs)"
  have "result m w = Inr () \<and> shrunk (look w) (look (world m w)) \<and>
      (\<forall>n \<in> dp_vols (look (world m w)) sel. (KPVC, n) \<notin> dp_live (look (world m w)))" for w
  proof -
    obtain ps where ps: "fst (api_list_pvcs c sel w) = Inr ps" "pvc_name ` set ps = dp_vols (look w) sel"
      using lists by blast
    define v where "v = snd (api_list_pvcs c sel w)"
    have v: "look v = look w" by (simp add: v_def keeps_look)
    have del: "result (del ps) v = Inr ()" "cleared ((\<lambda>p. (KPVC, pvc_name p)) ` set ps) (look v) (look (world (del ps) v))"
      using clears_volumes [of ps] by (auto simp: clears_def del_def)
    have "result m w = Inr ()" "world m w = world (del ps) v"
      using ps(1) del(1) by (simp_all add: m_def list_pvcs_def run_simps v_def)
    moreover have "(KPVC, n) \<notin> dp_live (look (world (del ps) v))" if "n \<in> dp_vols (look (world (del ps) v)) sel" for n
    proof -
      have "n \<in> pvc_name ` set ps" using that del(2) unfolding ps(2) cleared_def shrunk_def v by blast
      with del(2) show ?thesis by (auto simp: cleared_def)
    qed
    ultimately show ?thesis using del(2) by (simp add: cleared_def v)
  qed
  then have "clearsVolumes m {sel}" by (simp add: clearsVolumes_def)
  then show ?thesis unfolding m_def del_def .
qed

lemma deletePVCs_clears:
  "clearsVolumes (deletePVCs c) {(LabelCHIName, ctx_name c), (LabelCHKName, keeperCRName (ctx_name c))}"
proof -
  have "clearsVolumes (deletePVCs c) ({(LabelCHIName, ctx_name c)} \<union> ({(LabelCHKName, keeperCRName (ctx_name c))} \<union> {}))"
    unfolding deletePVCs_def for_each.simps by (intro clearsVolumes_andthen clearsVolumes_listed clearsVolumes_ret)
  then show ?thesis by (simp add: insert_commute)
qed

text \<open>The wait: it ends exactly when the object is gone.\<close>

lemma waits:
  assumes "k \<in> {KCHI, KCHK}"
  shows "result (waitForDeletion c k n) w = (if (k, n) \<in> dp_there (look w)
     then Inl (Wait ''waiting for %T %s to be deleted'' [AStr (kind_type k), AStr n] 10) else Inr ())"
  "look (world (waitForDeletion c k n) w) = look w"
  using checks [OF assms] by (simp_all add: waitForDeletion_def check_exists_def run_simps keeps_look)

text \<open>
  How one run of \<open>m\<close> ends: it returns, or it waits for one of \<open>K\<close> that still exists and is asked to be deleted;
  either way it has only taken objects away, and no volume unless the policy is Delete.
\<close>

definition ends :: "('s, 'w, unit) act \<Rightarrow> (kind \<times> string) set \<Rightarrow> 'w \<Rightarrow> bool" where
  "ends m K w \<longleftrightarrow> shrunk (look w) (look (world m w)) \<and>
     (result m w = Inr () \<or>
       (\<exists>(k, n) \<in> K. result m w = Inl (Wait ''waiting for %T %s to be deleted'' [AStr (kind_type k), AStr n] 10) \<and>
         (k, n) \<in> dp_there (look (world m w)) - dp_live (look (world m w)))) \<and>
     (storageReclaimPolicy c \<noteq> StorageReclaimPolicyDelete \<longrightarrow> dp_vols (look (world m w)) = dp_vols (look w) \<and>
       (\<forall>n. (KPVC, n) \<in> dp_live (look w) \<longrightarrow> (KPVC, n) \<in> dp_live (look (world m w))))"

lemma keeper_ends:
  assumes "replicated c"
  shows "ends (deleteKeeper c) {(KCHK, keeperCRName (ctx_name c))} w \<and>
     (KCHK, keeperCRName (ctx_name c)) \<notin> dp_live (look (world (deleteKeeper c) w)) \<and>
     (result (deleteKeeper c) w = Inr () \<longleftrightarrow> (KCHK, keeperCRName (ctx_name c)) \<notin> dp_there (look (world (deleteKeeper c) w)))"
proof -
  define del where "del = must (\<lambda>e. Errorf ''delete ClickHouseKeeperInstallation: %w'' [AErr (ApiErr e)])
    (delete_obj c KCHK (keeperCRName (ctx_name c)))"
  have del: "result del w = Inr ()" "cleared {(KCHK, keeperCRName (ctx_name c))} (look w) (look (world del w))"
    using clears_delete [of KCHK] by (auto simp: clears_def del_def)
  have "deleteKeeper c = andthen del (waitForDeletion c KCHK (keeperCRName (ctx_name c)))"
    using assms by (simp add: deleteKeeper_def del_def)
  with del show ?thesis by (simp add: ends_def andthen_def run_simps waits cleared_def)
qed

text \<open>What is waited for in the end, and what a run that returns has done about the volumes.\<close>

definition keeperObject :: "(kind \<times> string) set" where
  "keeperObject = (if replicated c then {(KCHK, keeperCRName (ctx_name c))} else {})"

definition volumes_done :: "departing \<Rightarrow> bool" where
  "volumes_done s \<longleftrightarrow> (storageReclaimPolicy c = StorageReclaimPolicyDelete \<longrightarrow>
     (\<forall>n \<in> instanceVolumes c s. (KPVC, n) \<notin> dp_live s))"

lemma deleteKeeper_ends:
  "ends (deleteKeeper c) keeperObject w \<and> keeperObject \<inter> dp_live (look (world (deleteKeeper c) w)) = {} \<and>
     (result (deleteKeeper c) w = Inr () \<longleftrightarrow> keeperObject \<inter> dp_there (look (world (deleteKeeper c) w)) = {})"
proof (cases "replicated c")
  case True
  with keeper_ends [OF True] show ?thesis by (simp add: keeperObject_def)
next
  case False
  then show ?thesis by (simp add: deleteKeeper_def keeperObject_def ends_def)
qed

lemma cleanupEnd_ends:
  "ends (cleanupEnd c) keeperObject w \<and> keeperObject \<inter> dp_live (look (world (cleanupEnd c) w)) = {} \<and>
     (keeperObject \<inter> dp_there (look w) = {} \<longrightarrow> result (cleanupEnd c) w = Inr ()) \<and>
     (result (cleanupEnd c) w = Inr () \<longrightarrow> volumes_done (look (world (cleanupEnd c) w)))"
proof -
  define p where "p = (if storageReclaimPolicy c = StorageReclaimPolicyDelete then deletePVCs c else ret ())"
  define v where "v = world (deleteKeeper c) w"
  have keeper: "ends (deleteKeeper c) keeperObject w" "keeperObject \<inter> dp_live (look v) = {}"
      "result (deleteKeeper c) w = Inr () \<longleftrightarrow> keeperObject \<inter> dp_there (look v) = {}"
    using deleteKeeper_ends by (auto simp: v_def)
  have p: "result p v = Inr ()" "shrunk (look v) (look (world p v))" "volumes_done (look (world p v))"
      "storageReclaimPolicy c \<noteq> StorageReclaimPolicyDelete \<Longrightarrow> world p v = v"
    using deletePVCs_clears by (auto simp: p_def clearsVolumes_def volumes_done_def instanceVolumes_def)
  show ?thesis
  proof (cases "result (deleteKeeper c) w")
    case (Inl e)
    then have run: "result (cleanupEnd c) w = Inl e" "world (cleanupEnd c) w = v"
      by (simp_all add: cleanupEnd_def p_def [symmetric] andthen_def run_simps v_def)
    from Inl keeper have "keeperObject \<inter> dp_there (look w) \<noteq> {}" by (auto simp: ends_def shrunk_def v_def)
    with Inl keeper run show ?thesis by (simp add: ends_def v_def)
  next
    case (Inr u)
    then have run: "result (cleanupEnd c) w = Inr ()" "world (cleanupEnd c) w = world p v"
      using p(1) by (simp_all add: cleanupEnd_def p_def [symmetric] andthen_def run_simps v_def)
    have "shrunk (look w) (look (world p v))" using keeper(1) p(2) by (auto simp: ends_def v_def intro: shrunk_trans)
    moreover have "keeperObject \<inter> dp_live (look (world p v)) = {}" using keeper(2) p(2) by (auto simp: shrunk_def)
    ultimately show ?thesis using run p(3,4) keeper(1) by (simp add: ends_def v_def)
  qed
qed

text \<open>A whole run of \<open>Cleanup\<close>.\<close>

lemma Cleanup_ends:
  "ends (Cleanup c) (insert (KCHI, ctx_name c) keeperObject) w \<and>
     set (startObjects c) \<inter> dp_live (look (world (Cleanup c) w)) = {} \<and>
     ((KCHI, ctx_name c) \<notin> dp_there (look w) \<longrightarrow> keeperObject \<inter> dp_live (look (world (Cleanup c) w)) = {} \<and>
        (keeperObject \<inter> dp_there (look w) = {} \<longrightarrow> result (Cleanup c) w = Inr ())) \<and>
     (result (Cleanup c) w = Inr () \<longrightarrow> keeperObject \<inter> dp_live (look (world (Cleanup c) w)) = {} \<and>
        volumes_done (look (world (Cleanup c) w)))"
proof -
  define q where "q = andthen (syncReclaimPolicy c) (cleanupStart c)"
  define v where "v = world q w"
  have whole: "Cleanup c = andthen q (andthen (waitForDeletion c KCHI (ctx_name c)) (cleanupEnd c))"
    by (simp add: q_def Cleanup_parts andthen_def bind_assoc)
  have q: "result q w = Inr ()" "cleared (set (startObjects c)) (look w) (look v)"
    using clears_andthen [OF clears_sync clears_start] by (auto simp: clears_def q_def v_def)
  have kinds: "KPVC \<notin> fst ` set (startObjects c)" "(KCHI, ctx_name c) \<in> set (startObjects c)"
    by (auto simp: startObjects_def tlsResources_def caChain_def)
  then have start: "shrunk (look w) (look v)" "set (startObjects c) \<inter> dp_live (look v) = {}"
      "dp_vols (look v) = dp_vols (look w)" "(KPVC, n) \<in> dp_live (look w) \<Longrightarrow> (KPVC, n) \<in> dp_live (look v)" for n
    using q(2) by (auto simp: cleared_def image_iff)
  define u where "u = world (waitForDeletion c KCHI (ctx_name c)) v"
  have u: "look u = look v" by (simp add: u_def waits)
  show ?thesis
  proof (cases "(KCHI, ctx_name c) \<in> dp_there (look v)")
    case True
    then have run: "result (Cleanup c) w = Inl (Wait ''waiting for %T %s to be deleted'' [AStr (kind_type KCHI), AStr (ctx_name c)] 10)"
        "world (Cleanup c) w = u"
      using q(1) by (simp_all add: whole andthen_def run_simps waits v_def u_def)
    have "(KCHI, ctx_name c) \<in> dp_there (look w)" using True start(1) by (auto simp: shrunk_def)
    with True start kinds(2) run u show ?thesis by (auto simp: ends_def)
  next
    case False
    define z where "z = world (cleanupEnd c) u"
    from False have run: "result (Cleanup c) w = result (cleanupEnd c) u" "world (Cleanup c) w = z"
      using q(1) by (simp_all add: whole andthen_def run_simps waits v_def u_def z_def)
    have e: "ends (cleanupEnd c) keeperObject u" "keeperObject \<inter> dp_live (look z) = {}"
        "keeperObject \<inter> dp_there (look u) = {} \<Longrightarrow> result (cleanupEnd c) u = Inr ()"
        "result (cleanupEnd c) u = Inr () \<Longrightarrow> volumes_done (look z)"
      using cleanupEnd_ends [of u] by (auto simp: z_def)
    have "shrunk (look w) (look z)" using start(1) e(1) u by (auto simp: ends_def z_def intro: shrunk_trans)
    moreover have "set (startObjects c) \<inter> dp_live (look z) = {}"
      using start(2) e(1) by (auto simp: ends_def shrunk_def z_def u)
    moreover have "keeperObject \<inter> dp_there (look w) = {} \<Longrightarrow> keeperObject \<inter> dp_there (look u) = {}"
      using start(1) u by (auto simp: shrunk_def)
    ultimately show ?thesis using e start run u by (auto simp: ends_def z_def)
  qed
qed

lemma goes_on_shrunk: "goes_on c look w v \<Longrightarrow> shrunk (look w) (look v)"
proof (induction rule: goes_on.induct)
  case (again w v)
  moreover have "shrunk (look v) (look (world (Cleanup c) v))" using Cleanup_ends by (simp add: ends_def)
  ultimately show ?case by (blast intro: shrunk_trans)
qed (auto intro: shrunk_trans)

text \<open>Two rounds: what a run asked to delete is gone before the run of the next round.\<close>

lemma two_rounds:
  assumes v: "goes_on c look (world (Cleanup c) w) v" "dp_there (look v) \<subseteq> dp_live (look (world (Cleanup c) w))"
    and u: "goes_on c look (world (Cleanup c) v) u" "dp_there (look u) \<subseteq> dp_live (look (world (Cleanup c) v))"
  shows "result (Cleanup c) u = Inr ()" and "set (ownedObjects c) \<inter> dp_there (look u) = {}"
proof -
  have first: "set (startObjects c) \<inter> dp_there (look v) = {}" using Cleanup_ends [of w] v(2) by auto
  then have chi: "(KCHI, ctx_name c) \<notin> dp_there (look v)" by (auto simp: startObjects_def)
  then have keeper: "keeperObject \<inter> dp_there (look u) = {}" using Cleanup_ends [of v] u(2) by auto
  have "shrunk (look v) (look u)"
    using goes_on_shrunk [OF u(1)] Cleanup_ends [of v] by (auto simp: ends_def intro: shrunk_trans)
  with first have start: "set (startObjects c) \<inter> dp_there (look u) = {}" by (auto simp: shrunk_def)
  then have "(KCHI, ctx_name c) \<notin> dp_there (look u)" by (auto simp: startObjects_def)
  with keeper show "result (Cleanup c) u = Inr ()" using Cleanup_ends [of u] by blast
  show "set (ownedObjects c) \<inter> dp_there (look u) = {}"
    using start keeper by (auto simp: owned_start keeperObject_def split: if_splits)
qed

end

section \<open>The Store with finalizers\<close>

text \<open>The deletion of a CHI or a CHK that exists is recorded; the operator lets go of them in \<open>release\<close>.\<close>

definition hold_obj :: "kind \<Rightarrow> string \<Rightarrow> cluster \<Rightarrow> cluster" where
  "hold_obj k n w = (if has_obj k n w then w\<lparr>cl_deleting := (k, n) # cl_deleting w\<rparr> else remove_obj k n w)"

definition held_ctx :: "clickhouse_parameters \<Rightarrow> (setting table, cluster) ctx" where
  "held_ctx p = (sample_ctx p)\<lparr>api_delete := (\<lambda>k n w. (None, hold_obj k n w))\<rparr>"

definition release :: "cluster \<Rightarrow> cluster" where
  "release w = fold (\<lambda>(k, n). remove_obj k n) (cl_deleting w) w"

fun stored_names :: "kind \<Rightarrow> cluster \<Rightarrow> string set" where
  "stored_names KCHI w = dom (map_of (cl_chi w))"
| "stored_names KCHK w = dom (map_of (cl_chk w))"
| "stored_names KSecret w = dom (map_of (cl_secrets w))"
| "stored_names KCertificate w = dom (map_of (cl_certificates w))"
| "stored_names KIssuer w = dom (map_of (cl_issuers w))"
| "stored_names KPolicy w = dom (map_of (cl_policies w))"
| "stored_names KPodMonitor w = dom (map_of (cl_monitors w))"
| "stored_names KPVC w = pvc_name ` set (cl_pvcs w)"
| "stored_names KPod w = {}"

definition stored_keys :: "cluster \<Rightarrow> (kind \<times> string) set" where
  "stored_keys w = {(k, n). n \<in> stored_names k w}"

definition departing_view :: "cluster \<Rightarrow> departing" where
  "departing_view w =
     \<lparr>dp_there = stored_keys w, dp_live = stored_keys w - set (cl_deleting w),
      dp_vols = (\<lambda>(k, v). pvc_name ` {p \<in> set (cl_pvcs w). map_of (pvc_labels p) k = Some v})\<rparr>"

lemma names_removed: "stored_names k (remove_obj k n w) = stored_names k w - {n}"
  by (cases k) (auto simp: map_of_removed)

lemma names_kept: "k' \<noteq> k \<Longrightarrow> stored_names k' (remove_obj k n w) = stored_names k' w"
  by (cases k; cases k') simp_all

lemma stored_removed: "stored_keys (remove_obj k n w) = stored_keys w - {(k, n)}"
proof -
  have "n' \<in> stored_names k' (remove_obj k n w) \<longleftrightarrow> n' \<in> stored_names k' w \<and> (k', n') \<noteq> (k, n)" for k' n'
    by (cases "k' = k") (auto simp: names_removed names_kept)
  then show ?thesis by (auto simp: stored_keys_def)
qed

lemma names_marked [simp]: "stored_names k (w\<lparr>cl_deleting := xs\<rparr>) = stored_names k w"
  by (cases k) simp_all

lemma remove_deleting [simp]: "cl_deleting (remove_obj k n w) = cl_deleting w"
  by (cases k) simp_all

lemma hold_view:
  "dp_live (departing_view (hold_obj k n w)) = dp_live (departing_view w) - {(k, n)}"
  "dp_there (departing_view (hold_obj k n w)) \<subseteq> dp_there (departing_view w)"
  "dp_vols (departing_view (hold_obj k n w)) sel \<subseteq> dp_vols (departing_view w) sel"
  "k \<noteq> KPVC \<Longrightarrow> dp_vols (departing_view (hold_obj k n w)) = dp_vols (departing_view w)"
proof -
  have pvcs: "set (cl_pvcs (remove_obj k n w)) \<subseteq> set (cl_pvcs w)" "k \<noteq> KPVC \<Longrightarrow> cl_pvcs (remove_obj k n w) = cl_pvcs w"
    by (cases k; auto)+
  have keys: "stored_keys (w\<lparr>cl_deleting := xs\<rparr>) = stored_keys w" for xs by (simp add: stored_keys_def)
  show "dp_live (departing_view (hold_obj k n w)) = dp_live (departing_view w) - {(k, n)}"
    "dp_there (departing_view (hold_obj k n w)) \<subseteq> dp_there (departing_view w)"
    "dp_vols (departing_view (hold_obj k n w)) sel \<subseteq> dp_vols (departing_view w) sel"
    "k \<noteq> KPVC \<Longrightarrow> dp_vols (departing_view (hold_obj k n w)) = dp_vols (departing_view w)"
    using pvcs by (auto simp: departing_view_def hold_obj_def keys stored_removed split: prod.splits)
qed

interpretation held: deleting_server "held_ctx p" departing_view for p
proof
  fix w n x z t ops k l v sel
  show "dp_live (departing_view w) \<subseteq> dp_there (departing_view w)" by (auto simp: departing_view_def)
  show "k \<in> {KCHI, KCHK} \<Longrightarrow> fst (api_exists (held_ctx p) k n w) = Inr ((k, n) \<in> dp_there (departing_view w))"
    by (auto simp: held_ctx_def departing_view_def stored_keys_def has_obj_def)
  show "\<exists>ps. fst (api_list_pvcs (held_ctx p) sel w) = Inr ps \<and> pvc_name ` set ps = dp_vols (departing_view w) sel"
    by (auto simp: held_ctx_def departing_view_def split: prod.splits)
qed (auto simp: held_ctx_def lookup_in_def hold_view split: option.splits prod.splits)

lemma pvcs_removed: "set (cl_pvcs (remove_obj k n w)) \<subseteq> set (cl_pvcs w)"
  by (cases k) auto

lemma released_list:
  "stored_keys (fold (\<lambda>(k, n). remove_obj k n) xs w) = stored_keys w - set xs \<and>
   cl_deleting (fold (\<lambda>(k, n). remove_obj k n) xs w) = cl_deleting w \<and>
   set (cl_pvcs (fold (\<lambda>(k, n). remove_obj k n) xs w)) \<subseteq> set (cl_pvcs w)"
proof (induction xs arbitrary: w)
  case (Cons x xs)
  obtain k n where "x = (k, n)" by (cases x)
  then show ?case using Cons.IH [of "remove_obj k n w"] pvcs_removed [of k n w] by (auto simp: stored_removed)
qed simp

lemma release_view:
  "dp_there (departing_view (release w)) \<subseteq> dp_live (departing_view w)"
  "shrunk (departing_view w) (departing_view (release w))"
  using released_list [of "cl_deleting w" w] by (auto simp: departing_view_def release_def shrunk_def split: prod.splits)

section \<open>Property\<close>


text \<open>A CHI, a CHK and a volume, under the Delete policy.\<close>

definition leaving_pair :: cluster where
  "leaving_pair = leaving_cluster\<lparr>cl_chk := [(keeperCRName ''db'', \<lparr>chk_name = keeperCRName ''db'',
     chk_spec_of = \<lparr>chk_task_id = None, chk_configuration = None, chk_templates = None\<rparr>, chk_status = None\<rparr>)]\<rparr>"


end
