(* ===== verification/Conformance_Runs.thy ===== *)
theory Conformance_Runs
  imports Conformance Deletion
begin

text \<open>
  The unit tests that run an operation against a cluster (\<^verbatim>\<open>rollout_test.go\<close>, \<^verbatim>\<open>users_test.go\<close>,
  \<^verbatim>\<open>provider_test.go\<close>, \<^verbatim>\<open>keeper_test.go\<close>, \<^verbatim>\<open>scheduling_test.go\<close>), evaluated on the Store. A lemma has the name
  of its test.
\<close>

section \<open>The rollout gate (\<^verbatim>\<open>rollout_test.go\<close>)\<close>

lemma TestRolledOut:
  "rolledOut None []"
  "\<not> rolledOut (Some ''openeverest-abc'') [''auto-1'']"
  "rolledOut (Some ''openeverest-abc'') [''openeverest-abc'', ''auto-1'']"
  by code_simp+

definition with_task :: "string list \<Rightarrow> setting table chi" where
  "with_task finished = \<lparr>chi_name = ''db'', chi_spec_of = empty_spec\<lparr>chi_task_id := Some ''openeverest-abc''\<rparr>,
     chi_status = Some (completed_status\<lparr>os_task_ids_completed := finished\<rparr>)\<rparr>"

lemma TestWaitForCHIWaitsForAppliedTask:
  "(case waitForCHI (with_task [''task-1'']) of Inl e \<Rightarrow> is_wait e | Inr _ \<Rightarrow> False)"
  "waitForCHI (with_task [''openeverest-abc'', ''task-1'']) = Inr ()"
  by code_simp+

text \<open>The task IDs of the CHIs applied and the answers to the requests for maintenance.\<close>

fun applied_task :: "setting table event \<Rightarrow> string option list" where
  "applied_task (Applied (OCHI x) r) = [chi_task_id (chi_spec_of x)]"
| "applied_task _ = []"

fun maintenance_answer :: "setting table event \<Rightarrow> bool list" where
  "maintenance_answer (Requested a r) = [r]"
| "maintenance_answer _ = []"

definition gate_run :: "(setting table, cluster, bool) act" where
  "gate_run = bind (newRolloutGate test_ctx [plain_rendered]) (\<lambda>g. bind (gateApply test_ctx g plain_rendered ''chi'') (\<lambda>(ok, _). ret ok))"

definition gate_outcome :: "cluster \<Rightarrow> string option list \<times> bool list" where
  "gate_outcome w = (concat (map applied_task (events gate_run w)), concat (map maintenance_answer (events gate_run w)))"

definition with_record :: "labels \<Rightarrow> cluster" where
  "with_record r = running_cluster\<lparr>cl_secrets := [(rolloutStateName ''db'', \<lparr>secret_name = rolloutStateName ''db'', secret_data = r\<rparr>)]\<rparr>"

text \<open>The fingerprint of the rendering, of the Instance's inputs, and the token of the change.\<close>

definition spec_print :: string where "spec_print = sha256Hex test_ctx ''chi''"

definition inputs_print :: string where "inputs_print = sha256Hex test_ctx []"

definition change_token :: string where "change_token = ''provider-0.3.0-'' @ take 8 (sha256Hex test_ctx spec_print)"

definition earlier_token :: string where "earlier_token = ''provider-0.0.9-earlier''"

lemma prints: "spec_print \<noteq> []" "inputs_print \<noteq> []" "spec_print \<noteq> ''old''" "inputs_print \<noteq> ''old''" "change_token \<noteq> earlier_token"
proof -
  have "length (sha256Hex test_ctx s) = 64" for s by (simp add: sha256Hex_def)
  then have "length spec_print = 64" "length inputs_print = 64" by (simp_all add: spec_print_def inputs_print_def)
  moreover have "length [] \<noteq> 64" "length ''old'' \<noteq> 64" by simp_all
  ultimately show "spec_print \<noteq> []" "inputs_print \<noteq> []" "spec_print \<noteq> ''old''" "inputs_print \<noteq> ''old''" by metis+
  show "change_token \<noteq> earlier_token" by (simp add: change_token_def earlier_token_def)
qed

lemmas gate_eval =
  gate_outcome_def gate_run_def newRolloutGate_def inputsHash_def gateApply_def applyAllowed_def askMaintenance_def save_def
  allowedAtOnce_def stamped_def recorded_def stampTaskID_def hashJSON_def releaseName_def recordKey_def record_keys run_simps call_defs
  lookup_in_def plain_rendered_def plain_chi_def running_cluster_def with_record_def empty_cluster_def sample_provider_def
  sample_instance_def maintenanceAction_def rolloutStateName_def RolloutStateSuffix_def credentialsSecretName_def
  CredentialsSecretSuffix_def get0_def has_suffix_def has_prefix_def spec_print_def [symmetric] inputs_print_def [symmetric]

lemma TestRolloutBaselinesClusterWithoutRecord: "gate_outcome running_cluster = ([None], [])"
  by (simp add: gate_eval)

text \<open>A new cluster, an unchanged rendering, a change of the provider's own without and with approval, an edit of the
  user, and records of earlier formats.\<close>

definition provider_changed :: labels where
  "provider_changed = [(''chi.spec'', ''old''), (''chi.inputs-v3'', inputs_print), (''rollout.target'', earlier_token)]"

definition task_of :: "string option" where "task_of = Some (''openeverest-'' @ take 16 spec_print)"

lemma TestRolloutAppliesNewCluster: "gate_outcome empty_cluster = ([task_of], [])"
  by (simp add: gate_eval task_of_def taskIDPrefix_def)

lemma TestRolloutAppliesUnchangedRendering:
  "gate_outcome (with_record [(''chi.spec'', spec_print), (''chi.inputs-v3'', inputs_print)]) = ([None], [])"
  by (simp add: gate_eval)

lemma TestRolloutHoldsProviderInitiatedChange: "gate_outcome (with_record provider_changed) = ([], [False])"
  using prints prints [symmetric] by (simp add: gate_eval earlier_token_def provider_changed_def change_token_def)

lemma TestRolloutAppliesApprovedProviderChange:
  "gate_outcome ((with_record provider_changed)\<lparr>cl_approved := [change_token]\<rparr>) = ([task_of], [True])"
  using prints prints [symmetric] by (simp add: gate_eval earlier_token_def provider_changed_def change_token_def task_of_def taskIDPrefix_def)

lemma TestRolloutAppliesUserChangeImmediately:
  "gate_outcome (with_record (put ''chi.inputs-v3'' ''old'' provider_changed)) = ([task_of], [])"
  using prints prints [symmetric] by (simp add: gate_eval earlier_token_def provider_changed_def task_of_def taskIDPrefix_def)

lemma TestRolloutHoldsChangeOnLegacyRecord:
  "gate_outcome (with_record [(''chi.spec'', ''old''), (''chi.inputs'', ''prepared'')]) = ([], [False])"
  "gate_outcome (with_record [(''chi.spec'', ''old''), (''chi.instance'', ''without-credentials'')]) = ([], [False])"
  using prints prints [symmetric] by (simp_all add: gate_eval)

section \<open>Credentials (\<^verbatim>\<open>users_test.go\<close>, \<^verbatim>\<open>provider_test.go\<close>)\<close>

text \<open>What the Store's random source generates, and what a run leaves under the given keys.\<close>

definition generated :: string where "generated = hex_encode (replicate 24 (CHR ''r''))"

definition credentials_run :: "string option \<Rightarrow> (string \<times> labels) list \<Rightarrow> labels option" where
  "credentials_run ref secrets =
     (case result (ensureCredentials (test_ctx\<lparr>ctx_instance := sample_instance\<lparr>inst_user_secret_ref := ref\<rparr>\<rparr>))
        (empty_cluster\<lparr>cl_secrets := map (\<lambda>(n, d). (n, \<lparr>secret_name = n, secret_data = d\<rparr>)) secrets\<rparr>) of
        Inl _ \<Rightarrow> None | Inr s \<Rightarrow> Some (secret_data s))"

definition credential_values :: "string list \<Rightarrow> labels option \<Rightarrow> string list option" where
  "credential_values keys = map_option (\<lambda>d. map (get0 d) keys)"

lemma bumps: "itoa (wrap64 (atoi [] + 1)) = ''1''" "itoa (wrap64 (atoi ''1'' + 1)) = ''2''" "itoa (wrap64 (atoi ''4'' + 1)) = ''5''"
  by code_simp+

lemma generated_nonempty: "generated \<noteq> []"
  using length_hex_encode [of "replicate 24 (CHR ''r'')"] by (auto simp: generated_def)

lemma digest_nonempty: "sha256Hex test_ctx s \<noteq> []" "sha256Hex test_ctx s \<noteq> ''stale''"
proof -
  have "length (sha256Hex test_ctx s) = 64" by (simp add: sha256Hex_def)
  moreover have "length [] \<noteq> 64" "length ''stale'' \<noteq> 64" by simp_all
  ultimately show "sha256Hex test_ctx s \<noteq> []" "sha256Hex test_ctx s \<noteq> ''stale''" by metis+
qed

lemma digest_ctx: "sha256Hex (test_ctx\<lparr>ctx_instance := i\<rparr>) s = sha256Hex test_ctx s"
  by (simp add: sha256Hex_def)

lemmas credentials_eval =
  credential_values_def credentials_run_def ensureCredentials_def seedCredentials_def completeCredentials_def generatedKeys_def
  generatePassword_def deriveCredentials_def refresh_def bumpRevision_def bumps run_simps call_defs lookup_in_def empty_cluster_def
  credential_keys AppUserName_def AppUserPasswordBytes_def credentialsSecretName_def CredentialsSecretSuffix_def get0_def
  generated_def [symmetric] digest_ctx Let_def sample_instance_def

text \<open>A bumped revision makes the Secret another one.\<close>

lemma key_differs: "get0 a k \<noteq> get0 b k \<Longrightarrow> \<not> same_table a b"
  using same_table_get0 [of a b k] by blast

lemmas revision_differs = key_differs [where k = "''revision''"]

lemma TestEnsureCredentialsGeneratesAll:
  "credential_values [''username'', ''password'', ''default_password'', ''interserver_password'', ''cluster_secret'',
     ''password_sha256_hex'', ''default_password_sha256_hex'', ''revision'', ''user_revision''] (credentials_run None []) =
   Some [''admin'', generated, generated, generated, generated, sha256Hex test_ctx generated, sha256Hex test_ctx generated, ''1'', ''1'']"
  using generated_nonempty digest_nonempty by (simp add: credentials_eval)

lemma TestEnsureCredentialsSeedsFromUserSecretRef:
  "credential_values [''username'', ''password'', ''cluster_secret''] (credentials_run (Some ''seed'')
     [(''seed'', [(''username'', ''dba''), (''password'', ''correct-horse-battery'')])]) =
   Some [''dba'', ''correct-horse-battery'', generated]"
  "credential_values [''password''] (credentials_run (Some ''seed'')
     [(''seed'', [(''password'', ''another-password-entirely'')]),
      (''db-credentials'', [(''username'', ''dba''), (''password'', ''correct-horse-battery'')])]) = Some [''correct-horse-battery'']"
  using generated_nonempty digest_nonempty
  by (simp_all add: credentials_eval validateUserSecretData_def usernamePattern_def name_start_def name_char_def reservedUsernames_def
      InterserverUser_def MinPasswordLength_def of_char_of)

text \<open>A Secret as the first reconcile left it, with the password edited.\<close>

definition first_secret :: labels where
  "first_secret = [(''username'', ''admin''), (''password'', ''rotated-password-123''), (''default_password'', ''d''),
     (''interserver_password'', ''i''), (''cluster_secret'', ''s''), (''password_sha256_hex'', sha256Hex test_ctx generated),
     (''applied_username'', ''admin''), (''default_password_sha256_hex'', sha256Hex test_ctx ''d''), (''user_revision'', ''1''), (''revision'', ''1'')]"

lemma rotated_digest: "sha256Hex test_ctx generated \<noteq> sha256Hex test_ctx ''rotated-password-123''"
  by (simp add: sha256Hex_def generated_def) code_simp

lemma TestEnsureCredentialsRotatesEditedPassword:
  "credential_values [''password_sha256_hex'', ''default_password'', ''interserver_password'', ''cluster_secret'', ''revision'', ''user_revision'']
     (credentials_run None [(''db-credentials'', first_secret)]) =
   Some [sha256Hex test_ctx ''rotated-password-123'', ''d'', ''i'', ''s'', ''2'', ''2'']"
  using rotated_digest [symmetric] by (simp add: credentials_eval first_secret_def) (rule revision_differs, simp add: get0_def)

lemma TestEnsureCredentialsCompletesEarlierSecret:
  "credential_values [''password'', ''password_sha256_hex'', ''default_password'', ''interserver_password'', ''cluster_secret'', ''revision'']
     (credentials_run None [(''db-credentials'', [(''username'', ''admin''), (''password'', ''existing-password-0123''),
        (''password_sha256_hex'', ''stale'')])]) =
   Some [''existing-password-0123'', sha256Hex test_ctx ''existing-password-0123'', generated, generated, generated, ''1'']"
  using generated_nonempty digest_nonempty by (simp add: credentials_eval) (rule revision_differs, simp add: get0_def)

lemma TestEnsureCredentialsGeneratedKeysKeepUserRevision:
  "credential_values [''revision'', ''user_revision''] (credentials_run None [(''db-credentials'',
     [(''username'', ''admin''), (''applied_username'', ''admin''), (''password'', ''existing-password-0123''),
      (''password_sha256_hex'', sha256Hex test_ctx ''existing-password-0123''), (''revision'', ''4''), (''user_revision'', ''3'')])]) =
   Some [''5'', ''3'']"
  using generated_nonempty digest_nonempty by (simp add: credentials_eval) (rule revision_differs, simp add: get0_def)

section \<open>Keeper (\<^verbatim>\<open>keeper_test.go\<close>)\<close>

definition replicated_with :: "component_spec table \<Rightarrow> (setting table, cluster) ctx" where
  "replicated_with components = test_ctx\<lparr>ctx_instance := sample_instance\<lparr>inst_components := components\<rparr>\<rparr>"

definition keeper_replicas :: "int \<Rightarrow> component_spec" where
  "keeper_replicas n = zero_component\<lparr>comp_replicas := Some n\<rparr>"

lemma TestValidateKeeper:
  "validateKeeper (replicated_with [(''engine'', zero_component), (''keeper'', keeper_replicas 3)]) = Inr ()"
  "validateKeeper (replicated_with [(''engine'', zero_component), (''keeper'', keeper_replicas 5)]) =
     Inl (Errorf ''keeper runs %d replicas; its size cannot be changed'' [AInt 3])"
  "validateKeeper (test_ctx\<lparr>ctx_instance := sample_instance\<lparr>inst_topology_type := ''standalone'',
      inst_components := [(''keeper'', zero_component)]\<rparr>\<rparr>) =
     Inl (Errorf ''the %s component is only used by the %s topology'' [AStr ''keeper'', AStr ''replicated''])"
  by (simp_all add: validateKeeper_def replicated_with_def keeper_replicas_def sample_instance_def zero_component_def replicated_def
      constants validateRequestsWithinLimits_def resolveKeeperResources_def resourceRequirements_def declared_value_def
      effective_limit_def sim_quantity_def qty0_def Let_def)

text \<open>A deployed Keeper and the size and storage class that are resolved next to it.\<close>

definition keeper_with :: "string option \<Rightarrow> setting table chk" where
  "keeper_with cls = \<lparr>chk_name = ''db-keeper'', chk_spec_of = \<lparr>chk_task_id = None, chk_configuration = None,
     chk_templates = Some (no_templates\<lparr>volume_claim_templates := [\<lparr>vct_name = ''keeper-data'', vct_reclaim_policy = [],
       vct_access_modes = [], vct_storage_request = None, vct_storage_class = cls\<rparr>]\<rparr>)\<rparr>, chk_status = None\<rparr>"

definition engine_on :: "string \<Rightarrow> component_spec" where
  "engine_on cls = zero_component\<lparr>comp_storage := Some \<lparr>storage_size = 50, storage_class = Some cls\<rparr>\<rparr>"

definition resolved_storage :: "component_spec \<Rightarrow> cluster \<Rightarrow> err + quantity \<times> string option" where
  "resolved_storage keeper w = result (resolveKeeperStorage (replicated_with [(''engine'', engine_on ''fast'')]) keeper) w"

lemma TestBuildCHKStorageClass:
  "resolved_storage zero_component empty_cluster = Inr (10737418240000, Some ''fast'')"
  "resolved_storage zero_component (empty_cluster\<lparr>cl_chk := [(''db-keeper'', keeper_with None)]\<rparr>) = Inr (10737418240000, None)"
  "resolved_storage (zero_component\<lparr>comp_storage := Some \<lparr>storage_size = 20, storage_class = Some ''ssd''\<rparr>\<rparr>)
     (empty_cluster\<lparr>cl_chk := [(''db-keeper'', keeper_with None)]\<rparr>) = Inr (20, Some ''ssd'')"
  by (simp_all add: resolved_storage_def resolveKeeperStorage_def resolveStorage_def replicated_with_def engine_on_def zero_component_def
      run_simps get_chk_def lookup_in_def empty_cluster_def keeperCRName_def component_def keeperVolumeClaimTemplate_def
      find_volume_claim_template_def keeper_with_def no_templates_def sim_quantity_def constants Let_def)

section \<open>The teardown (\<^verbatim>\<open>provider_test.go\<close>)\<close>

lemmas cleanup_eval =
  Cleanup_def syncReclaimPolicy_def patchVolumeClaimTemplates_def labelPVCs_def deletePodMonitor_def deleteTLSResources_def
  deleteAll_def tlsResources_def caChain_def waitForDeletion_def deleteKeeper_def deletePVCs_def run_simps call_defs lookup_in_def
  empty_cluster_def has_obj_def remove_from_def Let_def storageReclaimPolicy_def engine_parameters_def
  keeperCRName_def equal_fold_def constants get0_def sample_parameters_def

definition held_run :: "cluster \<Rightarrow> (err + unit) \<times> cluster" where
  "held_run w = (let m = Cleanup (held_ctx sample_parameters) in (result m w, world m w))"

lemma TestCleanupDeletesKeeperOnlyAfterClickHouseIsGone:
  "(case held_run leaving_pair of (Inl e, w) \<Rightarrow> is_wait e \<and> (KCHI, ''db'') \<in> set (cl_deleting w) \<and>
      (KCHK, ''db-keeper'') \<notin> set (cl_deleting w) \<and> map_of (cl_chk w) ''db-keeper'' \<noteq> None | _ \<Rightarrow> False)"
  by (simp add: held_run_def held_ctx_def hold_obj_def cleanup_eval leaving_pair_def leaving_cluster_def plain_chi_def)

definition volume :: "string \<Rightarrow> string \<Rightarrow> string \<Rightarrow> pvc" where
  "volume n k v = \<lparr>pvc_name = n, pvc_labels = [(k, v)], pvc_storage_class = None\<rparr>"

definition three_volumes :: cluster where
  "three_volumes = empty_cluster\<lparr>cl_pvcs := [volume ''data-0'' LabelCHIName ''db'', volume ''keeper-0'' LabelCHKName ''db-keeper'',
     volume ''other-0'' LabelCHIName ''other'']\<rparr>"

definition volumes_left :: "clickhouse_parameters \<Rightarrow> string list" where
  "volumes_left ps = map pvc_name (cl_pvcs (world (Cleanup (sample_ctx ps)) three_volumes))"

lemma TestCleanupRetainKeepsPVCs: "volumes_left sample_parameters = [''data-0'', ''keeper-0'', ''other-0'']"
  by (simp add: volumes_left_def three_volumes_def volume_def cleanup_eval)

lemma TestCleanupDeletePurgesInstancePVCs: "volumes_left delete_parameters = [''other-0'']"
  by (simp add: volumes_left_def three_volumes_def volume_def cleanup_eval delete_parameters_def)

section \<open>Placement (\<^verbatim>\<open>scheduling_test.go\<close>)\<close>

definition bare_pod :: pod_spec where
  "bare_pod = \<lparr>pod_containers = [], pod_spread = [], pod_affinity_rules = None, pod_scheduler_name = [], pod_node_selector = [],
     pod_tolerations = []\<rparr>"

definition engine_policy :: scheduling_policy where
  "engine_policy = \<lparr>pol_scheduler_name = ''custom-scheduler'', pol_node_selector = [(''node-role'', ''db'')],
     pol_tolerations = [''dedicated''],
     pol_affinity = Some \<lparr>node_affinity = Some ''pool in (db)'', pod_affinity = None,
       pod_anti = Some \<lparr>anti_preferred = [], anti_required = ''engine''\<rparr>\<rparr>, pol_spread = ''two''\<rparr>"

lemma TestBuildCHIWithoutSchedulingPolicyPrefersSpreadingReplicas:
  "applySchedulingPolicy test_ctx bare_pod None ls = bare_pod\<lparr>pod_affinity_rules := Some (defaultAffinity ls)\<rparr>"
  by (simp add: applySchedulingPolicy_def bare_pod_def)

lemma TestBuildCHIEmptyAffinityDisablesDefault:
  "pod_affinity_rules (applySchedulingPolicy test_ctx bare_pod
     (Some (engine_policy\<lparr>pol_affinity := Some \<lparr>node_affinity = None, pod_affinity = None, pod_anti = None\<rparr>\<rparr>)) ls) =
   Some \<lparr>node_affinity = None, pod_affinity = None, pod_anti = None\<rparr>"
  by (simp add: applySchedulingPolicy_def)

lemma TestBuildCHKFollowsEngineNodePlacement:
  "applyKeeperSchedulingPolicy bare_pod (Some engine_policy) [(LabelCHKName, ''db-keeper'')] =
   \<lparr>pod_containers = [], pod_spread = [],
     pod_affinity_rules = Some ((defaultAffinity [(LabelCHKName, ''db-keeper'')])\<lparr>node_affinity := Some ''pool in (db)''\<rparr>),
     pod_scheduler_name = ''custom-scheduler'', pod_node_selector = [(''node-role'', ''db'')], pod_tolerations = [''dedicated'']\<rparr>"
  by (simp add: applyKeeperSchedulingPolicy_def bare_pod_def engine_policy_def)

lemma TestBuildCHIAppliesSchedulingPolicy:
  "applySchedulingPolicy test_ctx bare_pod (Some engine_policy) ls =
   \<lparr>pod_containers = [], pod_spread = ''two'', pod_affinity_rules = pol_affinity engine_policy,
     pod_scheduler_name = ''custom-scheduler'', pod_node_selector = [(''node-role'', ''db'')], pod_tolerations = [''dedicated'']\<rparr>"
  by (simp add: applySchedulingPolicy_def bare_pod_def engine_policy_def)

end
