(* ===== verification/Settling.thy ===== *)
theory Settling
  imports Api_Store Agreement
begin

text \<open>
  The parts of a reconcile on an API server that stores objects: each, once it has returned, leaves what it is for in
  place, is idle from then on, and leaves alone what the other parts need.
\<close>

section \<open>What a reconcile is to establish\<close>

text \<open>The external addresses of the client Service, and whether a Secret holds a certificate.\<close>

definition addresses :: "service option \<Rightarrow> string list \<times> string list" where
  "addresses found = (case found of None \<Rightarrow> ([], []) | Some svc \<Rightarrow>
     if svc_type svc \<noteq> ''LoadBalancer'' then ([], [])
     else (filter (\<lambda>h. h \<noteq> []) (map ing_hostname (svc_lb_ingress svc)), filter (\<lambda>i. i \<noteq> []) (map ing_ip (svc_lb_ingress svc))))"

definition issued :: "secret option \<Rightarrow> bool" where
  "issued found = (case found of None \<Rightarrow> False | Some s \<Rightarrow> get0 (secret_data s) ''tls.crt'' \<noteq> [])"

text \<open>A policy is there exactly when it is wanted.\<close>

definition policy_in_place :: "string \<Rightarrow> bool \<Rightarrow> (err + network_policy) \<Rightarrow> 's stored \<Rightarrow> bool" where
  "policy_in_place name wanted build s =
     (case build of Inr np \<Rightarrow> at_policy s name = (if wanted then Some np else None)
      | Inl _ \<Rightarrow> \<not> wanted \<and> at_policy s name = None)"

definition policies_in_place :: "('s, 'w) ctx \<Rightarrow> 's chi \<Rightarrow> 's stored \<Rightarrow> bool" where
  "policies_in_place c x s \<longleftrightarrow>
     policy_in_place (ctx_name c @ PlaintextPolicySuffix) (appliedTLSRequired x) (plaintextPolicy c) s \<and>
     policy_in_place (ctx_name c @ KeeperPolicySuffix) (appliedTLSRequired x \<and> replicated c) (keeperPolicy c) s"

text \<open>Without TLS the Secrets of the certificates are gone once nothing uses the server's.\<close>

definition cleaned_up :: "('s, 'w) ctx \<Rightarrow> 's chi \<Rightarrow> 's stored \<Rightarrow> bool" where
  "cleaned_up c x s \<longleftrightarrow>
     chi_uses_certificate (settings_lib_of c) x \<or>
     (\<exists>k. at_chk s (keeperCRName (ctx_name c)) = Some k \<and> chk_uses_certificate (settings_lib_of c) k) \<or>
     list_ex (\<lambda>sel. mounts (serverSecretName (ctx_name c)) (at_pods s sel)) (podSelectors (ctx_name c)) \<or>
     at_secret s (serverSecretName (ctx_name c)) = None \<and> at_secret s (caSecretName (ctx_name c)) = None"

text \<open>ClickHouse is rolled out, wired to a Keeper that is rolled out and serves exactly the port TLS calls for.\<close>

definition cluster_in_place :: "('s, 'w) ctx \<Rightarrow> 's stored \<Rightarrow> bool" where
  "cluster_in_place c s \<longleftrightarrow> (\<exists>x. at_chi s (ctx_name c) = Some x \<and> waitForCHI x = Inr () \<and> policies_in_place c x s \<and>
     (tlsEnabled c \<or> cleaned_up c x s) \<and>
     (replicated c \<longrightarrow> chiKeeperPort x \<in> (if tlsEnabled c then {KeeperSecurePort} else {0, KeeperPort}) \<and>
        (\<exists>k. at_chk s (keeperCRName (ctx_name c)) = Some k \<and> waitForCHK k = Inr () \<and> chkPorts k = (tlsEnabled c, \<not> tlsEnabled c))))"

text \<open>The server certificate, with the names it must cover, is requested and issued.\<close>

definition certificate_in_place :: "('s, 'w) ctx \<Rightarrow> 's stored \<Rightarrow> bool" where
  "certificate_in_place c s \<longleftrightarrow>
     (let (names, ips) = addresses (at_service s (clientServiceName (ctx_name c)))
      in (\<exists>r. at_certificate s (serverCertName (ctx_name c)) = Some (serverCertificate c r names ips))) \<and>
     issued (at_secret s (serverSecretName (ctx_name c)))"

definition reconciled :: "('s, 'w) ctx \<Rightarrow> 's stored \<Rightarrow> bool" where
  "reconciled c s \<longleftrightarrow>
     (\<exists>sec. at_secret s (credentialsSecretName (ctx_name c)) = Some sec \<and> credentials_complete c (secret_data sec)) \<and>
     (tlsEnabled c \<longrightarrow> certificate_in_place c s) \<and> cluster_in_place c s \<and>
     at_monitor s (podMonitorName (ctx_name c)) = (if podMonitorEnabled c then Some (buildPodMonitor c) else None)"

text \<open>A CHI that does not use Keeper, as every CHI of a standalone Instance.\<close>

definition unwired :: "('s, 'w) ctx \<Rightarrow> 's stored \<Rightarrow> bool" where
  "unwired c s \<longleftrightarrow> (\<forall>x. at_chi s (ctx_name c) = Some x \<longrightarrow> chiKeeperPort x < 0)"

section \<open>Names and renderings\<close>

lemma secrets_apart:
  "caSecretName n \<noteq> serverSecretName n" "serverSecretName n \<noteq> caSecretName n"
  "credentialsSecretName n \<noteq> caSecretName n" "credentialsSecretName n \<noteq> serverSecretName n"
  "rolloutStateName n \<noteq> caSecretName n" "rolloutStateName n \<noteq> serverSecretName n"
  "rolloutStateName n \<noteq> credentialsSecretName n"
  "caSecretName n \<noteq> credentialsSecretName n" "serverSecretName n \<noteq> credentialsSecretName n"
  "caSecretName n \<noteq> rolloutStateName n" "serverSecretName n \<noteq> rolloutStateName n"
  "credentialsSecretName n \<noteq> rolloutStateName n"
  using ca_secret.disjoint credentials.disjoint rollout_state.disjoint suffixes_apart server_secret.nm_eq ca_secret.nm_eq
    credentials.nm_eq by metis+

lemma issuers_apart:
  "caIssuerName n \<noteq> selfSignedIssuerName n" "selfSignedIssuerName n \<noteq> caIssuerName n"
  "caCertName n \<noteq> serverCertName n" "serverCertName n \<noteq> caCertName n"
  using ca_issuer.disjoint ca_cert.disjoint suffixes_apart self_signed.nm_eq server_cert.nm_eq by metis+

text \<open>The object a rendering is compared with, and whether a rendering is what is stored.\<close>

fun live_at :: "'s stored \<Rightarrow> 's rendered \<Rightarrow> 's rendered option" where
  "live_at s (RCHI x) = map_option RCHI (at_chi s (chi_name x))"
| "live_at s (RCHK x) = map_option RCHK (at_chk s (chk_name x))"

fun stored_as :: "'s rendered \<Rightarrow> 's stored \<Rightarrow> bool" where
  "stored_as (RCHI x) s = (\<exists>st. at_chi s (chi_name x) = Some (x\<lparr>chi_status := st\<rparr>))"
| "stored_as (RCHK x) s = (\<exists>st. at_chk s (chk_name x) = Some (x\<lparr>chk_status := st\<rparr>))"

lemma stored_put: "stored_as x (put_obj (obj_of x) s)"
  by (cases x) auto

lemma stored_same: "stored_as x s \<Longrightarrow> put_obj (obj_of x) s = s"
  by (cases x) (auto simp: fun_upd_idem)

lemma stored_live: "stored_as x s \<Longrightarrow> \<exists>l. live_at s x = Some l \<and> taskID l = taskID x"
  by (cases x) auto

lemma stamp_parts [simp]:
  "live_at s (stampTaskID x t) = live_at s x" "taskID (stampTaskID x t) = Some (taskIDPrefix @ take 16 t)"
  by (cases x; simp add: stampTaskID_def)+

text \<open>Once its step is the target and is rolled out, the planner stays where it is.\<close>

lemma plan_stays:
  assumes "nextKeeperWiring tls (stateOf k i) = (step, step)"
    and "chkPorts k' = wiringPorts step" and "chiKeeperPort i' = kw_port step"
    and "waitForCHK k' = Inr ()" and "waitForCHI i' = Inr ()"
  shows "nextKeeperWiring tls (stateOf (Some k') (Some i')) = (step, step)"
proof -
  let ?s = "stateOf (Some k') (Some i')"
  have step: "step = targetWiring tls (stateOf k i)" using assms(1) by (simp add: nextKeeperWiring_def Let_def)
  then have "statePorts ?s = (tls, \<not> tls)" using assms(2) wiringPorts_target by (simp add: stateOf_def statePorts_def)
  moreover have target: "targetWiring tls ?s = step"
    using assms(2,3) by (auto simp: step targetWiring_def stateOf_def wiringPorts_def KeeperPort_def)
  ultimately have "movedOn tls ?s"
    using assms(2-5) step
    by (auto simp: movedOn_def waitForCHI_ok waitForCHK_ok)
      (auto simp: stateOf_def targetWiring_def served_def KeeperSecurePort_def KeeperPort_def split: if_splits)
  then show ?thesis by (simp add: moved_plan target)
qed

context api_store
begin

section \<open>Credentials\<close>

lemma generate_keeps: "look (world (generateMissing c keys data b) w) = look w"
  by (induction keys arbitrary: data b w)
    (auto simp: run_simps generatePassword_def split: sum.splits)

lemma seed_keeps: "look (world (seedCredentials c) w) = look w"
  by (auto simp: seedCredentials_def run_simps generatePassword_def answer_def split: option.splits sum.splits)

lemma complete_runs:
  assumes "runs (completeCredentials c old data) w sec s"
  shows "old = Some sec \<and> s = look w \<or> secret_name sec = credentialsSecretName (ctx_name c) \<and> s = put_obj (OSecret sec) (look w)"
  using assms generate_keeps
  by (auto simp: completeCredentials_def Let_def runs_bind runs_andthen split: if_splits option.splits)

lemma credentials_settle:
  assumes "full_random c" and "runs (ensureCredentials c) w sec s"
  shows "credentials_complete c (secret_data sec)"
    and "at_secret s (credentialsSecretName (ctx_name c)) = Some sec"
    and "n \<noteq> credentialsSecretName (ctx_name c) \<Longrightarrow> at_secret s n = at_secret (look w) n"
    and "s = (look w)\<lparr>at_secret := at_secret s\<rparr>"
proof -
  let ?n = "credentialsSecretName (ctx_name c)"
  show "credentials_complete c (secret_data sec)"
    using assms by (auto simp: runs_def dest: ensureCredentials_ok)
  have "at_secret (look w) ?n = Some sec \<and> s = look w \<or> secret_name sec = ?n \<and> s = put_obj (OSecret sec) (look w)"
    using assms(2) seed_keeps
    by (auto simp: ensureCredentials_def runs_bind answer_def split: option.splits dest!: complete_runs)
  then show "at_secret s ?n = Some sec" "n \<noteq> ?n \<Longrightarrow> at_secret s n = at_secret (look w) n"
    "s = (look w)\<lparr>at_secret := at_secret s\<rparr>"
    by auto
qed

lemma credentials_idle:
  assumes "at_secret s (credentialsSecretName (ctx_name c)) = Some sec" and "credentials_complete c (secret_data sec)"
  shows "idle (ensureCredentials c) sec s"
  unfolding idle_def
proof (intro allI impI)
  fix w assume s: "look w = s"
  let ?r = "api_get_secret c (credentialsSecretName (ctx_name c)) w"
  have "?r = (Inr sec, snd ?r)" using assms(1) s reads_secret(1) [of "credentialsSecretName (ctx_name c)" w]
    by (metis answer_def option.simps(5) prod.collapse)
  from ensureCredentials_idempotent [OF this assms(2)] s reads_secret(2) show "runs (ensureCredentials c) w sec s"
    by (simp add: runs_def result_def world_def)
qed

section \<open>Certificates\<close>

lemma deleteAll_runs: "runs (deleteAll c xs) w u s \<longleftrightarrow> s = fold (\<lambda>(k, n). drop_obj k n) xs (look w)"
  unfolding deleteAll_def
  by (induction xs arbitrary: w) (auto simp: runs_andthen runs_bind run_simps split: prod.splits)

lemma addresses_idle: "idle (externalAddresses c) (addresses (at_service s (clientServiceName (ctx_name c)))) s"
  unfolding externalAddresses_def by (rule idle_bind [OF idle_reads(9)]) (auto simp: addresses_def split: option.splits)

lemma issued_idle: "idle (serverCertificateIssued c) (issued (at_secret s (serverSecretName (ctx_name c)))) s"
  unfolding serverCertificateIssued_def by (rule idle_bind [OF idle_reads(8)]) (simp add: issued_def)

lemma drop_chain:
  "fold (\<lambda>(k, n). drop_obj k n) (caChain i) s =
     s\<lparr>at_certificate := (at_certificate s)(caCertName i := None),
       at_issuer := (at_issuer s)(caIssuerName i := None, selfSignedIssuerName i := None),
       at_secret := (at_secret s)(caSecretName i := None)\<rparr>"
  by (simp add: caChain_def)

lemma deleteCAChain_runs:
  "runs (deleteCAChain c) w u s \<longleftrightarrow>
     s = (if at_secret (look w) (caSecretName (ctx_name c)) = None then look w
          else fold (\<lambda>(k, n). drop_obj k n) (caChain (ctx_name c)) (look w))"
  by (simp add: deleteCAChain_def runs_bind deleteAll_runs del: getOptional_simps(1))

text \<open>What the issuer's part of \<open>ensureTLS\<close> depends on.\<close>

definition same_issuers :: "'s stored \<Rightarrow> 's stored \<Rightarrow> bool" where
  "same_issuers t s \<longleftrightarrow> at_issuer t = at_issuer s \<and> at_certificate t (caCertName (ctx_name c)) = at_certificate s (caCertName (ctx_name c)) \<and>
     at_secret t (caSecretName (ctx_name c)) = at_secret s (caSecretName (ctx_name c))"

lemma issuer_settles:
  assumes "runs (ensureIssuer c override) w r s"
  shows "same_issuers t s \<Longrightarrow> idle (ensureIssuer c override) r t"
    and "n \<noteq> caSecretName (ctx_name c) \<Longrightarrow> at_secret s n = at_secret (look w) n"
    and "s = (look w)\<lparr>at_issuer := at_issuer s, at_certificate := at_certificate s, at_secret := at_secret s\<rparr>"
proof -
  have "(same_issuers t s \<longrightarrow> idle (ensureIssuer c override) r t) \<and>
    (n \<noteq> caSecretName (ctx_name c) \<longrightarrow> at_secret s n = at_secret (look w) n) \<and>
    s = (look w)\<lparr>at_issuer := at_issuer s, at_certificate := at_certificate s, at_secret := at_secret s\<rparr>"
  proof (cases "case override of None \<Rightarrow> None | Some q \<Rightarrow> if ref_name q \<noteq> [] then Some q else None")
    case None
    let ?n = "ctx_name c"
    from None have own: "ensureIssuer c override = ensureIssuer c None" by (simp add: ensureIssuer_def)
    have "r = managed_issuer (caIssuerName ?n)" and s: "s =
      put_obj (OIssuer \<lparr>iss_name = caIssuerName ?n, iss_config = CAIssuer (caSecretName ?n)\<rparr>)
        (put_obj (OCertificate (caCertificate ?n))
          (put_obj (OIssuer \<lparr>iss_name = selfSignedIssuerName ?n, iss_config = SelfSigned\<rparr>) (look w)))"
      using assms by (simp_all add: own) (simp_all add: ensureIssuer_def Let_def runs_andthen)
    moreover have "idle (ensureIssuer c override) (managed_issuer (caIssuerName ?n)) t" if "same_issuers t s"
      unfolding own unfolding ensureIssuer_def Let_def option.case
      using that s issuers_apart
      by (auto simp: same_issuers_def caCertificate_def intro!: idle_andthen idle_apply put_same)
    ultimately show ?thesis by (simp add: caCertificate_def)
  next
    case (Some q)
    then have other: "ensureIssuer c override = andthen (deleteCAChain c) (ret r)"
      and s: "runs (deleteCAChain c) w () s"
      using assms by (auto simp: ensureIssuer_def Let_def runs_andthen runs_def [of "deleteCAChain c"] split: option.splits if_splits)
    then have none: "at_secret s (caSecretName (ctx_name c)) = None"
      by (auto simp: deleteCAChain_runs drop_chain split: if_splits)
    have "idle (deleteCAChain c) () t" if "same_issuers t s"
      unfolding deleteCAChain_def by (rule idle_bind [OF idle_reads(8)]) (use that none in \<open>simp add: same_issuers_def\<close>)
    with s show ?thesis
      by (auto simp: other deleteCAChain_runs drop_chain intro: idle_andthen split: if_splits)
  qed
  then show "same_issuers t s \<Longrightarrow> idle (ensureIssuer c override) r t"
    "n \<noteq> caSecretName (ctx_name c) \<Longrightarrow> at_secret s n = at_secret (look w) n"
    "s = (look w)\<lparr>at_issuer := at_issuer s, at_certificate := at_certificate s, at_secret := at_secret s\<rparr>" by blast+
qed

definition same_tls :: "'s stored \<Rightarrow> 's stored \<Rightarrow> bool" where
  "same_tls t s \<longleftrightarrow> at_issuer t = at_issuer s \<and> at_certificate t = at_certificate s \<and> at_service t = at_service s \<and>
     at_secret t (caSecretName (ctx_name c)) = at_secret s (caSecretName (ctx_name c)) \<and>
     at_secret t (serverSecretName (ctx_name c)) = at_secret s (serverSecretName (ctx_name c))"

lemma tls_settles:
  assumes "runs (ensureTLS c) w u s"
  shows "same_tls t s \<Longrightarrow> idle (ensureTLS c) () t"
    and "n \<noteq> caSecretName (ctx_name c) \<Longrightarrow> at_secret s n = at_secret (look w) n"
    and "s = (look w)\<lparr>at_issuer := at_issuer s, at_certificate := at_certificate s, at_secret := at_secret s\<rparr>"
    and "certificate_in_place c s"
proof -
  let ?server = "serverSecretName (ctx_name c)"
  obtain params r where params: "tlsParameters c = Some params"
    and r: "result (ensureIssuer c (tls_issuer_ref params)) w = Inr r"
    and rest: "runs (andthen (ensureServerCertificate c r) (bind (serverCertificateIssued c) (\<lambda>issued.
        if \<not> issued then throw (Wait ''waiting for cert-manager to issue the server certificate'' [] 15) else ret ())))
      (world (ensureIssuer c (tls_issuer_ref params)) w) u s"
    using assms by (auto simp: ensureTLS_def runs_bind split: option.splits)
  define s1 where "s1 = look (world (ensureIssuer c (tls_issuer_ref params)) w)"
  from r have issuer: "runs (ensureIssuer c (tls_issuer_ref params)) w r s1" by (simp add: runs_def s1_def)
  define cert where "cert = serverCertificate c r (fst (addresses (at_service s1 (clientServiceName (ctx_name c)))))
    (snd (addresses (at_service s1 (clientServiceName (ctx_name c)))))"
  have cert_name: "cert_name cert = serverCertName (ctx_name c)" by (simp add: cert_def serverCertificate_def)
  from rest have s: "s = put_obj (OCertificate cert) s1" and got: "issued (at_secret s ?server)"
    using addresses_idle [THEN idle_result(1)] addresses_idle [THEN idle_result(2)]
      issued_idle [THEN idle_result(1)] issued_idle [THEN idle_result(2)]
    by (auto simp: runs_andthen runs_bind ensureServerCertificate_def run_simps cert_def s1_def [symmetric] case_prod_beta
        split: if_splits)
  show "certificate_in_place c s"
    using got by (auto simp: certificate_in_place_def s cert_def cert_name [unfolded cert_def] case_prod_beta serverCertificate_def)
  show "n \<noteq> caSecretName (ctx_name c) \<Longrightarrow> at_secret s n = at_secret (look w) n"
    using issuer_settles(2) [OF issuer] by (simp add: s)
  show "s = (look w)\<lparr>at_issuer := at_issuer s, at_certificate := at_certificate s, at_secret := at_secret s\<rparr>"
    by (subst s, subst issuer_settles(3) [OF issuer]) (simp add: s)
  show "idle (ensureTLS c) () t" if same: "same_tls t s"
  proof -
    have "same_issuers t s1" using same issuers_apart by (simp add: same_tls_def same_issuers_def s cert_name)
    moreover have "idle (ensureServerCertificate c r) () t"
      unfolding ensureServerCertificate_def
      by (rule idle_bind [OF addresses_idle])
        (use same in \<open>auto simp: same_tls_def s cert_def case_prod_beta cert_name serverCertificate_def intro!: idle_apply put_same\<close>)
    moreover have "idle (bind (serverCertificateIssued c) (\<lambda>issued.
        if \<not> issued then throw (Wait ''waiting for cert-manager to issue the server certificate'' [] 15) else ret ())) () t"
      by (rule idle_bind [OF issued_idle]) (use same got in \<open>simp add: same_tls_def\<close>)
    ultimately show ?thesis
      by (auto simp: ensureTLS_def params intro: idle_bind idle_andthen issuer_settles(1) [OF issuer])
  qed
qed

section \<open>Planning and rendering\<close>

lemma plan_idle:
  "idle (planKeeperWiring c) (nextKeeperWiring (tlsEnabled c) (stateOf (at_chk s (keeperCRName (ctx_name c))) (at_chi s (ctx_name c)))) s"
  unfolding planKeeperWiring_def liveKeeperState_def
  by (rule idle_bind, rule idle_bind [OF idle_reads(7)], rule idle_bind [OF idle_reads(6)], rule idle_simps(1), rule idle_simps(1))

definition login :: "secret option \<Rightarrow> string \<times> labels" where
  "login found = (case found of None \<Rightarrow> (AppUserName, []) | Some secret \<Rightarrow>
     (if get0 (secret_data secret) CredentialsKeyUsername \<noteq> [] then get0 (secret_data secret) CredentialsKeyUsername else AppUserName,
      [(AnnotationCredentialsRevision, credentialsRevision secret)]))"

lemma login_idle: "idle (credentialsForCHI c n) (login (at_secret s n)) s"
  unfolding credentialsForCHI_def by (rule idle_bind [OF idle_reads(8)]) (auto simp: login_def Let_def split: option.splits)

text \<open>The storage of a new or an existing Keeper.\<close>

definition keeper_storage :: "component_spec \<Rightarrow> 's chk option \<Rightarrow> quantity \<times> string option" where
  "keeper_storage keeper found =
     (let own = snd (resolveStorage c (component c ComponentEngine));
          declared = Option.bind (comp_storage keeper) storage_class
      in (case comp_storage keeper of
            Some st \<Rightarrow> if storage_size st \<noteq> 0 then storage_size st else must_parse c KeeperDefaultStorage
          | None \<Rightarrow> must_parse c KeeperDefaultStorage,
          if declared \<noteq> None then declared
          else case Option.bind found keeperVolumeClaimTemplate of Some v \<Rightarrow> vct_storage_class v | None \<Rightarrow> own))"

lemma storage_idle: "idle (resolveKeeperStorage c keeper) (keeper_storage keeper (at_chk s (keeperCRName (ctx_name c)))) s"
proof (cases "Option.bind (comp_storage keeper) storage_class")
  case None
  then show ?thesis
    unfolding resolveKeeperStorage_def Let_def
    by (auto simp: keeper_storage_def Let_def answer_def intro!: idle_bind [OF idle_reads(2)] split: option.splits)
qed (simp add: resolveKeeperStorage_def keeper_storage_def)

lemma chk_idle:
  assumes "result (buildCHKWired c wiring) w = Inr k"
    and "keeper_storage (component c ComponentKeeper) (at_chk s (keeperCRName (ctx_name c))) =
      keeper_storage (component c ComponentKeeper) (at_chk (look w) (keeperCRName (ctx_name c)))"
  shows "idle (buildCHKWired c wiring) k s"
proof -
  from assms(1) obtain img where "resolveImage c ComponentKeeper (component c ComponentKeeper) = Inr img"
    by (auto simp: buildCHKWired_def Let_def bind_Inr)
  with assms storage_idle [THEN idle_result(1)] show ?thesis
    unfolding buildCHKWired_def Let_def
    by (intro idle_bind [where a = img] idle_bind [OF storage_idle])
      (auto simp: bind_Inr intro: idle_lift split: prod.splits)
qed

lemma chi_idle:
  assumes "result (buildCHIWired c n wiring) w = Inr x"
    and "at_secret s (credentialsSecretName (ctx_name c)) = at_secret (look w) (credentialsSecretName (ctx_name c))"
  shows "idle (buildCHIWired c n wiring) x s"
proof -
  from assms(1) obtain img settings where "resolveImage c ComponentEngine (component c ComponentEngine) = Inr img"
    "resolveEngineSettings c = Inr settings"
    by (auto simp: buildCHIWired_def bind_Inr)
  with assms login_idle [THEN idle_result(1)] show ?thesis
    unfolding buildCHIWired_def
    by (intro idle_bind [where a = img] idle_bind [where a = settings] idle_bind [OF login_idle])
      (auto simp: bind_Inr intro: idle_lift)
qed

text \<open>A built Keeper keeps the storage it was built with.\<close>

lemma built_storage:
  assumes "result (buildCHKWired c wiring) w = Inr k" and "chk_templates (chk_spec_of y) = chk_templates (chk_spec_of k)"
  shows "keeper_storage (component c ComponentKeeper) (Some y) =
    keeper_storage (component c ComponentKeeper) (at_chk (look w) (keeperCRName (ctx_name c)))"
  using assms storage_idle [THEN idle_result(1), of "component c ComponentKeeper" w]
  by (auto simp: buildCHKWired_def Let_def bind_Inr keeperVolumeClaimTemplate_def find_volume_claim_template_def
      volumeClaimTemplate_def keeper_storage_def split: prod.splits)

section \<open>The gate\<close>

definition record_of :: "secret option \<Rightarrow> labels" where
  "record_of found = (case found of None \<Rightarrow> [] | Some s \<Rightarrow> filter (\<lambda>(k, _). recordKey k) (secret_data s))"

definition inputs_of :: "'s stored \<Rightarrow> err + string" where
  "inputs_of s = hashJSON c (inputs_json c (inst_version (at_instance s), inst_topology (at_instance s),
     inst_parameters (at_instance s), inst_components (at_instance s),
     case at_secret s (credentialsSecretName (ctx_name c)) of None \<Rightarrow> [] | Some q \<Rightarrow> userCredentialsRevision q))"

lemma inputs_idle: "inputs_of s = Inr i \<Longrightarrow> idle (inputsHash c) i s"
  unfolding inputsHash_def inputs_of_def by (auto simp: Let_def intro!: idle_bind [OF idle_reads(4)] idle_bind [OF idle_reads(8)] idle_lift)

lemma inputs_result: "result (inputsHash c) w = inputs_of (look w)" "look (world (inputsHash c) w) = look w"
  by (simp_all add: inputsHash_def inputs_of_def run_simps Let_def del: getOptional_simps(1))

lemma new_gate:
  assumes "runs (newRolloutGate c xs) w g s"
  shows "s = look w" and "g_record g = record_of (at_secret s (rolloutStateName (ctx_name c)))"
    and "inputs_of t = inputs_of s \<Longrightarrow>
      idle (newRolloutGate c xs) (g\<lparr>g_record := record_of (at_secret t (rolloutStateName (ctx_name c)))\<rparr>) t"
proof -
  obtain i h where h: "inputs_of (look w) = Inr i" "specHashes c xs = Inr h" and s: "s = look w"
    and g: "g = \<lparr>g_record = record_of (at_secret s (rolloutStateName (ctx_name c))), g_inputs = i,
      g_token = ''provider-'' @ releaseName c @ ''-'' @ take 8 (sha256Hex c h), g_approved = None\<rparr>"
    using assms inputs_result
    by (auto simp: newRolloutGate_def runs_bind answer_def record_of_def split: option.splits)
  from s show "s = look w" .
  from g show "g_record g = record_of (at_secret s (rolloutStateName (ctx_name c)))" by simp
  assume "inputs_of t = inputs_of s"
  with h s have "inputs_of t = Inr i" by simp
  from inputs_idle [OF this] h(2) g
  show "idle (newRolloutGate c xs) (g\<lparr>g_record := record_of (at_secret t (rolloutStateName (ctx_name c)))\<rparr>) t"
    unfolding newRolloutGate_def
    by (auto intro!: idle_bind [OF idle_reads(3)] idle_bind idle_lift simp: answer_def record_of_def split: option.splits)
qed

lemma live_idle: "idle (live_of c x) (answer (live_at s x)) s"
  by (cases x) (auto intro!: idle_bind [OF idle_reads(1)] idle_bind [OF idle_reads(2)] simp: answer_def split: option.splits)

text \<open>The rendering is stored, with a task ID or without, and recorded.\<close>

definition gate_settled :: "rolloutGate \<Rightarrow> 's rendered \<Rightarrow> string \<Rightarrow> 's stored \<Rightarrow> bool" where
  "gate_settled g x key s \<longleftrightarrow> (\<exists>spec. specHash c x = Inr spec \<and>
     (stored_as x s \<and> taskID x = None \<or> stored_as (stampTaskID x spec) s) \<and>
     get0 (g_record g) (key @ specSuffix) = spec \<and> get0 (g_record g) (key @ inputsSuffix) = g_inputs g)"

lemma gate_idle:
  assumes "gate_settled g x key s"
  shows "idle (gateApply c g x key) (True, g) s"
proof -
  obtain spec y where spec: "specHash c x = Inr spec" and y: "stored_as y s"
    "y = x \<and> taskID x = None \<or> y = stampTaskID x spec"
    and rec: "get0 (g_record g) (key @ specSuffix) = spec" "get0 (g_record g) (key @ inputsSuffix) = g_inputs g"
    using assms by (auto simp: gate_settled_def)
  from stored_live [OF y(1)] y(2) obtain l where l: "live_at s x = Some l" "taskID l = taskID y" by auto
  with y(2) rec have "stamped g key spec (Some l) x = y"
    by (auto simp: stamped_def Let_def)
  with rec stored_same [OF y(1)] have "idle (applyAllowed c g x key spec (Some l)) (True, g) s"
    by (auto simp: applyAllowed_def intro!: idle_andthen idle_apply)
  moreover have "allowedAtOnce g key spec True" using rec by (simp add: allowedAtOnce_def Let_def)
  ultimately show ?thesis
    unfolding gateApply_def
    by (intro idle_bind [OF idle_lift [OF spec]] idle_bind [OF live_idle]) (auto simp: l answer_def intro: idle_bind idle_simps(1))
qed

lemma applyAllowed_runs:
  "runs (applyAllowed c g x key spec live) w out s \<longleftrightarrow>
     (if get0 (g_record g) (key @ specSuffix) = spec \<and> get0 (g_record g) (key @ inputsSuffix) = g_inputs g
      then out = (True, g) \<and> s = put_obj (obj_of (stamped g key spec live x)) (look w)
      else out = (True, recorded g key spec) \<and>
        s = put_obj (OSecret \<lparr>secret_name = rolloutStateName (ctx_name c), secret_data = g_record (recorded g key spec)\<rparr>)
              (put_obj (obj_of (stamped g key spec live x)) (look w)))"
  by (auto simp: applyAllowed_def save_def runs_andthen)

lemma ask_runs: "result (askMaintenance c g) w = Inr (a, g1) \<Longrightarrow>
    g_record g1 = g_record g \<and> g_inputs g1 = g_inputs g \<and> look (world (askMaintenance c g) w) = look w"
  by (auto simp: askMaintenance_def request_maintenance_def run_simps asks split: option.splits)

lemma gate_runs:
  assumes "runs (gateApply c g x key) w (True, g') s"
  obtains spec live g1 v where "specHash c x = Inr spec" and "g_record g1 = g_record g" and "g_inputs g1 = g_inputs g"
    and "look v = look w" and "runs (applyAllowed c g1 x key spec live) v (True, g') s"
  using assms live_idle [THEN idle_result(1), of x w] live_idle [THEN idle_result(2), of x w]
  by (fastforce simp: gateApply_def runs_bind answer_def split: option.splits if_splits dest: ask_runs)

text \<open>What an apply that was not held leaves, and what it leaves alone.\<close>

lemma key_names: "(key :: string) @ specSuffix \<noteq> key @ inputsSuffix" "targetKey \<noteq> key @ specSuffix" "targetKey \<noteq> key @ inputsSuffix"
  by (auto simp: record_keys dest: arg_cong [where f = last])

lemma recorded_gets:
  "get0 (g_record (recorded g key spec)) (key @ specSuffix) = spec"
  "get0 (g_record (recorded g key spec)) (key @ inputsSuffix) = g_inputs g"
  "other \<notin> {key @ specSuffix, key @ inputsSuffix, targetKey} \<Longrightarrow> get0 (g_record (recorded g key spec)) other = get0 (g_record g) other"
  "g_inputs (recorded g key spec) = g_inputs g"
  using key_names [of key] by (auto simp: recorded_def Let_def)

lemma record_of_saved:
  "list_all (\<lambda>(k, _). recordKey k) r \<Longrightarrow> record_of (Some \<lparr>secret_name = n, secret_data = r\<rparr>) = r"
  by (auto simp: record_of_def filter_id_conv list_all_iff)

lemma record_of_keys: "list_all (\<lambda>(k, _). recordKey k) (record_of found)"
  by (auto simp: record_of_def list_all_iff split: option.splits)

lemma gate_settles:
  assumes "runs (gateApply c g x key) w (True, g') s" and "taskID x = None"
    and "g_record g = record_of (at_secret (look w) (rolloutStateName (ctx_name c)))"
  shows "gate_settled g' x key s" and "g_inputs g' = g_inputs g"
    and "g_record g' = record_of (at_secret s (rolloutStateName (ctx_name c)))"
    and "other \<notin> {key @ specSuffix, key @ inputsSuffix, targetKey} \<Longrightarrow> get0 (g_record g') other = get0 (g_record g) other"
    and "n \<noteq> rolloutStateName (ctx_name c) \<Longrightarrow> at_secret s n = at_secret (look w) n"
    and "\<exists>y t. (y = x \<or> (\<exists>i. y = stampTaskID x i)) \<and> s = (put_obj (obj_of y) (look w))\<lparr>at_secret := t\<rparr>"
proof -
  let ?n = "rolloutStateName (ctx_name c)"
  obtain spec live g1 v where spec: "specHash c x = Inr spec" and g1: "g_record g1 = g_record g" "g_inputs g1 = g_inputs g"
    and v: "look v = look w" and run: "runs (applyAllowed c g1 x key spec live) v (True, g') s"
    using assms(1) by (rule gate_runs)
  define y where "y = stamped g1 key spec live x"
  define s1 where "s1 = put_obj (obj_of y) (look w)"
  have y: "y = x \<or> y = stampTaskID x spec" by (simp add: y_def stamped_def Let_def)
  have secrets: "at_secret s1 = at_secret (look w)" unfolding s1_def by (cases y) simp_all
  have out: "g' = g1 \<and> s = s1 \<and> get0 (g_record g1) (key @ specSuffix) = spec \<and> get0 (g_record g1) (key @ inputsSuffix) = g_inputs g1 \<or>
      g' = recorded g1 key spec \<and> s = put_obj (OSecret \<lparr>secret_name = ?n, secret_data = g_record g'\<rparr>) s1"
    using run by (auto simp: applyAllowed_runs v y_def [symmetric] s1_def split: if_splits)
  have s: "\<exists>t. s = s1\<lparr>at_secret := t\<rparr>" by (rule exI [of _ "at_secret s"]) (use out in auto)
  moreover have "stored_as z (s1\<lparr>at_secret := t\<rparr>) = stored_as z s1" for z t by (cases z) simp_all
  ultimately have "stored_as y s" using stored_put [of y "look w"] by (auto simp: s1_def)
  with y out recorded_gets(1,2,4) [of g1 key spec] g1 assms(2) show "gate_settled g' x key s"
    by (auto simp: gate_settled_def spec)
  show "g_inputs g' = g_inputs g" using out recorded_gets(4) g1 by auto
  show "g_record g' = record_of (at_secret s ?n)"
    using out
  proof (elim disjE conjE)
    assume "g' = recorded g1 key spec" "s = put_obj (OSecret \<lparr>secret_name = ?n, secret_data = g_record g'\<rparr>) s1"
    moreover have "list_all (\<lambda>(k, _). recordKey k) (g_record (recorded g1 key spec))"
      by (rule recorded_keys) (simp add: g1 assms(3) record_of_keys)
    ultimately show ?thesis by (simp add: record_of_saved)
  qed (simp add: g1 assms(3) secrets)
  show "get0 (g_record g') other = get0 (g_record g) other" if "other \<notin> {key @ specSuffix, key @ inputsSuffix, targetKey}"
    using out recorded_gets(3) [OF that] g1 by auto
  show "n \<noteq> ?n \<Longrightarrow> at_secret s n = at_secret (look w) n" using out secrets by auto
  show "\<exists>y t. (y = x \<or> (\<exists>i. y = stampTaskID x i)) \<and> s = (put_obj (obj_of y) (look w))\<lparr>at_secret := t\<rparr>"
    using y s by (auto simp: s1_def)
qed

text \<open>A change is held only after a request that was not granted.\<close>

lemma not_held:
  assumes "result (gateApply c g x key) w = Inr (ok, g')" and "g_approved g \<noteq> Some False"
    and "\<And>a. Requested a False \<notin> set (events (gateApply c g x key) w)"
  shows "ok \<and> g_approved g' \<noteq> Some False"
proof -
  obtain spec live where lr: "specHash c x = Inr spec" "live_read c x w live"
    and d: "result (gateDecide c g x key spec live) (world (live_of c x) w) = Inr (ok, g')"
    using assms(1) by (rule gateApply_Inr)
  have ev: "Requested a False \<notin> set (events (gateDecide c g x key spec live) (world (live_of c x) w))" for a
    using assms(3) [of a] by (simp add: gateApply_decides(2) [OF lr])
  obtain g1 ok1 v where ask: "g_approved g1 \<noteq> Some False" "ok1"
    and run: "result (applyAllowed c g1 x key spec live) v = Inr (ok, g')"
  proof (cases "allowedAtOnce g key spec (live \<noteq> None)")
    case True
    then show ?thesis using that [of g True] d assms(2) by (simp add: gateDecide_def result_bind)
  next
    case False
    let ?w = "world (live_of c x) w"
    from False have dec: "gateDecide c g x key spec live = bind (askMaintenance c g)
        (\<lambda>(allowed, g1). if \<not> allowed then ret (False, g1) else applyAllowed c g1 x key spec live)"
      by (simp add: gateDecide_def)
    obtain a g1 where ask: "result (askMaintenance c g) ?w = Inr (a, g1)" "g_approved g1 = Some a"
      and got: "g_approved g = Some a \<or> Requested (maintenanceAction g) a \<in> set (events (askMaintenance c g) ?w)"
      by (cases "g_approved g") (auto simp: askMaintenance_runs)
    with ev assms(2) have "a" by (cases a) (auto simp: dec in_events_bind)
    with ask that [of g1 True] d show ?thesis by (simp add: dec result_bind)
  qed
  have "g' = g1 \<or> g' = recorded g1 key spec" "ok"
    using applyAllowed_Inr [OF run] by (auto split: if_splits)
  with ask show ?thesis by (auto simp: recorded_def Let_def)
qed

section \<open>Policies, clean-up and monitoring\<close>

lemma policy_settles:
  assumes "runs (reconcilePolicy c name wanted build) w u s" and "\<forall>np. build = Inr np \<longrightarrow> np_name np = name"
  shows "at_policy t name = at_policy s name \<Longrightarrow> idle (reconcilePolicy c name wanted build) () t"
    and "\<exists>q. s = (look w)\<lparr>at_policy := q\<rparr>" and "n \<noteq> name \<Longrightarrow> at_policy s n = at_policy (look w) n"
    and "policy_in_place name wanted build s"
proof -
  have s: "s = (if wanted then (case build of Inr np \<Rightarrow> put_obj (OPolicy np) (look w) | Inl _ \<Rightarrow> s)
      else if at_policy (look w) name = None then look w else drop_obj KPolicy name (look w))"
    and b: "wanted \<Longrightarrow> \<exists>np. build = Inr np"
    using assms(1) by (auto simp: reconcilePolicy_def runs_bind split: sum.splits simp del: getOptional_simps(1))
  show "\<exists>q. s = (look w)\<lparr>at_policy := q\<rparr>"
    by (rule exI [of _ "at_policy s"]) (use s b in \<open>auto split: if_splits\<close>)
  show "n \<noteq> name \<Longrightarrow> at_policy s n = at_policy (look w) n" using s b assms(2) by (auto split: if_splits)
  show "policy_in_place name wanted build s"
    using s b assms(2) by (cases wanted) (auto simp: policy_in_place_def split: if_splits sum.splits)
  show "idle (reconcilePolicy c name wanted build) () t" if same: "at_policy t name = at_policy s name"
  proof (cases wanted)
    case True
    with b obtain np where np: "build = Inr np" by auto
    with True s have "at_policy s (np_name np) = Some np" by simp
    with True np same assms(2) show ?thesis by (auto simp: reconcilePolicy_def intro!: idle_apply put_same)
  next
    case False
    with s have "at_policy s name = None" by (auto split: if_splits)
    with False same show ?thesis
      by (auto simp: reconcilePolicy_def intro!: idle_bind [OF idle_reads(10)])
  qed
qed

lemma policy_in_place_cong: "at_policy t n = at_policy s n \<Longrightarrow> policy_in_place n wanted b t = policy_in_place n wanted b s"
  by (cases b) (simp_all add: policy_in_place_def)

lemma policy_names:
  "\<forall>np. plaintextPolicy c = Inr np \<longrightarrow> np_name np = ctx_name c @ PlaintextPolicySuffix"
  "\<forall>np. keeperPolicy c = Inr np \<longrightarrow> np_name np = ctx_name c @ KeeperPolicySuffix"
  by (auto simp: plaintextPolicy_def keeperPolicy_def Let_def split: sum.splits)

lemma policies_settle:
  assumes "runs (reconcilePlaintextPolicy c x) w u s"
  shows "at_policy t = at_policy s \<Longrightarrow> idle (reconcilePlaintextPolicy c x) () t" and "\<exists>q. s = (look w)\<lparr>at_policy := q\<rparr>"
    and "policies_in_place c x s"
proof -
  let ?p = "ctx_name c @ PlaintextPolicySuffix" and ?k = "ctx_name c @ KeeperPolicySuffix"
  let ?P = "reconcilePolicy c ?p (appliedTLSRequired x) (plaintextPolicy c)"
  let ?K = "reconcilePolicy c ?k (appliedTLSRequired x \<and> replicated c) (keeperPolicy c)"
  have apart: "?p \<noteq> ?k" by (simp add: PlaintextPolicySuffix_def KeeperPolicySuffix_def)
  have two: "reconcilePlaintextPolicy c x = andthen ?P ?K" by (simp add: reconcilePlaintextPolicy_def Let_def)
  with assms have run: "runs ?P w () (look (world ?P w))" "runs ?K (world ?P w) u s"
    by (auto elim: runs_andthenE)
  note first = policy_settles [OF run(1) policy_names(1)] and second = policy_settles [OF run(2) policy_names(2)]
  show "\<exists>q. s = (look w)\<lparr>at_policy := q\<rparr>" using first(2) second(2) by auto
  show "policies_in_place c x s"
    using first(4) second(4) policy_in_place_cong [OF second(3) [OF apart]] by (simp add: policies_in_place_def)
  assume "at_policy t = at_policy s"
  then have "idle ?P () t" "idle ?K () t" using first(1) second(1) second(3) [OF apart] by auto
  then show "idle (reconcilePlaintextPolicy c x) () t" unfolding two by (rule idle_andthen)
qed

lemma mounted_idle: "idle (mountedBy c n sels) (list_ex (\<lambda>sel. mounts n (at_pods s sel)) sels) s"
  by (induction sels) (auto intro!: idle_bind [OF idle_reads(5)])

lemma drop_tls:
  "fold (\<lambda>(k, n). drop_obj k n) (tlsResources i) s =
     s\<lparr>at_certificate := (at_certificate s)(serverCertName i := None, caCertName i := None),
       at_issuer := (at_issuer s)(caIssuerName i := None, selfSignedIssuerName i := None),
       at_secret := (at_secret s)(serverSecretName i := None, caSecretName i := None)\<rparr>"
  by (simp add: tlsResources_def drop_chain)

lemma cleanup_settles:
  assumes "runs (cleanupTLS c x) w u s"
  shows "at_chk t = at_chk s \<Longrightarrow> at_pods t = at_pods s \<Longrightarrow> at_secret t = at_secret s \<Longrightarrow> idle (cleanupTLS c x) () t"
    and "n \<notin> {serverSecretName (ctx_name c), caSecretName (ctx_name c)} \<Longrightarrow> at_secret s n = at_secret (look w) n"
    and "\<exists>i e q. s = (look w)\<lparr>at_issuer := i, at_certificate := e, at_secret := q\<rparr>" and "cleaned_up c x s"
proof -
  let ?n = "ctx_name c"
  define used where "used = (cleaned_up c x :: 's stored \<Rightarrow> bool)"
  note used_def = used_def cleaned_up_def
  have stay: "idle (cleanupTLS c x) () t" if "used t" for t
  proof (cases "chi_uses_certificate (settings_lib_of c) x")
    case False
    with that show ?thesis
      unfolding cleanupTLS_def Let_def if_not_P [OF False] serverSecretMounted_def used_def
      by (intro idle_bind [OF idle_reads(7)]) 
        (auto intro!: idle_bind [OF mounted_idle] idle_bind [OF idle_reads(8)] split: option.splits)
  qed (simp add: cleanupTLS_def)
  have go: "s = fold (\<lambda>(k, n). drop_obj k n) (tlsResources ?n) (look w)" if "\<not> used (look w)"
    using assms that mounted_idle [THEN idle_result(1)] mounted_idle [THEN idle_result(2)]
    by (auto simp: cleanupTLS_def Let_def runs_bind serverSecretMounted_def used_def deleteTLSResources_def deleteAll_runs
        split: option.splits if_splits simp del: getOptional_simps(1))
  have cases: "used (look w) \<and> s = look w \<or> \<not> used (look w) \<and> s = fold (\<lambda>(k, n). drop_obj k n) (tlsResources ?n) (look w)"
    using stay [THEN idle_runs] assms go by blast
  then have "used s" by (auto simp: drop_tls used_def)
  then show "cleaned_up c x s" by (simp only: used_def)
  from \<open>used s\<close> show "at_chk t = at_chk s \<Longrightarrow> at_pods t = at_pods s \<Longrightarrow> at_secret t = at_secret s \<Longrightarrow> idle (cleanupTLS c x) () t"
    by (intro stay) (simp add: used_def)
  show "n \<notin> {serverSecretName ?n, caSecretName ?n} \<Longrightarrow> at_secret s n = at_secret (look w) n"
    using cases by (auto simp: drop_tls)
  show "\<exists>i e q. s = (look w)\<lparr>at_issuer := i, at_certificate := e, at_secret := q\<rparr>"
    by (rule exI [of _ "at_issuer s"], rule exI [of _ "at_certificate s"], rule exI [of _ "at_secret s"])
      (use cases in \<open>auto simp: drop_tls\<close>)
qed

lemma monitor_settles:
  assumes "runs (reconcilePodMonitor c) w u s"
  shows "idle (reconcilePodMonitor c) () s" and "\<exists>m. s = (look w)\<lparr>at_monitor := m\<rparr>"
    and "at_monitor s (podMonitorName (ctx_name c)) = (if podMonitorEnabled c then Some (buildPodMonitor c) else None)"
proof -
  let ?x = "OPodMonitor (buildPodMonitor c)" and ?n = "podMonitorName (ctx_name c)"
  have s: "s = (if podMonitorEnabled c then put_obj ?x (look w) else drop_obj KPodMonitor ?n (look w))"
    using assms by (auto simp: reconcilePodMonitor_def deletePodMonitor_def runs_bind split: if_splits)
  then have "(if podMonitorEnabled c then put_obj ?x s else drop_obj KPodMonitor ?n s) = s" by auto
  then show "idle (reconcilePodMonitor c) () s"
    by (auto simp: idle_def runs_bind reconcilePodMonitor_def deletePodMonitor_def split: if_splits)
  show "\<exists>m. s = (look w)\<lparr>at_monitor := m\<rparr>" by (rule exI [of _ "at_monitor s"]) (use s in auto)
  show "at_monitor s ?n = (if podMonitorEnabled c then Some (buildPodMonitor c) else None)"
    using s by (simp add: buildPodMonitor_def)
qed

end

end
