(* ===== verification/Fixed_Point.thy ===== *)
theory Fixed_Point
  imports Settling
begin

text \<open>
  A reconcile that has nothing left to wait for has nothing left to do: once \<open>Sync\<close> has returned, a second
  one finds the cluster as the first left it, returns too and changes nothing. The API server is
  the one of \<open>Api_Store\<close>.
\<close>

context api_store
begin

section \<open>ClickHouse\<close>

text \<open>\<open>frame s s'\<close>: what the ClickHouse part of a reconcile leaves alone.\<close>

definition frame :: "'s stored \<Rightarrow> 's stored \<Rightarrow> bool" where
  "frame s s' \<longleftrightarrow> at_chk s' = at_chk s \<and> at_service s' = at_service s \<and> at_instance s' = at_instance s \<and> at_pods s' = at_pods s \<and>
     at_secret s' (credentialsSecretName (ctx_name c)) = at_secret s (credentialsSecretName (ctx_name c)) \<and>
     (tlsEnabled c \<longrightarrow> same_tls s' s)"

lemma gate_settled_cong:
  "at_chi t = at_chi s \<Longrightarrow> at_chk t = at_chk s \<Longrightarrow> gate_settled g x key t = gate_settled g x key s"
  by (cases x) (simp_all add: gate_settled_def stampTaskID_def)

text \<open>What follows the gate: the policies of the object read back, the wait and the clean-up.\<close>

definition afterwards :: "'s chi \<Rightarrow> ('s, 'w, unit) act" where
  "afterwards cur = andthen (reconcilePlaintextPolicy c cur) (andthen (lift_result (waitForCHI cur))
     (if \<not> tlsEnabled c then cleanupTLS c cur else ret ()))"

lemma afterwards_settles:
  assumes "runs (afterwards cur) w u s"
  shows "waitForCHI cur = Inr ()" and "policies_in_place c cur s" and "tlsEnabled c \<or> cleaned_up c cur s"
    and "at_chi s = at_chi (look w)" and "frame (look w) s"
    and "n \<notin> {serverSecretName (ctx_name c), caSecretName (ctx_name c)} \<Longrightarrow> at_secret s n = at_secret (look w) n"
    and "idle (afterwards cur) () (s\<lparr>at_monitor := m\<rparr>)"
proof -
  let ?t = "s\<lparr>at_monitor := m\<rparr>"
  define v where "v = world (reconcilePlaintextPolicy c cur) w"
  from assms obtain p: "runs (reconcilePlaintextPolicy c cur) w () (look v)"
    and rest: "runs (andthen (lift_result (waitForCHI cur)) (if \<not> tlsEnabled c then cleanupTLS c cur else ret ())) v u s"
    unfolding afterwards_def v_def by (rule runs_andthenE)
  obtain q where v: "look v = (look w)\<lparr>at_policy := q\<rparr>" using policies_settle(2) [OF p] by auto
  from rest show wait: "waitForCHI cur = Inr ()" by (simp add: runs_andthen)
  from rest have clean: "if tlsEnabled c then s = look v else runs (cleanupTLS c cur) v u s"
    by (auto simp: runs_andthen split: if_splits)
  have "\<exists>i e r. s = (look v)\<lparr>at_issuer := i, at_certificate := e, at_secret := r\<rparr>"
    by (rule exI [of _ "at_issuer s"], rule exI [of _ "at_certificate s"], rule exI [of _ "at_secret s"])
      (use clean cleanup_settles(3) [of cur v u s] in \<open>auto split: if_splits\<close>)
  then have parts: "at_chi s = at_chi (look w)" "at_chk s = at_chk (look w)" "at_service s = at_service (look w)"
    "at_instance s = at_instance (look w)" "at_pods s = at_pods (look w)" "at_policy s = at_policy (look v)"
    by (auto simp: v)
  show secrets: "n \<notin> {serverSecretName (ctx_name c), caSecretName (ctx_name c)} \<Longrightarrow> at_secret s n = at_secret (look w) n" for n
    using clean cleanup_settles(2) [of cur v u s n] by (auto simp: v split: if_splits)
  show "at_chi s = at_chi (look w)" by (rule parts)
  show "policies_in_place c cur s"
    using policies_settle(3) [OF p] parts(6) by (simp add: policies_in_place_def policy_in_place_cong [of s _ "look v"])
  show "tlsEnabled c \<or> cleaned_up c cur s" using clean cleanup_settles(4) [of cur v u s] by (auto split: if_splits)
  show "frame (look w) s"
    using parts secrets [of "credentialsSecretName (ctx_name c)"] secrets_apart clean
    by (auto simp: frame_def same_tls_def v split: if_splits)
  have "idle (reconcilePlaintextPolicy c cur) () ?t"
    using policies_settle(1) [OF p, of ?t] parts by simp
  moreover have "idle (if \<not> tlsEnabled c then cleanupTLS c cur else ret ()) () ?t"
    using clean cleanup_settles(1) [of cur v u s ?t] by (auto split: if_splits)
  ultimately show "idle (afterwards cur) () ?t" unfolding afterwards_def using wait by (intro idle_andthen idle_lift)
qed

lemma chi_settles:
  assumes "runs (applyAndWaitForCHI c g x) w u s" and x: "chi_name x = ctx_name c" "chi_task_id (chi_spec_of x) = None"
    and rec: "g_record g = record_of (at_secret (look w) (rolloutStateName (ctx_name c)))"
    and free: "g_approved g \<noteq> Some False" "\<And>a. Requested a False \<notin> set (events (applyAndWaitForCHI c g x) w)"
  obtains g' cur where "gate_settled g' (RCHI x) ''chi'' s" and "g_inputs g' = g_inputs g"
    and "g_record g' = record_of (at_secret s (rolloutStateName (ctx_name c)))"
    and "\<And>other. other \<notin> {''chi'' @ specSuffix, ''chi'' @ inputsSuffix, targetKey} \<Longrightarrow> get0 (g_record g') other = get0 (g_record g) other"
    and "at_chi s (ctx_name c) = Some cur" and "waitForCHI cur = Inr ()" and "chiKeeperPort cur = chiKeeperPort x"
    and "frame (look w) s" and "policies_in_place c cur s" and "tlsEnabled c \<or> cleaned_up c cur s"
    and "\<And>h m. gate_settled h (RCHI x) ''chi'' s \<Longrightarrow> idle (applyAndWaitForCHI c h x) () (s\<lparr>at_monitor := m\<rparr>)"
proof -
  let ?n = "ctx_name c" and ?gate = "gateApply c g (RCHI x) ''chi''"
  obtain ok g' where gate: "result ?gate w = Inr (ok, g')"
    using assms(1) by (auto simp: applyAndWaitForCHI_def runs_bind wrap_err_Inr simp del: wrap_err_simps(1))
  have "Requested a False \<notin> set (events ?gate w)" for a
    using free(2) [of a] by (auto simp: applyAndWaitForCHI_def in_events)
  from not_held [OF gate free(1) this] have ok: ok by simp
  define v where "v = world (get_chi c ?n) (world ?gate w)"
  have v: "look v = look (world ?gate w)" by (simp add: v_def)
  have g: "runs ?gate w (True, g') (look v)" using gate ok by (simp add: runs_def v)
  note settled = gate_settles [OF g, simplified, OF x(2) rec]
  obtain y t where y: "y = RCHI x \<or> (\<exists>i. y = stampTaskID (RCHI x) i)" and s1: "look v = (put_obj (obj_of y) (look w))\<lparr>at_secret := t\<rparr>"
    using settled(6) by blast
  obtain z where z: "obj_of y = OCHI z" "chi_name z = ?n" "chi_configuration (chi_spec_of z) = chi_configuration (chi_spec_of x)"
    using y x(1) by (auto simp: stampTaskID_def)
  obtain cur where cur: "at_chi (look v) ?n = Some cur" "chiKeeperPort cur = chiKeeperPort x"
    using z by (auto simp: s1 chiKeeperPort_def)
  have "runs (afterwards cur) v u s"
    using assms(1) gate cur(1)
    by (auto simp: applyAndWaitForCHI_def afterwards_def runs_bind wrap_err_Inr v v_def answer_def simp del: wrap_err_simps(1))
  note rest = afterwards_settles [OF this]
  have chk: "at_chk s = at_chk (look v)" using rest(5) by (simp add: frame_def)
  show thesis
  proof (rule that [of g' cur])
    show "gate_settled g' (RCHI x) ''chi'' s" using settled(1) gate_settled_cong [OF rest(4) chk] by simp
    show "g_inputs g' = g_inputs g" by (rule settled(2))
    show "g_record g' = record_of (at_secret s (rolloutStateName ?n))"
      using settled(3) rest(6) [of "rolloutStateName ?n"] secrets_apart by simp
    show "get0 (g_record g') other = get0 (g_record g) other"
      if "other \<notin> {''chi'' @ specSuffix, ''chi'' @ inputsSuffix, targetKey}" for other
      using settled(4) that rec by simp
    have "frame (look w) (look v)" using settled(5) secrets_apart z(1) by (simp add: frame_def same_tls_def) (simp add: s1)
    then show "frame (look w) s" using rest(5) by (simp add: frame_def same_tls_def)
    show "idle (applyAndWaitForCHI c h x) () (s\<lparr>at_monitor := m\<rparr>)" if h: "gate_settled h (RCHI x) ''chi'' s" for h m
    proof -
      let ?t = "s\<lparr>at_monitor := m\<rparr>"
      have "gate_settled h (RCHI x) ''chi'' ?t" using h gate_settled_cong [of ?t s] by simp
      then have "idle (gateApply c h (RCHI x) ''chi'') (True, h) ?t" by (rule gate_idle)
      moreover have "at_chi ?t ?n = Some cur" using cur(1) rest(4) by simp
      ultimately show ?thesis
        unfolding applyAndWaitForCHI_def afterwards_def [symmetric]
        using rest(7) [of m] by (intro idle_bind [where a = "(True, h)"] idle_bind [OF idle_reads(1)]) (auto simp: answer_def)
    qed
  qed (use cur rest(1-4) in simp_all)
qed

section \<open>Keeper and ClickHouse\<close>

lemma build_keeps:
  "look (world (buildCHKWired c wiring) w) = look w" "look (world (buildCHIWired c n wiring) w) = look w"
  using storage_idle [THEN idle_result(1)] storage_idle [THEN idle_result(2)]
    login_idle [THEN idle_result(1)] login_idle [THEN idle_result(2)]
  by (auto simp: buildCHKWired_def buildCHIWired_def Let_def run_simps split: sum.splits prod.splits)

lemma pair_result:
  assumes "result (buildPair c wiring) w = Inr (k, x)"
  shows "look (world (buildPair c wiring) w) = look w" and "result (buildCHKWired c wiring) w = Inr k"
    and "\<exists>v. look v = look w \<and> result (buildCHIWired c (replicasCount c) wiring) v = Inr x"
proof -
  have k: "result (buildCHKWired c wiring) w = Inr k"
    and x: "result (buildCHIWired c (replicasCount c) wiring) (world (buildCHKWired c wiring) w) = Inr x"
    using assms by (auto simp: buildPair_def bind_Inr wrap_err_Inr simp del: wrap_err_simps(1))
  then show "look (world (buildPair c wiring) w) = look w" "result (buildCHKWired c wiring) w = Inr k"
    using build_keeps by (simp_all add: buildPair_def world_bind)
  show "\<exists>v. look v = look w \<and> result (buildCHIWired c (replicasCount c) wiring) v = Inr x"
    using x build_keeps(1) by blast
qed

lemma pair_idle:
  assumes "result (buildPair c wiring) w = Inr (k, x)"
    and "keeper_storage (component c ComponentKeeper) (at_chk s (keeperCRName (ctx_name c))) =
      keeper_storage (component c ComponentKeeper) (at_chk (look w) (keeperCRName (ctx_name c)))"
    and "at_secret s (credentialsSecretName (ctx_name c)) = at_secret (look w) (credentialsSecretName (ctx_name c))"
  shows "idle (buildPair c wiring) (k, x) s"
proof -
  note parts = pair_result [OF assms(1)]
  from parts(3) obtain v where v: "look v = look w" "result (buildCHIWired c (replicasCount c) wiring) v = Inr x" by blast
  have "idle (buildCHKWired c wiring) k s" by (rule chk_idle [OF parts(2) assms(2)])
  moreover have "idle (buildCHIWired c (replicasCount c) wiring) x s" by (rule chi_idle [OF v(2)]) (simp add: v assms(3))
  ultimately show ?thesis
    unfolding buildPair_def by (intro idle_bind [where a = k] idle_bind [where a = x]) simp_all
qed

text \<open>The plan in a given state, and what \<open>preparePair\<close> returns and reads.\<close>

definition plan_at :: "'s stored \<Rightarrow> keeperWiring \<times> keeperWiring" where
  "plan_at s = nextKeeperWiring (tlsEnabled c) (stateOf (at_chk s (keeperCRName (ctx_name c))) (at_chi s (ctx_name c)))"

definition same_render :: "'s stored \<Rightarrow> 's stored \<Rightarrow> bool" where
  "same_render t s \<longleftrightarrow>
     keeper_storage (component c ComponentKeeper) (at_chk t (keeperCRName (ctx_name c))) =
       keeper_storage (component c ComponentKeeper) (at_chk s (keeperCRName (ctx_name c))) \<and>
     at_secret t (credentialsSecretName (ctx_name c)) = at_secret s (credentialsSecretName (ctx_name c)) \<and>
     at_instance t = at_instance s"

lemma plan_reads: "result (planKeeperWiring c) v = Inr (plan_at (look v))" "look (world (planKeeperWiring c) v) = look v"
  using plan_idle [THEN idle_result(1)] plan_idle [THEN idle_result(2)] by (simp_all add: plan_at_def)

text \<open>The calls of \<open>preparePair\<close>, one after the other.\<close>

lemma prepare_parts:
  assumes "runs (preparePair c) w (step, target, k, x, g) s"
  defines "v \<equiv> world (planKeeperWiring c) w"
  defines "v2 \<equiv> world (buildPair c step) v"
  obtains k2 x2 where "plan_at (look w) = (step, target)" and "result (buildPair c step) v = Inr (k, x)"
    and "result (buildPair c target) v2 = Inr (k2, x2)"
    and "runs (newRolloutGate c [RCHK k2, RCHI x2]) (world (buildPair c target) v2) g s"
proof -
  obtain a b where ab: "plan_at (look w) = (a, b)" by (cases "plan_at (look w)")
  then have "runs (bind (buildPair c a) (\<lambda>(desiredCHK, desiredCHI). bind (buildPair c b) (\<lambda>(targetCHK, targetCHI).
     bind (newRolloutGate c [RCHK targetCHK, RCHI targetCHI]) (\<lambda>g. ret (a, b, desiredCHK, desiredCHI, g))))) v (step, target, k, x, g) s"
    using assms by (simp add: preparePair_def runs_bind plan_reads(1) v_def)
  then obtain p where p: "result (buildPair c a) v = Inr p"
    and "runs (case p of (desiredCHK, desiredCHI) \<Rightarrow> bind (buildPair c b) (\<lambda>(targetCHK, targetCHI).
     bind (newRolloutGate c [RCHK targetCHK, RCHI targetCHI]) (\<lambda>g. ret (a, b, desiredCHK, desiredCHI, g)))) (world (buildPair c a) v) (step, target, k, x, g) s"
    unfolding runs_bind by blast
  then obtain q where q: "result (buildPair c b) (world (buildPair c a) v) = Inr q"
    and "runs (bind (newRolloutGate c [RCHK (fst q), RCHI (snd q)]) (\<lambda>g. ret (a, b, fst p, snd p, g)))
      (world (buildPair c b) (world (buildPair c a) v)) (step, target, k, x, g) s"
    by (auto simp: runs_bind case_prod_beta)
  then obtain h where h: "runs (newRolloutGate c [RCHK (fst q), RCHI (snd q)]) (world (buildPair c b) (world (buildPair c a) v)) h
      (look (world (newRolloutGate c [RCHK (fst q), RCHI (snd q)]) (world (buildPair c b) (world (buildPair c a) v))))"
    and out: "(step, target, k, x, g) = (a, b, fst p, snd p, h)"
      "s = look (world (newRolloutGate c [RCHK (fst q), RCHI (snd q)]) (world (buildPair c b) (world (buildPair c a) v)))"
    by (auto elim!: runs_bindE)
  show thesis by (rule that [of "fst q" "snd q"]) (use ab p q h out in \<open>simp_all add: v2_def\<close>)
qed

lemma prepare_runs:
  assumes "runs (preparePair c) w (step, target, k, x, g) s"
  shows "s = look w" and "plan_at s = (step, target)"
    and "\<exists>v. look v = s \<and> result (buildPair c step) v = Inr (k, x)"
    and "g_record g = record_of (at_secret s (rolloutStateName (ctx_name c)))" and "g_approved g = None"
    and "step = target \<Longrightarrow> plan_at t = (step, step) \<Longrightarrow> same_render t s \<Longrightarrow>
      idle (preparePair c) (step, step, k, x, g\<lparr>g_record := record_of (at_secret t (rolloutStateName (ctx_name c)))\<rparr>) t"
proof -
  define v where "v = world (planKeeperWiring c) w"
  define v2 where "v2 = world (buildPair c step) v"
  obtain k2 x2 where first: "plan_at (look w) = (step, target)" "result (buildPair c step) v = Inr (k, x)"
    and second: "result (buildPair c target) v2 = Inr (k2, x2)"
    and gate: "runs (newRolloutGate c [RCHK k2, RCHI x2]) (world (buildPair c target) v2) g s"
    using prepare_parts [OF assms] unfolding v_def v2_def by blast
  have look: "look v = look w" "look v2 = look w" "look (world (buildPair c target) v2) = look w"
    using plan_reads(2) pair_result(1) [OF first(2)] pair_result(1) [OF second] by (simp_all add: v_def v2_def)
  note gate_facts = new_gate [OF gate]
  from gate_facts(1) look show s: "s = look w" by simp
  with first(1) show "plan_at s = (step, target)" by simp
  show "\<exists>v. look v = s \<and> result (buildPair c step) v = Inr (k, x)" using first(2) look s by blast
  show "g_record g = record_of (at_secret s (rolloutStateName (ctx_name c)))" by (rule gate_facts(2))
  show "g_approved g = None"
    using gate by (auto simp: newRolloutGate_def runs_bind answer_def split: option.splits)
  assume t: "step = target" "plan_at t = (step, step)" "same_render t s"
  have pair: "idle (buildPair c step) (k, x) t"
    by (rule pair_idle [OF first(2)]) (use t(3) look s in \<open>simp_all add: same_render_def\<close>)
  have "idle (buildPair c step) (k, x) (look v2)" by (rule pair_idle [OF first(2)]) (simp_all add: look)
  with second t(1) have "(k2, x2) = (k, x)" by (simp add: idle_result(1))
  moreover have "idle (newRolloutGate c [RCHK k2, RCHI x2]) (g\<lparr>g_record := record_of (at_secret t (rolloutStateName (ctx_name c)))\<rparr>) t"
    by (rule gate_facts(3)) (use t(3) in \<open>simp add: same_render_def inputs_of_def\<close>)
  moreover have "idle (planKeeperWiring c) (step, step) t" using plan_idle [of t] t(2) by (simp add: plan_at_def)
  ultimately show "idle (preparePair c) (step, step, k, x, g\<lparr>g_record := record_of (at_secret t (rolloutStateName (ctx_name c)))\<rparr>) t"
    unfolding preparePair_def
    by (intro idle_bind [where a = "(step, step)"]) (auto intro!: idle_bind [OF pair] intro: idle_bind)
qed

lemma gate_settled_record:
  assumes "gate_settled g x key s" and "g_inputs h = g_inputs g"
    and "get0 (g_record h) (key @ specSuffix) = get0 (g_record g) (key @ specSuffix)"
    and "get0 (g_record h) (key @ inputsSuffix) = get0 (g_record g) (key @ inputsSuffix)"
  shows "gate_settled h x key s"
  using assms by (simp add: gate_settled_def)

text \<open>The Keeper part of \<open>applyPair\<close>.\<close>

lemma keeper_settles:
  assumes "runs (applyPair c g k x) w u s" and k: "chk_name k = keeperCRName (ctx_name c)" "chk_task_id (chk_spec_of k) = None"
    and rec: "g_record g = record_of (at_secret (look w) (rolloutStateName (ctx_name c)))"
    and free: "g_approved g \<noteq> Some False" "\<And>a. Requested a False \<notin> set (events (applyPair c g k x) w)"
  obtains g1 v cur where "gate_settled g1 (RCHK k) ''chk'' (look v)" and "g_inputs g1 = g_inputs g"
    and "g_record g1 = record_of (at_secret (look v) (rolloutStateName (ctx_name c)))" and "g_approved g1 \<noteq> Some False"
    and "at_chk (look v) (keeperCRName (ctx_name c)) = Some cur" and "waitForCHK cur = Inr ()"
    and "chkPorts cur = chkPorts k" and "chk_templates (chk_spec_of cur) = chk_templates (chk_spec_of k)"
    and "frame ((look w)\<lparr>at_chk := at_chk (look v)\<rparr>) (look v)"
    and "runs (applyAndWaitForCHI c g1 x) v u s" and "\<And>a. Requested a False \<notin> set (events (applyAndWaitForCHI c g1 x) v)"
proof -
  let ?kn = "keeperCRName (ctx_name c)" and ?gate = "gateApply c g (RCHK k) ''chk''"
  obtain ok g1 where gate: "result ?gate w = Inr (ok, g1)"
    using assms(1) by (auto simp: applyPair_def runs_bind wrap_err_Inr simp del: wrap_err_simps(1))
  have "Requested a False \<notin> set (events ?gate w)" for a
    using free(2) [of a] by (auto simp: applyPair_def in_events)
  from not_held [OF gate free(1) this] have ok: ok and approved: "g_approved g1 \<noteq> Some False" by simp_all
  define v where "v = world (get_chk c ?kn) (world ?gate w)"
  have look: "look v = look (world ?gate w)" by (simp add: v_def)
  have g: "runs ?gate w (True, g1) (look v)" using gate ok by (simp add: runs_def look)
  note settled = gate_settles [OF g, simplified, OF k(2) rec]
  obtain y t where y: "y = RCHK k \<or> (\<exists>i. y = stampTaskID (RCHK k) i)" and s1: "look v = (put_obj (obj_of y) (look w))\<lparr>at_secret := t\<rparr>"
    using settled(6) by blast
  obtain z where z: "obj_of y = OCHK z" "chk_name z = ?kn" "chk_configuration (chk_spec_of z) = chk_configuration (chk_spec_of k)"
    "chk_templates (chk_spec_of z) = chk_templates (chk_spec_of k)"
    using y k(1) by (auto simp: stampTaskID_def)
  then obtain cur where cur: "at_chk (look v) ?kn = Some cur" "chkPorts cur = chkPorts k"
    "chk_templates (chk_spec_of cur) = chk_templates (chk_spec_of k)"
    by (auto simp: s1 chkPorts_def)
  have seen: "result (get_chk c ?kn) (world ?gate w) = Inr (Inr cur)" using cur(1) by (simp add: look answer_def)
  have rest: "runs (andthen (lift_result (waitForCHK cur)) (applyAndWaitForCHI c g1 x)) v u s"
    using assms(1) gate seen
    by (auto simp: applyPair_def runs_bind wrap_err_Inr v_def simp del: wrap_err_simps(1) call_results)
  have "frame ((look w)\<lparr>at_chk := at_chk (look v)\<rparr>) (look v)"
    using settled(5) secrets_apart z(1) by (simp add: frame_def same_tls_def) (simp add: s1)
  moreover have "Requested a False \<notin> set (events (applyAndWaitForCHI c g1 x) v)" for a
    using free(2) [of a] gate seen rest
    by (auto simp: applyPair_def in_events wrap_err_Inr v_def runs_andthen simp del: wrap_err_simps(1) call_results)
  ultimately show thesis
    using settled cur approved rest by (intro that [of g1 v cur]) (auto simp: runs_andthen)
qed

lemma record_keys_apart:
  "''chk'' @ specSuffix \<notin> {''chi'' @ specSuffix, ''chi'' @ inputsSuffix, targetKey}"
  "''chk'' @ inputsSuffix \<notin> {''chi'' @ specSuffix, ''chi'' @ inputsSuffix, targetKey}"
  by (simp_all add: record_keys)

lemma frame_render:
  "frame s s' \<Longrightarrow> same_tls s' s \<or> \<not> tlsEnabled c"
  "frame s s' \<Longrightarrow> at_secret s' (credentialsSecretName (ctx_name c)) = at_secret s (credentialsSecretName (ctx_name c))"
  by (auto simp: frame_def)

text \<open>What \<open>preparePair\<close> hands to \<open>applyPair\<close>.\<close>

lemma prepared_pair:
  assumes "result (preparePair c) w = Inr (step, target, k, x, g)"
  shows "chk_name k = keeperCRName (ctx_name c)" and "chk_task_id (chk_spec_of k) = None"
    and "chi_name x = ctx_name c" and "chi_task_id (chi_spec_of x) = None"
    and "chkPorts k = wiringPorts step" and "chiKeeperPort x = kw_port step"
    and "chk_templates (chk_spec_of y) = chk_templates (chk_spec_of k) \<Longrightarrow>
      keeper_storage (component c ComponentKeeper) (Some y) =
        keeper_storage (component c ComponentKeeper) (at_chk (look w) (keeperCRName (ctx_name c)))"
proof -
  have run: "runs (preparePair c) w (step, target, k, x, g) (look (world (preparePair c) w))" using assms by (simp add: runs_def)
  note facts = prepare_runs [OF run]
  from facts(1,3) obtain b where b: "look b = look w" "result (buildPair c step) b = Inr (k, x)" by auto
  note built = pair_result [OF b(2)]
  from built(3) obtain b' where b': "result (buildCHIWired c (replicasCount c) step) b' = Inr x" by blast
  show "chk_name k = keeperCRName (ctx_name c)" "chk_task_id (chk_spec_of k) = None" "chi_name x = ctx_name c"
    "chi_task_id (chi_spec_of x) = None"
    using buildCHKWired_result [OF built(2)] buildCHIWired_result [OF b'] by auto
  show "chkPorts k = wiringPorts step" "chiKeeperPort x = kw_port step"
    using built_ports(1) [OF built(2)] built_ports(2) [OF _ b'] replicasCount_ge2 [of c] by simp_all
  show "chk_templates (chk_spec_of y) = chk_templates (chk_spec_of k) \<Longrightarrow>
      keeper_storage (component c ComponentKeeper) (Some y) =
        keeper_storage (component c ComponentKeeper) (at_chk (look w) (keeperCRName (ctx_name c)))"
    using built_storage [OF built(2)] b(1) by simp
qed

lemma pair_stays:
  assumes "gate_settled h (RCHK k) ''chk'' s" and "at_chk s (keeperCRName (ctx_name c)) = Some cur" and "waitForCHK cur = Inr ()"
    and "idle (applyAndWaitForCHI c h x) () s"
  shows "idle (applyPair c h k x) () s"
  unfolding applyPair_def
  using gate_idle [OF assms(1)] assms(2-)
  by (intro idle_bind [where a = "(True, h)"]) (auto simp: answer_def intro!: idle_bind [OF idle_reads(2)] idle_andthen idle_lift)

lemma replicated_settles:
  assumes "runs (syncReplicated c) w u s" and free: "\<And>a. Requested a False \<notin> set (events (syncReplicated c) w)"
  shows "idle (syncReplicated c) () (s\<lparr>at_monitor := m\<rparr>)"
    and "at_secret s (credentialsSecretName (ctx_name c)) = at_secret (look w) (credentialsSecretName (ctx_name c))"
    and "tlsEnabled c \<Longrightarrow> same_tls s (look w)" and "cluster_in_place c s"
proof -
  let ?kn = "keeperCRName (ctx_name c)" and ?cn = "credentialsSecretName (ctx_name c)" and ?v = "world (preparePair c) w"
  let ?t = "s\<lparr>at_monitor := m\<rparr>"
  obtain step target k x g where prep: "result (preparePair c) w = Inr (step, target, k, x, g)"
    and run: "runs (applyPair c g k x) ?v () s" and step: "step = target"
    using assms(1) by (auto simp: syncReplicated_def runs_bind runs_andthen) (auto simp: runs_def split: if_splits)
  have prep_runs: "runs (preparePair c) w (step, target, k, x, g) (look ?v)" using prep by (simp add: runs_def)
  note facts = prepare_runs [OF prep_runs]
  from facts(5) have open_gate: "g_approved g \<noteq> Some False" by simp
  note pair = prepared_pair [OF prep]
  have quiet: "Requested a False \<notin> set (events (applyPair c g k x) ?v)" for a
    using free [of a] prep by (simp add: syncReplicated_events)
  obtain g1 v cur where chk: "gate_settled g1 (RCHK k) ''chk'' (look v)" "g_inputs g1 = g_inputs g"
      "g_record g1 = record_of (at_secret (look v) (rolloutStateName (ctx_name c)))" "g_approved g1 \<noteq> Some False"
      "at_chk (look v) ?kn = Some cur" "waitForCHK cur = Inr ()" "chkPorts cur = chkPorts k"
      "chk_templates (chk_spec_of cur) = chk_templates (chk_spec_of k)"
    and frame1: "frame ((look ?v)\<lparr>at_chk := at_chk (look v)\<rparr>) (look v)"
    and rest: "runs (applyAndWaitForCHI c g1 x) v () s" "\<And>a. Requested a False \<notin> set (events (applyAndWaitForCHI c g1 x) v)"
    by (rule keeper_settles [OF run pair(1,2) facts(4) open_gate quiet]) blast
  obtain g2 cur2 where chi: "gate_settled g2 (RCHI x) ''chi'' s" "g_inputs g2 = g_inputs g1"
      "g_record g2 = record_of (at_secret s (rolloutStateName (ctx_name c)))"
      "\<And>other. other \<notin> {''chi'' @ specSuffix, ''chi'' @ inputsSuffix, targetKey} \<Longrightarrow> get0 (g_record g2) other = get0 (g_record g1) other"
      "at_chi s (ctx_name c) = Some cur2" "waitForCHI cur2 = Inr ()" "chiKeeperPort cur2 = chiKeeperPort x"
    and frame2: "frame (look v) s" and placed: "policies_in_place c cur2 s" "tlsEnabled c \<or> cleaned_up c cur2 s"
    and again: "\<And>h m. gate_settled h (RCHI x) ''chi'' s \<Longrightarrow> idle (applyAndWaitForCHI c h x) () (s\<lparr>at_monitor := m\<rparr>)"
    by (rule chi_settles [OF rest(1) pair(3,4) chk(3,4) rest(2)]) blast
  show cred: "at_secret s ?cn = at_secret (look w) ?cn"
    using frame1 frame2 facts(1) by (simp add: frame_def)
  show "tlsEnabled c \<Longrightarrow> same_tls s (look w)"
    using frame1 frame2 facts(1) by (simp add: frame_def same_tls_def)
  have keeper: "at_chk ?t = at_chk (look v)" using frame2 by (simp add: frame_def)
  have "step = targetWiring (tlsEnabled c) (stateOf (at_chk (look ?v) ?kn) (at_chi (look ?v) (ctx_name c)))"
    using facts(2) step by (simp add: plan_at_def nextKeeperWiring_def Let_def)
  then show "cluster_in_place c s"
    using chi(5-7) placed chk(5-7) keeper pair(5,6) by (auto simp: cluster_in_place_def targetWiring_def wiringPorts_def)
  define h where "h = g\<lparr>g_record := record_of (at_secret ?t (rolloutStateName (ctx_name c)))\<rparr>"
  have h: "g_record h = g_record g2" "g_inputs h = g_inputs g2" using chi(2,3) chk(2) by (simp_all add: h_def)
  have chi_h: "gate_settled h (RCHI x) ''chi'' s" by (rule gate_settled_record [OF chi(1)]) (simp_all add: h)
  have chk_h: "gate_settled h (RCHK k) ''chk'' ?t"
  proof (rule gate_settled_record)
    have "gate_settled g1 (RCHK k) ''chk'' ?t = gate_settled g1 (RCHK k) ''chk'' (look v)"
      using keeper by (simp add: gate_settled_def stampTaskID_def)
    with chk(1) show "gate_settled g1 (RCHK k) ''chk'' ?t" by simp
  qed (use chi(4) [OF record_keys_apart(1)] chi(4) [OF record_keys_apart(2)] in \<open>simp_all add: h chi(2)\<close>)
  have "plan_at ?t = (step, step)"
    using facts(2) step chk(5) chi(5) keeper
      plan_stays [OF _ _ _ chk(6) chi(6), of "tlsEnabled c" "at_chk (look w) ?kn" "at_chi (look w) (ctx_name c)" step]
      pair(5,6) chk(7) chi(7) facts(1)
    by (simp add: plan_at_def)
  moreover have "same_render ?t (look ?v)"
    using cred frame1 frame2 facts(1) keeper chk(5) pair(7) [OF chk(8)]
    by (simp add: same_render_def frame_def)
  ultimately have "idle (preparePair c) (step, step, k, x, h) ?t" unfolding h_def by (rule facts(6) [OF step])
  moreover have "idle (applyPair c h k x) () ?t"
    by (rule pair_stays [OF chk_h _ chk(6) again [OF chi_h]]) (simp add: keeper chk(5))
  ultimately show "idle (syncReplicated c) () ?t"
    unfolding syncReplicated_def by (intro idle_bind) (auto intro!: idle_andthen)
qed

section \<open>A standalone ClickHouse\<close>

lemma unwired_port: "unwired c s \<Longrightarrow> kw_port (fst (plan_at s)) = KeeperSecurePort \<longleftrightarrow> tlsEnabled c"
  by (cases "at_chi s (ctx_name c)")
    (auto simp: unwired_def plan_at_def nextKeeperWiring_def stepPort_def targetWiring_def stateOf_def Let_def
      KeeperSecurePort_def KeeperPort_def)

lemma alone_same:
  assumes "kw_port a = KeeperSecurePort \<longleftrightarrow> kw_port b = KeeperSecurePort"
  shows "buildCHIWired c 1 a = buildCHIWired c 1 b"
proof -
  have "wireTLS c a = wireTLS c b" using assms by (simp add: wireTLS_def fun_eq_iff)
  then have "chiSpec c 1 a = chiSpec c 1 b" by (simp add: chiSpec_def fun_eq_iff)
  then show ?thesis by (simp add: buildCHIWired_def)
qed

lemma standalone_settles:
  assumes "runs (syncStandalone c) w u s" and free: "\<And>a. Requested a False \<notin> set (events (syncStandalone c) w)"
  shows "unwired c (look w) \<Longrightarrow> idle (syncStandalone c) () (s\<lparr>at_monitor := m\<rparr>)"
    and "at_secret s (credentialsSecretName (ctx_name c)) = at_secret (look w) (credentialsSecretName (ctx_name c))"
    and "tlsEnabled c \<Longrightarrow> same_tls s (look w)" and "\<not> replicated c \<Longrightarrow> cluster_in_place c s"
proof -
  let ?t = "s\<lparr>at_monitor := m\<rparr>" and ?rn = "rolloutStateName (ctx_name c)"
  define p where "p = world (planKeeperWiring c) w"
  define step where "step = fst (plan_at (look w))"
  have build: "result (buildCHI c 1) w = result (buildCHIWired c 1 step) p" "world (buildCHI c 1) w = world (buildCHIWired c 1 step) p"
    "events (buildCHI c 1) w = events (planKeeperWiring c) w @ events (buildCHIWired c 1 step) p"
    by (simp_all add: buildCHI_def run_simps plan_reads p_def step_def case_prod_beta)
  obtain x where x: "result (buildCHIWired c 1 step) p = Inr x"
    using assms(1) by (auto simp: syncStandalone_def runs_bind wrap_err_Inr build simp del: wrap_err_simps(1))
  define v where "v = world (buildCHIWired c 1 step) p"
  have look: "look p = look w" "look v = look w" using plan_reads(2) build_keeps(2) by (simp_all add: p_def v_def)
  from assms(1) x obtain g where g: "runs (newRolloutGate c [RCHI x]) v g (look (world (newRolloutGate c [RCHI x]) v))"
    and run: "runs (applyAndWaitForCHI c g x) (world (newRolloutGate c [RCHI x]) v) () s"
    by (auto simp: syncStandalone_def runs_bind wrap_err_Inr build v_def simp del: wrap_err_simps(1)) (auto simp: runs_def)
  define v2 where "v2 = world (newRolloutGate c [RCHI x]) v"
  note gate = new_gate [OF g, folded v2_def]
  have approved: "g_approved g \<noteq> Some False"
    using g by (auto simp: newRolloutGate_def runs_bind answer_def split: option.splits)
  obtain img settings user where parts:
    "x = \<lparr>chi_name = ctx_name c, chi_spec_of = chiSpec c 1 step img settings user, chi_status = None\<rparr>"
    using buildCHIWired_result [OF x] by blast
  then have names: "chi_name x = ctx_name c" "chi_task_id (chi_spec_of x) = None" by simp_all
  have port: "chiKeeperPort x < 0"
    using chiSpec_configuration [of c 1 step img settings user] by (auto simp: parts chiKeeperPort_def)
  have quiet: "Requested a False \<notin> set (events (applyAndWaitForCHI c g x) v2)" for a
    using free [of a] x g by (simp add: syncStandalone_def in_events_bind build v2_def v_def runs_def)
  obtain g2 cur where chi: "gate_settled g2 (RCHI x) ''chi'' s" "g_inputs g2 = g_inputs g" "g_record g2 = record_of (at_secret s ?rn)"
      "at_chi s (ctx_name c) = Some cur" "waitForCHI cur = Inr ()" "chiKeeperPort cur = chiKeeperPort x"
    and frame: "frame (look v2) s" and placed: "policies_in_place c cur s" "tlsEnabled c \<or> cleaned_up c cur s"
    and again: "\<And>h m. gate_settled h (RCHI x) ''chi'' s \<Longrightarrow> idle (applyAndWaitForCHI c h x) () (s\<lparr>at_monitor := m\<rparr>)"
    by (rule chi_settles [OF run [folded v2_def] names gate(2) approved quiet]) blast
  show cred: "at_secret s (credentialsSecretName (ctx_name c)) = at_secret (look w) (credentialsSecretName (ctx_name c))"
    and "tlsEnabled c \<Longrightarrow> same_tls s (look w)"
    using frame gate(1) look by (simp_all add: frame_def)
  show "\<not> replicated c \<Longrightarrow> cluster_in_place c s" using chi(4,5) placed by (auto simp: cluster_in_place_def)
  assume alone: "unwired c (look w)"
  have "unwired c s" using chi(4,6) port by (simp add: unwired_def)
  then have same: "buildCHIWired c 1 (fst (plan_at s)) = buildCHIWired c 1 step"
    by (intro alone_same) (simp add: unwired_port alone step_def)
  have planned: "idle (planKeeperWiring c) (plan_at s) ?t" using plan_idle [of ?t] by (simp add: plan_at_def)
  have "idle (buildCHIWired c 1 step) x ?t" by (rule chi_idle [OF x]) (simp add: cred look)
  then have "idle (buildCHI c 1) x ?t"
    unfolding buildCHI_def
    by (intro idle_bind [OF planned]) (simp add: same case_prod_beta)
  moreover define h where "h = g\<lparr>g_record := record_of (at_secret ?t ?rn)\<rparr>"
  have "idle (newRolloutGate c [RCHI x]) h ?t"
    unfolding h_def by (rule gate(3)) (use frame gate(1) look in \<open>simp add: inputs_of_def frame_def\<close>)
  moreover have "gate_settled h (RCHI x) ''chi'' s"
    by (rule gate_settled_record [OF chi(1)]) (simp_all add: h_def chi(2,3))
  then have "idle (applyAndWaitForCHI c h x) () ?t" by (rule again)
  ultimately show "idle (syncStandalone c) () ?t"
    unfolding syncStandalone_def by (intro idle_bind [where a = x] idle_bind [where a = h]) simp_all
qed

section \<open>The whole reconcile\<close>

lemma cluster_ignores_monitor [simp]: "cluster_in_place c (s\<lparr>at_monitor := m\<rparr>) = cluster_in_place c s"
proof -
  have "policies_in_place c x (s\<lparr>at_monitor := m\<rparr>) = policies_in_place c x s" for x
    unfolding policies_in_place_def by (intro arg_cong2 [where f = "(\<and>)"] policy_in_place_cong) simp_all
  then show ?thesis by (simp add: cluster_in_place_def cleaned_up_def)
qed

text \<open>The certificates, and the cluster in either topology.\<close>

lemma issuing_settles:
  assumes "runs (if tlsEnabled c then ensureTLS c else ret ()) w u s"
  shows "at_chi s = at_chi (look w)"
    and "at_secret s (credentialsSecretName (ctx_name c)) = at_secret (look w) (credentialsSecretName (ctx_name c))"
    and "tlsEnabled c \<longrightarrow> certificate_in_place c s"
    and "tlsEnabled c \<longrightarrow> same_tls t s \<Longrightarrow> idle (if tlsEnabled c then ensureTLS c else ret ()) () t"
proof -
  let ?cn = "credentialsSecretName (ctx_name c)"
  have "at_chi s = at_chi (look w) \<and> at_secret s ?cn = at_secret (look w) ?cn"
  proof (cases "tlsEnabled c")
    case True
    with assms have run: "runs (ensureTLS c) w u s" by simp
    obtain i e q where "s = (look w)\<lparr>at_issuer := i, at_certificate := e, at_secret := q\<rparr>" using tls_settles(3) [OF run] by blast
    then have "at_chi s = at_chi (look w)" by simp
    with tls_settles(2) [OF run, of ?cn] secrets_apart show ?thesis by simp
  qed (use assms in simp)
  then show "at_chi s = at_chi (look w)" "at_secret s ?cn = at_secret (look w) ?cn" by simp_all
  show "tlsEnabled c \<longrightarrow> certificate_in_place c s" using assms tls_settles(4) [of w u s] by (auto split: if_splits)
  show "tlsEnabled c \<longrightarrow> same_tls t s \<Longrightarrow> idle (if tlsEnabled c then ensureTLS c else ret ()) () t"
    using assms tls_settles(1) [of w u s t] by (auto split: if_splits)
qed

lemma cluster_settles:
  assumes "runs (if replicated c then syncReplicated c else syncStandalone c) w u s"
    and free: "\<And>a. Requested a False \<notin> set (events (if replicated c then syncReplicated c else syncStandalone c) w)"
  shows "\<not> replicated c \<longrightarrow> unwired c (look w) \<Longrightarrow>
      idle (if replicated c then syncReplicated c else syncStandalone c) () (s\<lparr>at_monitor := m\<rparr>)"
    and "cluster_in_place c s"
    and "at_secret s (credentialsSecretName (ctx_name c)) = at_secret (look w) (credentialsSecretName (ctx_name c))"
    and "tlsEnabled c \<longrightarrow> same_tls s (look w)"
proof -
  let ?main = "if replicated c then syncReplicated c else syncStandalone c" and ?cn = "credentialsSecretName (ctx_name c)"
  have "((\<not> replicated c \<longrightarrow> unwired c (look w)) \<longrightarrow> idle ?main () (s\<lparr>at_monitor := m\<rparr>)) \<and> cluster_in_place c s \<and>
    at_secret s ?cn = at_secret (look w) ?cn \<and> (tlsEnabled c \<longrightarrow> same_tls s (look w))"
  proof (cases "replicated c")
    case True
    with assms have "runs (syncReplicated c) w u s" "\<And>a. Requested a False \<notin> set (events (syncReplicated c) w)" by simp_all
    from replicated_settles [OF this] True show ?thesis by simp
  next
    case False
    with assms have "runs (syncStandalone c) w u s" "\<And>a. Requested a False \<notin> set (events (syncStandalone c) w)" by simp_all
    from standalone_settles [OF this] False show ?thesis by simp
  qed
  then show "\<not> replicated c \<longrightarrow> unwired c (look w) \<Longrightarrow> idle ?main () (s\<lparr>at_monitor := m\<rparr>)" "cluster_in_place c s"
    "at_secret s ?cn = at_secret (look w) ?cn" "tlsEnabled c \<longrightarrow> same_tls s (look w)" by blast+
qed

lemma sync_settles:
  assumes "full_random c" and "runs (sync c) w u s" and free: "\<And>a. Requested a False \<notin> set (events (sync c) w)"
  shows "\<not> replicated c \<longrightarrow> unwired c (look w) \<Longrightarrow> idle (sync c) () s" and "reconciled c s"
proof -
  let ?cn = "credentialsSecretName (ctx_name c)"
  let ?main = "if replicated c then syncReplicated c else syncStandalone c"
  let ?tls = "if tlsEnabled c then ensureTLS c else ret ()"
  define v1 where "v1 = world (ensureCredentials c) w"
  define v2 where "v2 = world ?tls v1"
  define v3 where "v3 = world ?main v2"
  obtain sec where sec: "runs (ensureCredentials c) w sec (look v1)" and tls: "runs ?tls v1 () (look v2)"
    and main: "runs ?main v2 () (look v3)" and monitor: "runs (reconcilePodMonitor c) v3 () s"
    and held: "\<And>a. Requested a False \<notin> set (events ?main v2)"
    using assms(2) free
    by (auto simp: sync_def runs_bind runs_andthen in_events wrap_err_Inr v1_def v2_def v3_def simp del: wrap_err_simps(1))
      (auto simp: runs_def)
  note cred = credentials_settle [OF assms(1) sec] and issuing = issuing_settles [OF tls]
    and cluster = cluster_settles [OF main held]
  obtain m where s: "s = (look v3)\<lparr>at_monitor := m\<rparr>" using monitor_settles(2) [OF monitor] by blast
  have stored: "at_secret s ?cn = Some sec" using issuing(2) cluster(3) cred(2) by (simp add: s)
  with cluster(2,4) issuing(3) cred(1) monitor_settles(3) [OF monitor] show "reconciled c s"
    by (simp add: reconciled_def s) (simp add: certificate_in_place_def same_tls_def)
  assume alone: "\<not> replicated c \<longrightarrow> unwired c (look w)"
  obtain q where "look v1 = (look w)\<lparr>at_secret := q\<rparr>" using cred(4) by blast
  with alone issuing(1) have "\<not> replicated c \<longrightarrow> unwired c (look v2)" by (simp add: unwired_def)
  then have "idle ?main () s" unfolding s by (rule cluster(1))
  moreover have "idle ?tls () s" by (rule issuing(4)) (use cluster(4) in \<open>simp add: s same_tls_def\<close>)
  moreover have "idle (ensureCredentials c) sec s" by (rule credentials_idle [OF stored cred(1)])
  ultimately show "idle (sync c) () s"
    unfolding sync_def using monitor_settles(1) [OF monitor]
    by (intro idle_bind [where a = sec] idle_andthen idle_bind [where a = "Inr ()"] idle_attempt) (auto intro: idle_lift)
qed

end

section \<open>What Status reports\<close>

text \<open>The connection details of what is stored.\<close>

definition stored_ca :: "('s, 'w) ctx \<Rightarrow> 's stored \<Rightarrow> string" where
  "stored_ca c s =
     (case at_secret s (serverSecretName (ctx_name c)) of None \<Rightarrow> [] | Some srv \<Rightarrow> get0 (secret_data srv) ''ca.crt'')"

definition stored_credentials :: "('s, 'w) ctx \<Rightarrow> 's stored \<Rightarrow> string \<times> string" where
  "stored_credentials c s =
     (case at_secret s (credentialsSecretName (ctx_name c)) of
        None \<Rightarrow> (AppUserName, [])
      | Some sec \<Rightarrow> (let v = get0 (secret_data sec) CredentialsKeyUsername
                     in (if v \<noteq> [] then v else AppUserName, get0 (secret_data sec) CredentialsKeyPassword)))"

definition stored_details :: "('s, 'w) ctx \<Rightarrow> 's stored \<Rightarrow> 's chi \<Rightarrow> connection_details" where
  "stored_details c s x = connectionDetails c x (at_service s (clientServiceName (ctx_name c)))
     (if tlsEnabled c then stored_ca c s else []) (stored_credentials c s)"

context api_store
begin

lemma idle_answered: "idle (f (answer (at_secret s n))) b s \<Longrightarrow> idle (bind (get_secret c n) f) b s"
  by (rule idle_bind [OF idle_reads(3)])

lemma idle_details: "idle (buildConnectionDetails c x) (stored_details c s x) s"
proof -
  have "idle (readCACert c) (stored_ca c s) s"
    unfolding readCACert_def stored_ca_def by (rule idle_answered) (simp add: answer_def split: option.splits)
  then have ca: "idle (if tlsEnabled c then readCACert c else ret []) (if tlsEnabled c then stored_ca c s else []) s" by simp
  have credentials: "idle (readCredentials c) (stored_credentials c s) s"
    unfolding readCredentials_def stored_credentials_def
    by (rule idle_answered) (auto simp: answer_def Let_def split: option.splits)
  show ?thesis
    unfolding buildConnectionDetails_def stored_details_def
    by (intro idle_bind [OF idle_attempt [OF idle_reads(9)]] idle_bind [OF ca] idle_bind [OF credentials]) simp
qed

lemma status_ready:
  assumes "reconciled c s" and "at_chi s (ctx_name c) = Some x"
  shows "idle (Status c) (readyWith (stored_details c s x)) s"
proof -
  have x: "waitForCHI x = Inr ()" and keeper: "replicated c \<Longrightarrow> \<exists>k. at_chk s (keeperCRName (ctx_name c)) = Some k \<and> waitForCHK k = Inr ()"
    and crt: "tlsEnabled c \<Longrightarrow> issued (at_secret s (serverSecretName (ctx_name c)))"
    using assms by (auto simp: reconciled_def cluster_in_place_def certificate_in_place_def)
  obtain conn where conn: "idle (servingDetails c (Some x)) conn s"
    by (cases "in_completedBefore (clickhouseView (Some x))")
      (auto simp: servingDetails_def intro: idle_bind [OF idle_details] idle_simps)
  define f where "f = inProgressStatus (clickhouseView (Some x)) conn"
  have "idle (keeperStatus c f) None s"
  proof (cases "replicated c")
    case True
    then obtain k where "at_chk s (keeperCRName (ctx_name c)) = Some k" "waitForCHK k = Inr ()" using keeper by blast
    moreover from this(2) have "installationStatus f (chkInstallation k) = None" by (simp add: waitForCHK_ok chk_view.done_iff)
    ultimately show ?thesis
      using True unfolding keeperStatus_def by (simp, intro idle_bind [OF idle_reads(7)]) simp
  qed (simp add: keeperStatus_def)
  moreover have "installationStatus f (clickhouseView (Some x)) = None"
    using x by (simp add: clickhouseView_def waitForCHI_ok chi_view.done_iff)
  moreover have "idle (if tlsEnabled c then serverCertificateIssued c else ret True) True s"
  proof (cases "tlsEnabled c")
    case True
    with crt show ?thesis
      unfolding serverCertificateIssued_def
      by (simp, intro idle_bind [OF idle_reads(8)]) (auto simp: issued_def split: option.splits)
  qed simp
  then have "idle (readyStatus c f x) (readyWith (stored_details c s x)) s"
    unfolding readyStatus_def by (rule idle_bind) (simp, intro idle_bind [OF idle_details], simp)
  ultimately have "idle (statusFrom c (Some x) f) (readyWith (stored_details c s x)) s"
    unfolding statusFrom_def by (intro idle_bind [where a = None]) simp_all
  moreover have "idle (getOptional (ctx_name c) (get_chi c (ctx_name c))) (Some x) s" by (metis assms(2) idle_reads(6))
  ultimately show ?thesis
    using conn unfolding Status_def f_def by (intro idle_bind [where a = "Some x"] idle_bind [where a = conn])
qed

end

section \<open>Properties\<close>

lemma Sync_returned:
  assumes "api_store c look" and "result (Sync c) w = Inr ()" and "\<forall>a. Requested a False \<notin> set (events (Sync c) w)"
  shows "api_store.runs look (sync c) w () (look (world (Sync c) w))" and "Requested a False \<notin> set (events (sync c) w)"
    and "world (Sync c) w = world (sync c) w"
proof -
  from assms(2) have ok: "result (sync c) w = Inr ()" by (simp add: Sync_runs)
  then show world: "world (Sync c) w = world (sync c) w" by (simp add: Sync_def world_bind)
  show "api_store.runs look (sync c) w () (look (world (Sync c) w))" by (simp add: api_store.runs_def [OF assms(1)] ok world)
  show "Requested a False \<notin> set (events (sync c) w)" using assms(3) by (simp add: Sync_runs ok)
qed

text \<open>C3. What a reconcile establishes: when \<open>Sync\<close> has returned with no change held back, the cluster holds
  complete credentials; with TLS the issued certificate, requested with every name and address, and otherwise no
  certificate that nothing uses any more; a ClickHouse that is rolled out and, if replicated, wired to a rolled out
  Keeper that serves exactly the one port TLS calls for; the network policies the applied mode calls for and no
  others; and the PodMonitor exactly when it is asked for.\<close>

theorem reconcile_establishes:
  assumes "api_store c look" and "full_random c"
    and "result (Sync c) w = Inr ()" and "\<forall>a. Requested a False \<notin> set (events (Sync c) w)"
  shows "reconciled c (look (world (Sync c) w))"
  using api_store.sync_settles(2) [OF assms(1,2)] Sync_returned [OF assms(1,3,4)] by blast

theorem reconcile_establishes_witness:
  "reconciled (sample_ctx sample_parameters) (cluster_view (world (Sync (sample_ctx sample_parameters)) settled_cluster))"
  using reconcile_establishes [OF sample_store.api_store_axioms sample_full_random settled_sync(1)]
    settled_sync(2) [of "Requested a False" for a]
  by auto

text \<open>C4. A reconcile that returns has reached a fixed point: when \<open>Sync\<close> has returned with no change held back,
  the next \<open>Sync\<close> of a cluster that still holds the same objects returns as well and leaves every object as it
  is, so nothing the provider derives from what it reads (credentials, wiring, storage, fingerprints, task IDs)
  keeps changing what it applies; and \<open>Status\<close> reports the cluster Ready, with the connection details of what is
  stored. A standalone Instance must not start from a CHI that uses Keeper.\<close>

theorem reconcile_reaches_fixed_point:
  assumes "api_store c look" and "full_random c"
    and "\<not> replicated c \<longrightarrow> (\<forall>x. at_chi (look w) (ctx_name c) = Some x \<longrightarrow> chiKeeperPort x < 0)"
    and "result (Sync c) w = Inr ()" and "\<forall>a. Requested a False \<notin> set (events (Sync c) w)"
    and "look v = look (world (Sync c) w)"
  shows "result (Sync c) v = Inr () \<and> look (world (Sync c) v) = look v \<and>
     (\<exists>x. at_chi (look v) (ctx_name c) = Some x \<and> result (Status c) v = Inr (readyWith (stored_details c (look v) x)))"
proof -
  note first = Sync_returned [OF assms(1,4,5)]
  have "api_store.idle look (sync c) () (look (world (Sync c) w))"
    by (rule api_store.sync_settles(1) [OF assms(1,2) first(1,2)]) (use assms(3) in \<open>simp add: unwired_def\<close>)
  with assms(6) have "api_store.runs look (sync c) v () (look (world (Sync c) w))"
    unfolding api_store.idle_def [OF assms(1)] by blast
  then have "result (sync c) v = Inr ()" "look (world (sync c) v) = look v"
    using assms(6) unfolding api_store.runs_def [OF assms(1)] by simp_all
  then have "result (Sync c) v = Inr ()" "look (world (Sync c) v) = look v" by (simp_all add: Sync_def run_simps)
  moreover have settled: "reconciled c (look v)"
    using api_store.sync_settles(2) [OF assms(1,2) first(1,2)] assms(6) by simp
  then obtain x where x: "at_chi (look v) (ctx_name c) = Some x" by (auto simp: reconciled_def cluster_in_place_def)
  have "result (Status c) v = Inr (readyWith (stored_details c (look v) x))"
    by (rule api_store.idle_result(1) [OF assms(1) api_store.status_ready [OF assms(1) settled x]])
  ultimately show ?thesis using x by blast
qed

theorem reconcile_reaches_fixed_point_witness:
  "let c = sample_ctx sample_parameters; v = world (Sync c) settled_cluster
   in result (Sync c) settled_cluster = Inr () \<and> result (Sync c) v = Inr () \<and> (\<exists>d. result (Status c) v = Inr (readyWith d))"
proof -
  let ?c = "sample_ctx sample_parameters"
  have "replicated ?c" "\<forall>a. Requested a False \<notin> set (events (Sync ?c) settled_cluster)"
    using settled_sync(2) [of "Requested a False" for a] sample_replicated by auto
  then show ?thesis
    using reconcile_reaches_fixed_point [OF sample_store.api_store_axioms sample_full_random _ settled_sync(1), of "world (Sync ?c) settled_cluster"]
      settled_sync(1)
    unfolding Let_def by blast
qed

end
