(* ===== verification/Spec2Isabelle.thy ===== *)
theory Spec2Isabelle
  imports Entry_Point Conformance_Runs Fixed_Point Deletion
begin

text \<open>
  A model of the OpenEverest provider for ClickHouse on the Altinity operator
  (\<^verbatim>\<open>src/internal/provider\<close>, \<^verbatim>\<open>src/internal/common/spec.go\<close>, \<^verbatim>\<open>src/definition/components/types.go\<close>),
  translated from the Go sources, and the theorems that make it correct.

  \<^bold>\<open>The program.\<close> The provider turns an Instance into the operator's custom resources: a
  ClickHouseInstallation (CHI) and, in the replicated topology, a ClickHouseKeeperInstallation
  (CHK). Its runtime calls \<^verbatim>\<open>Validate\<close>, \<^verbatim>\<open>Sync\<close>, \<^verbatim>\<open>Status\<close> and \<^verbatim>\<open>Cleanup\<close> again and again; each call
  reads the cluster, applies what is missing, and gives up with an error or a request to be
  called again. All state is in the cluster: the Instance, the CHI and CHK with the status the
  operator writes, a Secret with the credentials, a Secret with the rollout record, the
  cert-manager objects, two NetworkPolicies, a PodMonitor, the operator's Services, and the
  volumes and pods.

  \<^bold>\<open>How it is modelled.\<close> \<open>Effects\<close> defines programs: functions from the world (an abstract type)
  to a result, a new world and the list of the calls made, each with its answer; an error is a
  value, and what was done before it stays done. \<open>Runtime\<close> defines the reconcile context:
  everything that is not under \<^verbatim>\<open>src/\<close> is a field of a record (the API server's operations, the
  operator library's settings, hashing, JSON, version parsing, the runtime's maintenance
  protocol) and the definitions take it as an argument, so a theorem holds for every such
  environment, including one in which the operator and the users act between any two calls. The
  hypotheses on it are named: \<open>settings_laws\<close> (the settings type stores what is set in it),
  \<open>default_operator_ports\<close> (the operator's documented port numbers), \<open>full_random\<close> (the random
  source fills the buffer), \<open>api_store\<close> (the API server stores objects and no one else writes meanwhile),
  \<open>deleting_server\<close> (the same of an API server that keeps a deleted object until its finalizers are done). Only
  three small runtime functions are spelled out instead, as the sources and their tests fix what they
  return: the constructors of a Provisioning, Failed and Ready status. The pure data (\<open>Objects\<close>) is the structs the program touches,
  with the fields it touches; Go maps with string keys are association lists, pointers that may be nil are
  options, the ports and counters are \<^typ>\<open>int\<close>, with the one addition that could wrap (\<open>bumpRevision\<close>)
  written out at 64 bits. Logging is not modelled.

  \<^bold>\<open>Theories and sources.\<close>
  \<^item> \<open>Prelude\<close>, \<open>Strconv\<close>: what the program uses of \<^verbatim>\<open>strings\<close>, \<^verbatim>\<open>strconv\<close>, \<^verbatim>\<open>encoding/hex\<close> and of maps.
  \<^item> \<open>Constants\<close>: \<^verbatim>\<open>common/spec.go\<close>. \<open>Names\<close>: the names of managed objects and of the operator's
    Services (\<^verbatim>\<open>tls.go\<close>, \<^verbatim>\<open>keeper_tls.go\<close> and others), with the locale \<open>suffixed\<close> interpreted for each.
  \<^item> \<open>Parameters\<close>, \<open>Workload\<close>, \<open>Scheduling\<close>: the engine parameters, images, resources, storage and
    settings (\<^verbatim>\<open>provider.go\<close>), placement (\<^verbatim>\<open>scheduling.go\<close>).
  \<^item> \<open>Keeper_Wiring\<close>, \<open>Keeper_Migration\<close>: \<^verbatim>\<open>keeper_tls.go\<close>; the planner's contract is the locale
    \<open>keeper_planner\<close>, interpreted on \<open>nextKeeperWiring\<close>. The second theory is the abstract
    specification of a switch of Keeper to TLS and back: a step relation of the provider and the
    operator with the task IDs both go by, its reachable states, the invariant that ClickHouse is always
    served as long as no change carries the ID of a finished one, two runs that lose Keeper otherwise, and
    convergence.
  \<^item> \<open>Users\<close>: \<^verbatim>\<open>users.go\<close> and the credentials parts of \<^verbatim>\<open>provider.go\<close>. \<open>Tls\<close>: \<^verbatim>\<open>tls.go\<close>. \<open>Netpol\<close>:
    \<^verbatim>\<open>netpol.go\<close>, with an evaluation of NetworkPolicies. \<open>Connection\<close>: \<^verbatim>\<open>connection.go\<close>, with the
    escaping of \<^verbatim>\<open>net/url\<close>. \<open>Monitoring\<close>: \<^verbatim>\<open>monitoring.go\<close>.
  \<^item> \<open>Builders\<close>: the rendering of the CHI and the CHK (\<^verbatim>\<open>provider.go\<close>). \<open>Rollout\<close>: \<^verbatim>\<open>rollout.go\<close>, the gate every
    change passes. \<open>Status_Report\<close>: \<^verbatim>\<open>status.go\<close>; the locale \<open>operator_view\<close> is what the CHI's and the CHK's
    views share. \<open>Validate\<close>: \<^verbatim>\<open>validate.go\<close>.
  \<^item> \<open>Reconcile\<close>, \<open>Reconcile_Order\<close>: \<^verbatim>\<open>Sync\<close> with everything below it. \<open>Teardown\<close>: \<^verbatim>\<open>Cleanup\<close>.
    \<open>Failures\<close>: what both do once a write fails, and when \<^verbatim>\<open>Cleanup\<close> returns. \<open>Agreement\<close>: a reconcile that
    returned is reported Ready.
  \<^item> \<open>Api_Store\<close>, \<open>Settling\<close>, \<open>Fixed_Point\<close>: the reconcile on an API server that stores what it is given, stated as the
    locale \<open>api_store\<close>: what each part of \<^verbatim>\<open>Sync\<close> establishes, that it then finds nothing to do, and that
    \<^verbatim>\<open>Status\<close> then reports Ready with what is stored.
  \<^item> \<open>Deletion\<close>: the teardown to its end, on an API server with finalizers (the locale \<open>deleting_server\<close>, of
    which the Store with finalizers is an instance): \<open>ends\<close> says how a run ends and what it leaves marked for
    deletion, \<open>goes_on\<close> lets any number of further calls of \<^verbatim>\<open>Cleanup\<close> happen until the operator lets go.
  \<^item> \<open>Registration\<close>: \<^verbatim>\<open>New\<close> of \<^verbatim>\<open>provider.go\<close>, the schemes and watches, and the permissions of \<^verbatim>\<open>rbac.go\<close>, checked
    against every call of the four operations. \<open>Entry_Point\<close>: \<^verbatim>\<open>cmd/provider/main.go\<close>.
  \<^item> \<open>Store\<close>: an in-memory cluster on which the closed instances of the properties are evaluated. \<open>Conformance\<close>,
    \<open>Conformance_Runs\<close>: cases of the program's unit tests, evaluated on the model.

  A definition has the name of the function it models; \<open>gateApply\<close> is \<^verbatim>\<open>(*rolloutGate).apply\<close>,
  \<open>installationStatus\<close> is \<^verbatim>\<open>(installation).status\<close>. Long functions are cut into parts, named where they are
  defined.

  \<^bold>\<open>What is shown.\<close> Statements about order are about the list of calls: what was called, with which
  answer, before a given call. \<open>Effects\<close> holds the calculi for them, each a predicate on programs with one
  rule per construct, collected for \<open>intro\<close>: \<open>emits\<close> (which calls a program can make), \<open>guards\<close> and \<open>ensures\<close>
  (which come before others), \<open>stops\<close> (nothing more is written after a failed call), \<open>decided\<close> (the calls
  alone decide whether it returns), \<open>succeeds\<close> and \<open>keeps\<close> (for the concrete instances). Statements about the
  objects themselves are made on \<open>api_store\<close>, with \<open>runs\<close> (what a run leaves stored) and \<open>idle\<close> (it changes
  nothing). The groups are: what a reconcile establishes and that it is then a fixed point; the Keeper switch
  (never disconnects with fresh task IDs, can with returning ones, converges, and \<open>syncReplicated\<close> takes its
  steps with task IDs that name the rendering); the reconcile's order;
  errors (no failed write is ignored, waiting and reporting agree); the gate (approval, no request for a
  user's edit, idempotence); the credentials (completeness, preservation, revisions, seeding); certificates
  (what they cover, that nothing waits for one that was never issued, that none is deleted while used, that
  a new address wakes the Instance); what is rendered (wiring, references, modes); network policies; what
  Status reports; what Validate accepts; the teardown and that it ends; the permissions.

  \<^bold>\<open>Bounds.\<close> Every program is total: loops run over lists, and a reconcile that must wait returns a
  \<open>Wait\<close>. No fuel is used; a switch of Keeper takes three reconciles, and \<open>Cleanup\<close> returns as soon as nothing it
  waits for is left, which two rounds with the operator bring about. The counters are 64-bit and wrap. The migration model
  covers a Keeper change held for approval once ClickHouse is wired to Keeper (\<open>plan_held\<close>); one held before
  the first CHI exists is outside it.

  \<^bold>\<open>Not modelled.\<close> Code generation (\<^verbatim>\<open>gen.go\<close>, \<^verbatim>\<open>hack\<close>), the Helm chart, the definitions in YAML
  and the integration tests. The operator, Kubernetes and cert-manager are the environment.
\<close>

end
